theory Spec2Isabelle
  imports Main "HOL-Library.Char_ord" "HOL-Library.List_Lexorder"
begin

section \<open>The constructor of ChemicalReactionsBase as a function\<close>

text \<open>
  The constructor \<^verbatim>\<open>ChemicalReactionsBase::ChemicalReactionsBase\<close> reads the reaction
  text and fills the member vectors of the class. It is modelled as a chain of stages,
  each a function on a record of those vectors. A stage returns \<open>Inl e\<close> where the
  constructor stops: \<open>MooseError\<close> for a call of \<^verbatim>\<open>mooseError\<close>, \<open>StdException\<close> for a C++
  exception that nothing catches, \<open>UndefinedBehaviour\<close> for a read or write through
  \<^verbatim>\<open>operator[]\<close> beyond the end of a \<^verbatim>\<open>std::vector\<close>.
\<close>

datatype error =
    MooseError string
  | StdException string
  | UndefinedBehaviour

definition then_do :: "error + 'a \<Rightarrow> ('a \<Rightarrow> error + 'b) \<Rightarrow> error + 'b" where
  "then_do r f = (case r of Inl e \<Rightarrow> Inl e | Inr x \<Rightarrow> f x)"

text \<open>
  A loop over the elements of a list that stops at the first error. The loops
  \<^verbatim>\<open>for (i = 0; i < n; ++i)\<close> of the source run over \<open>[0..<n]\<close>.
\<close>

fun for_loop :: "'a list \<Rightarrow> ('a \<Rightarrow> 's \<Rightarrow> error + 's) \<Rightarrow> 's \<Rightarrow> error + 's" where
  "for_loop [] body s = Inr s"
| "for_loop (i # is) body s =
     (case body i s of Inl e \<Rightarrow> Inl e | Inr s' \<Rightarrow> for_loop is body s')"

subsection \<open>Strings and \<^verbatim>\<open>size_t\<close>\<close>

text \<open>
  \<^verbatim>\<open>size_t\<close> is a 64-bit unsigned integer: a natural number below \<open>2^64\<close>, with the
  wrap-around of \<open>+\<close> and \<open>-\<close> written out. \<^verbatim>\<open>std::string::npos\<close> is its largest value.
\<close>

definition npos :: nat where
  "npos = 18446744073709551615"

definition sz_add :: "nat \<Rightarrow> nat \<Rightarrow> nat" where
  "sz_add a b = (a + b) mod 18446744073709551616"

definition sz_sub :: "nat \<Rightarrow> nat \<Rightarrow> nat" where
  "sz_sub a b = (a + 18446744073709551616 - b) mod 18446744073709551616"

fun find_from :: "char \<Rightarrow> string \<Rightarrow> nat \<Rightarrow> nat" where
  "find_from c [] i = npos"
| "find_from c (x # xs) i = (if x = c then i else find_from c xs (i + 1))"

text \<open>\<^verbatim>\<open>token.find(c)\<close>: the position of the first \<open>c\<close>, or \<open>npos\<close>.\<close>

definition find_char :: "string \<Rightarrow> char \<Rightarrow> nat" where
  "find_char token c = find_from c token 0"

text \<open>
  \<^verbatim>\<open>token.substr(pos, n)\<close>: throws \<^verbatim>\<open>std::out_of_range\<close> when \<open>pos\<close> is beyond the end,
  and otherwise returns at most \<open>n\<close> characters from \<open>pos\<close> on.
\<close>

definition substr :: "string \<Rightarrow> nat \<Rightarrow> nat \<Rightarrow> error + string" where
  "substr token pos n =
     (if length token < pos then Inl (StdException ''out_of_range'')
      else Inr (take n (drop pos token)))"

text \<open>The characters \<^verbatim>\<open>std::isspace\<close> accepts in the C locale.\<close>

definition is_space :: "char \<Rightarrow> bool" where
  "is_space c \<longleftrightarrow> c \<in> {CHR '' '', CHR 0x09, CHR 0x0A, CHR 0x0B, CHR 0x0C, CHR 0x0D}"

text \<open>
  Modelled from the spec: \<^verbatim>\<open>trim\<close> is declared in a header of the repository that is
  not among the sources; the specification calls its result the trimmed text, so it
  removes the white space at both ends.
\<close>

definition trim :: "string \<Rightarrow> string" where
  "trim s = rev (dropWhile is_space (rev (dropWhile is_space s)))"

text \<open>
  \<^verbatim>\<open>while (std::getline(iss >> std::ws, token, delim))\<close>: white space is skipped, then
  the characters up to the next delimiter are the token and the delimiter is consumed;
  the loop ends when only white space is left.
\<close>

function getline_tokens :: "char \<Rightarrow> string \<Rightarrow> string list" where
  "getline_tokens delim s =
     (let s' = dropWhile is_space s
      in if s' = [] then []
         else takeWhile (\<lambda>c. c \<noteq> delim) s'
                # getline_tokens delim (drop 1 (dropWhile (\<lambda>c. c \<noteq> delim) s')))"
  by pat_completeness auto
termination
proof (relation "measure (\<lambda>(delim, s). length s)")
  show "wf (measure (\<lambda>(delim, s). length s))" by simp
next
  fix delim :: char and s x :: string
  assume x: "x = dropWhile is_space s" and ne: "x \<noteq> []"
  have "length (drop 1 (dropWhile (\<lambda>c. c \<noteq> delim) x)) < length x"
  proof (cases "dropWhile (\<lambda>c. c \<noteq> delim) x = []")
    case True
    show ?thesis unfolding True using ne by simp
  next
    case False
    have le: "length (dropWhile (\<lambda>c. c \<noteq> delim) x) \<le> length x"
      by (rule length_dropWhile_le)
    from False have pos: "0 < length (dropWhile (\<lambda>c. c \<noteq> delim) x)"
      by (metis length_greater_0_conv)
    show ?thesis unfolding length_drop using le pos by linarith
  qed
  moreover have "length x \<le> length s" unfolding x by (rule length_dropWhile_le)
  ultimately show "((delim, drop 1 (dropWhile (\<lambda>c. c \<noteq> delim) x)), (delim, s))
      \<in> measure (\<lambda>(delim, s). length s)" by simp
qed

declare getline_tokens.simps [simp del]

subsection \<open>One line of the reaction text (lines 267 to 340)\<close>

record line_fields =
  lf_reaction :: string
  lf_rate_coefficient_string :: string
  lf_threshold_energy_string :: string
  lf_energy_change :: bool
  lf_rate_equation_string :: string
  lf_rate_equation :: bool
  lf_is_identified :: bool
  lf_reaction_identifier :: string

text \<open>
  Lines 293 to 296: the text pushed on \<^verbatim>\<open>rate_coefficient_string\<close>, before line 299
  trims it.
\<close>

definition rate_coefficient_raw :: "string \<Rightarrow> error + string" where
  "rate_coefficient_raw token =
     (let pos = find_char token CHR '':'';
          pos_start = find_char token CHR ''['';
          rxn_identifier_start = find_char token CHR ''(''
      in if rxn_identifier_start < pos_start
         then substr token (sz_add pos 1) (sz_sub rxn_identifier_start (sz_add pos 1))
         else substr token (sz_add pos 1) (sz_sub pos_start (sz_add pos 1)))"

text \<open>
  The body of the loop over the lines. The string literal \<^verbatim>\<open>"\0"\<close> that marks a line
  with no bracket is the empty \<^verbatim>\<open>std::string\<close>.
\<close>

definition parse_line :: "string \<Rightarrow> error + line_fields" where
  "parse_line token =
     (let pos = find_char token CHR '':'';
          pos_start = find_char token CHR ''['';
          pos_end = find_char token CHR '']'';
          eq_start = find_char token CHR ''{'';
          eq_end = find_char token CHR ''}'';
          rxn_identifier_start = find_char token CHR ''('';
          rxn_identifier_end = find_char token CHR '')''
      in
      then_do (substr token 0 pos) (\<lambda>rxn.
      then_do (rate_coefficient_raw token) (\<lambda>rate.
      then_do (if pos_start \<noteq> npos
               then substr token (sz_add pos_start 1) (sz_sub (sz_sub pos_end pos_start) 1)
               else Inr []) (\<lambda>thr.
      then_do (if eq_start \<noteq> npos
               then substr token (sz_add eq_start 1) (sz_sub (sz_sub eq_end eq_start) 1)
               else Inr ''NONE'') (\<lambda>eqn.
      then_do (if rxn_identifier_start \<noteq> npos \<and> \<not> (eq_start \<noteq> npos)
               then substr token (sz_add rxn_identifier_start 1)
                      (sz_sub (sz_sub rxn_identifier_end rxn_identifier_start) 1)
               else Inr ''NONE'') (\<lambda>ident.
      Inr \<lparr> lf_reaction = trim rxn,
            lf_rate_coefficient_string = trim rate,
            lf_threshold_energy_string = thr,
            lf_energy_change = (pos_start \<noteq> npos),
            lf_rate_equation_string = eqn,
            lf_rate_equation = (eq_start \<noteq> npos),
            lf_is_identified = (rxn_identifier_start \<noteq> npos \<and> \<not> (eq_start \<noteq> npos)),
            lf_reaction_identifier = ident \<rparr>))))))"

subsection \<open>Numbers of type \<^verbatim>\<open>Real\<close>\<close>

text \<open>
  \<^verbatim>\<open>Real\<close> is a C++ \<^verbatim>\<open>double\<close>. Its values and operations are parameters of the model:
  nothing is assumed about floating-point arithmetic, so every result holds for the
  arithmetic of the machine as for any other. \<open>r_of_size\<close> and \<open>r_of_int\<close> are the
  conversions from \<^verbatim>\<open>size_t\<close> and \<^verbatim>\<open>int\<close>, \<open>r_avogadro\<close> is the literal \<^verbatim>\<open>6.022e23\<close>.
\<close>

datatype 'r stod_result = Stod_value 'r | Stod_invalid_argument | Stod_out_of_range

record 'r real_ops =
  r_stod :: "string \<Rightarrow> 'r stod_result"
  r_stringify :: "'r \<Rightarrow> string"
  r_pow :: "'r \<Rightarrow> 'r \<Rightarrow> 'r"
  r_mul :: "'r \<Rightarrow> 'r \<Rightarrow> 'r"
  r_neg :: "'r \<Rightarrow> 'r"
  r_of_size :: "nat \<Rightarrow> 'r"
  r_of_int :: "int \<Rightarrow> 'r"
  r_nan :: 'r
  r_avogadro :: 'r

subsection \<open>Input parameters\<close>

text \<open>
  The value \<^verbatim>\<open>getParam\<close> returns for each parameter the constructor reads, and a flag
  for each parameter it tests with \<^verbatim>\<open>isParamValid\<close>.
\<close>

record 'r params =
  p_species :: "string list"
  p_aux_species :: "string list"
  p_aux_species_valid :: bool
  p_electron_density :: string
  p_electron_density_valid :: bool
  p_electron_energy :: "string list"
  p_electron_energy_valid :: bool
  p_gas_energy :: "string list"
  p_gas_energy_valid :: bool
  p_reactions :: string
  p_file_location :: string
  p_use_bolsig :: bool
  p_include_electrons :: bool
  p_lumped_species :: bool
  p_lumped :: "string list"
  p_lumped_valid :: bool
  p_lumped_name :: string
  p_balance_check :: bool
  p_num_particles :: "int list"
  p_num_particles_valid :: bool
  p_convert_to_moles :: bool
  p_convert_to_meters :: 'r
  p_interpolation_type :: string

subsection \<open>The members of the class and the locals of the constructor\<close>

text \<open>
  One field for each vector and counter the constructor fills, under the name the source
  gives it, without the leading underscore. \<open>rate_coefficient_string\<close>,
  \<open>threshold_energy_string\<close> and \<open>superelastic_reactions\<close> are locals of the constructor.
  The vectors \<^verbatim>\<open>_aux_var_name\<close> and \<^verbatim>\<open>_reaction_coefficient_name\<close> (names made of the
  reaction's number) and the counters of constant and function reactions are left out:
  they are written only, and resized together with \<open>rate_coefficient\<close>.
\<close>

record 'r crb =
  reaction :: "string list"
  rate_coefficient_string :: "string list"
  threshold_energy_string :: "string list"
  energy_change :: "bool list"
  rate_equation_string :: "string list"
  rate_equation :: "bool list"
  is_identified :: "bool list"
  reaction_identifier :: "string list"
  num_reactions :: nat
  rate_coefficient :: "'r list"
  threshold_energy :: "'r list"
  elastic_collision :: "bool list"
  rate_type :: "string list"
  num_eedf_reactions :: nat
  eedf_reaction_number :: "nat list"
  reactants :: "string list list"
  products :: "string list list"
  reversible_reaction :: "bool list"
  electron_index :: "nat list"
  superelastic_reactions :: nat
  reaction_lumped :: "bool list"
  lumped_reaction :: "nat list"
  all_participants :: "string list"
  reaction_species :: "string list"
  num_reactants :: "nat list"
  num_products :: "nat list"
  species_count :: "int list list"
  superelastic_index :: "nat list"
  superelastic_reaction :: "bool list"
  stoichiometric_coeff :: "int list list"
  reaction_participants :: "string list list"
  reaction_stoichiometric_coeff :: "int list list"
  species_index :: "nat list"
  energy_variable :: "string list"

definition crb_init :: "'r crb" where
  "crb_init =
     \<lparr> reaction = [], rate_coefficient_string = [], threshold_energy_string = [],
       energy_change = [], rate_equation_string = [], rate_equation = [],
       is_identified = [], reaction_identifier = [], num_reactions = 0,
       rate_coefficient = [], threshold_energy = [], elastic_collision = [],
       rate_type = [], num_eedf_reactions = 0, eedf_reaction_number = [],
       reactants = [], products = [], reversible_reaction = [], electron_index = [],
       superelastic_reactions = 0, reaction_lumped = [], lumped_reaction = [],
       all_participants = [], reaction_species = [], num_reactants = [],
       num_products = [], species_count = [], superelastic_index = [],
       superelastic_reaction = [], stoichiometric_coeff = [],
       reaction_participants = [], reaction_stoichiometric_coeff = [],
       species_index = [], energy_variable = [] \<rparr>"

text \<open>\<^verbatim>\<open>v.resize(n, d)\<close>: cut to \<open>n\<close> elements, or filled up to \<open>n\<close> elements with \<open>d\<close>.\<close>

definition resize :: "nat \<Rightarrow> 'a \<Rightarrow> 'a list \<Rightarrow> 'a list" where
  "resize n d xs = take n xs @ replicate (n - length xs) d"

text \<open>
  \<^verbatim>\<open>v[i]\<close> on a \<^verbatim>\<open>std::vector\<close>, where the index may lie beyond the end: reading and
  writing there is undefined behaviour.
\<close>

definition rd :: "'a list \<Rightarrow> nat \<Rightarrow> error + 'a" where
  "rd xs i = (if i < length xs then Inr (xs ! i) else Inl UndefinedBehaviour)"

definition wr :: "'a list \<Rightarrow> nat \<Rightarrow> 'a \<Rightarrow> error + 'a list" where
  "wr xs i v = (if i < length xs then Inr (xs[i := v]) else Inl UndefinedBehaviour)"

subsection \<open>Reading the lines (lines 257 to 342)\<close>

text \<open>
  A line that starts with \<open>#\<close> is skipped; every other line pushes one element on each
  of the eight vectors. \<open>counter\<close> is the number of lines pushed so far, so
  \<^verbatim>\<open>_reaction[counter]\<close> is the element just pushed.
\<close>

definition read_line :: "string \<Rightarrow> 'r crb \<Rightarrow> error + 'r crb" where
  "read_line token s =
     (if find_char token CHR ''#'' = 0 then Inr s
      else then_do (parse_line token) (\<lambda>lf.
        Inr (s\<lparr> reaction := reaction s @ [lf_reaction lf],
                 rate_coefficient_string :=
                   rate_coefficient_string s @ [lf_rate_coefficient_string lf],
                 threshold_energy_string :=
                   threshold_energy_string s @ [lf_threshold_energy_string lf],
                 energy_change := energy_change s @ [lf_energy_change lf],
                 rate_equation_string :=
                   rate_equation_string s @ [lf_rate_equation_string lf],
                 rate_equation := rate_equation s @ [lf_rate_equation lf],
                 is_identified := is_identified s @ [lf_is_identified lf],
                 reaction_identifier :=
                   reaction_identifier s @ [lf_reaction_identifier lf] \<rparr>)))"

definition read_lines :: "string \<Rightarrow> 'r crb \<Rightarrow> error + 'r crb" where
  "read_lines input_reactions s = for_loop (getline_tokens CHR 0x0A input_reactions) read_line s"

subsection \<open>Threshold energies and rate types (lines 343 to 430)\<close>

definition invalid_rate_message :: "string \<Rightarrow> string" where
  "invalid_rate_message str =
     ''Rate coefficient '' @ [CHR 0x27] @ str @ [CHR 0x27] @
     '' is invalid! There are three rate coefficient types that are accepted:'' @
     [CHR 0x0A] @ ''  1. Constant (A + B -> C  : 10)'' @
     [CHR 0x0A] @ ''  2. Equation (A + B -> C  : {1e-4*exp(10)})'' @
     [CHR 0x0A] @ ''  3. EEDF     (A + B -> C  : EEDF)''"

text \<open>Lines 358 to 370. \<^verbatim>\<open>std::stod\<close> throws here, and nothing catches it.\<close>

definition set_threshold_energy :: "'r real_ops \<Rightarrow> nat \<Rightarrow> 'r crb \<Rightarrow> error + 'r crb" where
  "set_threshold_energy ops i s =
     (if threshold_energy_string s ! i = []
      then Inr (s\<lparr> threshold_energy := (threshold_energy s)[i := r_of_int ops 0] \<rparr>)
      else if threshold_energy_string s ! i = ''elastic''
      then Inr (s\<lparr> threshold_energy := (threshold_energy s)[i := r_of_int ops 0],
                    elastic_collision := (elastic_collision s)[i := True] \<rparr>)
      else (case r_stod ops (threshold_energy_string s ! i) of
              Stod_value v \<Rightarrow> Inr (s\<lparr> threshold_energy := (threshold_energy s)[i := v] \<rparr>)
            | Stod_invalid_argument \<Rightarrow> Inl (StdException ''invalid_argument'')
            | Stod_out_of_range \<Rightarrow> Inl (StdException ''out_of_range'')))"

text \<open>Lines 374 to 429.\<close>

definition set_rate_type :: "'r real_ops \<Rightarrow> nat \<Rightarrow> 'r crb \<Rightarrow> error + 'r crb" where
  "set_rate_type ops i s =
     (if rate_coefficient_string s ! i = ''EEDF''
      then Inr (s\<lparr> rate_coefficient := (rate_coefficient s)[i := r_nan ops],
                    rate_type := (rate_type s)[i := ''EEDF''],
                    eedf_reaction_number := eedf_reaction_number s @ [i],
                    num_eedf_reactions := num_eedf_reactions s + 1 \<rparr>)
      else if rate_equation s ! i
      then Inr (s\<lparr> rate_coefficient := (rate_coefficient s)[i := r_nan ops],
                    rate_type := (rate_type s)[i := ''Equation''] \<rparr>)
      else (case r_stod ops (rate_coefficient_string s ! i) of
              Stod_value v \<Rightarrow>
                Inr (s\<lparr> rate_coefficient := (rate_coefficient s)[i := v],
                         rate_type := (rate_type s)[i := ''Constant''] \<rparr>)
            | Stod_invalid_argument \<Rightarrow>
                Inl (MooseError (invalid_rate_message (rate_coefficient_string s ! i)))
            | Stod_out_of_range \<Rightarrow>
                Inl (MooseError (''Argument out of range for a double'' @ [CHR 0x0A]))))"

text \<open>
  Lines 343 to 430: the vectors are resized to the number of lines read, then the loop
  runs over them. Every index of the loop is below that number.
\<close>

definition classify_rates :: "'r real_ops \<Rightarrow> 'r crb \<Rightarrow> error + 'r crb" where
  "classify_rates ops s =
     (let n = length (reaction s);
          s1 = s\<lparr> num_reactions := n,
                  rate_coefficient := resize n (r_of_int ops 0) (rate_coefficient s),
                  threshold_energy := resize n (r_of_int ops 0) (threshold_energy s),
                  elastic_collision := resize n False (elastic_collision s),
                  rate_type := resize n [] (rate_type s),
                  num_eedf_reactions := 0 \<rparr>
      in for_loop [0..<n]
           (\<lambda>i s. then_do (set_threshold_energy ops i s) (set_rate_type ops i)) s1)"

subsection \<open>Reactants and products (lines 432 to 583)\<close>

text \<open>
  Lines 462 to 504: the terms of one equation. \<open>+\<close> is skipped, an arrow switches to
  the products, every other term is a participant.
\<close>

definition tokenize_term :: "nat \<Rightarrow> string \<Rightarrow> bool \<times> 'r crb \<Rightarrow> bool \<times> 'r crb" where
  "tokenize_term i token st =
     (let react_check = fst st; s = snd st
      in if token = ''+'' then (react_check, s)
         else if token = ''='' \<or> token = ''->'' \<or> token = ''=>''
         then (False, s\<lparr> reversible_reaction := (reversible_reaction s)[i := False] \<rparr>)
         else if token = ''<=>'' \<or> token = ''<->''
         then (False, s\<lparr> superelastic_reactions := superelastic_reactions s + 1,
                         reversible_reaction := (reversible_reaction s)[i := True] \<rparr>)
         else if react_check
         then (react_check, s\<lparr> all_participants := all_participants s @ [token],
                               reactants := (reactants s)[i := reactants s ! i @ [token]] \<rparr>)
         else (react_check, s\<lparr> all_participants := all_participants s @ [token],
                               products := (products s)[i := products s ! i @ [token]] \<rparr>))"

definition tokenize_terms :: "nat \<Rightarrow> string list \<Rightarrow> 'r crb \<Rightarrow> 'r crb" where
  "tokenize_terms i tokens s = snd (fold (tokenize_term i) tokens (True, s))"

text \<open>
  Lines 507 to 517. \<open>exp_factor\<close> is \<^verbatim>\<open>_reactants[i].size() - 1\<close>, computed in \<^verbatim>\<open>size_t\<close>
  and then converted: the size of a vector is below \<open>2^64\<close>, and the subtraction wraps
  around to \<open>npos\<close> for the empty vector. \<open>N_A\<close> is set at lines 213 to 216.
\<close>

definition N_A :: "'r real_ops \<Rightarrow> 'r params \<Rightarrow> 'r" where
  "N_A ops P = (if p_convert_to_moles P then r_avogadro ops else r_of_int ops 1)"

definition exp_factor :: "'r real_ops \<Rightarrow> nat \<Rightarrow> 'r" where
  "exp_factor ops size_of_reactants =
     r_of_size ops (if size_of_reactants = 0 then npos else size_of_reactants - 1)"

definition conversion_factor :: "'r real_ops \<Rightarrow> 'r params \<Rightarrow> nat \<Rightarrow> 'r" where
  "conversion_factor ops P size_of_reactants =
     r_mul ops (r_pow ops (N_A ops P) (exp_factor ops size_of_reactants))
       (r_pow ops (p_convert_to_meters P)
          (r_mul ops (r_of_int ops 3) (exp_factor ops size_of_reactants)))"

definition scale_rate :: "'r real_ops \<Rightarrow> 'r params \<Rightarrow> nat \<Rightarrow> 'r crb \<Rightarrow> 'r crb" where
  "scale_rate ops P i s =
     (if rate_type s ! i = ''Equation''
      then s\<lparr> rate_equation_string := (rate_equation_string s)
                 [i := rate_equation_string s ! i @ ''*'' @
                    r_stringify ops (conversion_factor ops P (length (reactants s ! i)))] \<rparr>
      else if rate_type s ! i = ''Constant''
      then s\<lparr> rate_coefficient := (rate_coefficient s)
                 [i := r_mul ops (rate_coefficient s ! i)
                    (conversion_factor ops P (length (reactants s ! i)))] \<rparr>
      else s)"

text \<open>Lines 529 to 553, the body of the loop over the reactants of reaction \<open>i\<close>.\<close>

definition flag_reactant :: "'r params \<Rightarrow> nat \<Rightarrow> nat \<Rightarrow> 'r crb \<Rightarrow> error + 'r crb" where
  "flag_reactant P i k s =
     (if p_lumped_species P \<and> reactants s ! i ! k = p_lumped_name P
      then Inr (s\<lparr> reaction_lumped := (reaction_lumped s)[i := True],
                    lumped_reaction := lumped_reaction s @ [i] \<rparr>)
      else if rate_type s ! i = ''EEDF'' \<and> p_use_bolsig P
      then (if \<not> p_electron_density_valid P
            then Inl (MooseError (''EEDF reaction selected, but electron_density is not set! '' @
                                  ''Please denote the electron species.''))
            else if reactants s ! i ! k \<noteq> p_electron_density P
            then Inr (s\<lparr> reaction_species := reaction_species s @ [reactants s ! i ! k] \<rparr>)
            else Inr s)
      else Inr s)"

text \<open>
  The block that counts the tracked species of one reaction. The source has it twice,
  at lines 559 to 582 for reaction \<open>i\<close> and at lines 736 to 759 for \<open>new_index\<close>; the row
  and the slot of \<open>electron_index\<close> it writes may lie beyond the end there.
\<close>

definition count_reactant :: "'r params \<Rightarrow> nat \<Rightarrow> nat \<Rightarrow> nat \<Rightarrow> 'r crb \<Rightarrow> error + 'r crb" where
  "count_reactant P idx j k s =
     then_do
       (if reactants s ! idx ! k = p_species P ! j
        then then_do (rd (species_count s) idx) (\<lambda>row.
             then_do (rd row j) (\<lambda>c.
             Inr (s\<lparr> species_count := (species_count s)[idx := row[j := c - 1]] \<rparr>)))
        else Inr s)
       (\<lambda>s. if p_include_electrons P \<and> reactants s ! idx ! k = p_electron_density P
            then then_do (wr (electron_index s) idx k) (\<lambda>v. Inr (s\<lparr> electron_index := v \<rparr>))
            else Inr s)"

definition count_product :: "'r params \<Rightarrow> nat \<Rightarrow> nat \<Rightarrow> nat \<Rightarrow> 'r crb \<Rightarrow> error + 'r crb" where
  "count_product P idx j k s =
     (if products s ! idx ! k = p_species P ! j
      then then_do (rd (species_count s) idx) (\<lambda>row.
           then_do (rd row j) (\<lambda>c.
           Inr (s\<lparr> species_count := (species_count s)[idx := row[j := c + 1]] \<rparr>)))
      else Inr s)"

definition calculate_coefficients :: "'r params \<Rightarrow> nat \<Rightarrow> 'r crb \<Rightarrow> error + 'r crb" where
  "calculate_coefficients P idx s =
     for_loop [0..<length (p_species P)]
       (\<lambda>j s. then_do (rd (reactants s) idx) (\<lambda>rs.
               then_do (for_loop [0..<length rs] (count_reactant P idx j) s) (\<lambda>s.
               then_do (rd (products s) idx) (\<lambda>ps.
               for_loop [0..<length ps] (count_product P idx j) s)))) s"

text \<open>Lines 456 to 582, the body of the loop over the reactions.\<close>

definition split_reaction :: "'r real_ops \<Rightarrow> 'r params \<Rightarrow> nat \<Rightarrow> 'r crb \<Rightarrow> error + 'r crb" where
  "split_reaction ops P i s =
     (let s1 = tokenize_terms i (getline_tokens CHR '' '' (reaction s ! i)) s;
          s2 = scale_rate ops P i s1;
          s3 = s2\<lparr> reaction_lumped := (reaction_lumped s2)[i := False] \<rparr>
      in then_do (for_loop [0..<length (reactants s3 ! i)] (flag_reactant P i) s3) (\<lambda>s4.
         calculate_coefficients P i
           (s4\<lparr> num_reactants := num_reactants s4 @ [length (reactants s4 ! i)],
                num_products := num_products s4 @ [length (products s4 ! i)],
                species_count := resize (num_reactions s4)
                                   (replicate (length (p_species P)) 0) (species_count s4) \<rparr>)))"

definition split_reactions :: "'r real_ops \<Rightarrow> 'r params \<Rightarrow> 'r crb \<Rightarrow> error + 'r crb" where
  "split_reactions ops P s =
     (let n = num_reactions s;
          s1 = s\<lparr> reactants := resize n [] (reactants s),
                  products := resize n [] (products s),
                  reversible_reaction := resize n False (reversible_reaction s),
                  electron_index := resize n 0 (electron_index s),
                  superelastic_reactions := 0,
                  reaction_lumped := resize n False (reaction_lumped s) \<rparr>
      in for_loop [0..<n] (split_reaction ops P) s1)"

subsection \<open>Lumped species (lines 593 to 650)\<close>

text \<open>
  Lines 622 to 647, the body of the inner loop: the reaction at \<open>lumped_index\<close> is a copy
  of reaction \<open>_lumped_reaction[i]\<close> with the name \<open>lumped_name\<close> replaced by
  \<open>_lumped_species[lumped_counter]\<close>. \<open>_lumped_species\<close> is the parameter \<open>lumped\<close>.
\<close>

definition lumped_copy :: "'r params \<Rightarrow> nat \<Rightarrow> nat \<Rightarrow> nat \<Rightarrow> 'r crb \<Rightarrow> 'r crb" where
  "lumped_copy P old_num i lumped_counter s =
     (let lumped_index = old_num + i * length (p_lumped P) + lumped_counter;
          t = lumped_reaction s ! i;
          s1 = s\<lparr> reaction := (reaction s)[lumped_index := reaction s ! t],
                  rate_coefficient := (rate_coefficient s)[lumped_index := rate_coefficient s ! t],
                  rate_type := (rate_type s)[lumped_index := rate_type s ! t],
                  rate_equation_string :=
                    (rate_equation_string s)[lumped_index := rate_equation_string s ! t],
                  superelastic_reaction :=
                    (superelastic_reaction s)[lumped_index := superelastic_reaction s ! t],
                  reversible_reaction :=
                    (reversible_reaction s)[lumped_index := reversible_reaction s ! t],
                  reaction_lumped := (reaction_lumped s)[lumped_index := False],
                  species_count := (species_count s)[lumped_index := species_count s ! t] \<rparr>;
          s2 = fold (\<lambda>k s. s\<lparr> reactants := (reactants s)
                       [lumped_index := reactants s ! lumped_index @
                          [if reactants s ! t ! k = p_lumped_name P
                           then p_lumped P ! lumped_counter else reactants s ! t ! k]] \<rparr>)
                 [0..<length (reactants s1 ! t)] s1
      in fold (\<lambda>k s. s\<lparr> products := (products s)
                   [lumped_index := products s ! lumped_index @
                      [if products s ! t ! k = p_lumped_name P
                       then p_lumped P ! lumped_counter else products s ! t ! k]] \<rparr>)
           [0..<length (products s2 ! t)] s2)"

text \<open>
  Lines 593 to 650. Every index written is below the new \<open>_num_reactions\<close>, to which the
  vectors have been resized.
\<close>

definition lumped_expansion :: "'r real_ops \<Rightarrow> 'r params \<Rightarrow> 'r crb \<Rightarrow> 'r crb" where
  "lumped_expansion ops P s =
     (if p_lumped_species P
      then
        (let old_num = num_reactions s;
             n = old_num + length (lumped_reaction s) * length (p_lumped P);
             s1 = s\<lparr> num_reactions := n,
                     reaction := resize n [] (reaction s),
                     reactants := resize n [] (reactants s),
                     products := resize n [] (products s),
                     rate_coefficient := resize n (r_of_int ops 0) (rate_coefficient s),
                     rate_type := resize n [] (rate_type s),
                     rate_equation_string := resize n [] (rate_equation_string s),
                     superelastic_reaction := resize n False (superelastic_reaction s),
                     reversible_reaction := resize n False (reversible_reaction s),
                     reaction_lumped := resize n False (reaction_lumped s),
                     species_count := resize n [] (species_count s) \<rparr>
         in fold (\<lambda>i s. fold (lumped_copy P old_num i) [0..<length (p_lumped P)] s)
              [0..<length (lumped_reaction s1)] s1)
      else s)"

subsection \<open>Superelastic reactions (lines 652 to 763)\<close>

text \<open>
  Lines 705 to 717 and 719 to 731: the products of reaction \<open>i\<close> become the reactants of
  the reaction at \<open>new_index\<close>, the reactants its products, and the text of the new
  equation is appended to the string \<open>new_reaction\<close>.
\<close>

definition append_product ::
  "nat \<Rightarrow> nat \<Rightarrow> nat \<Rightarrow> nat \<Rightarrow> 'r crb \<times> string \<Rightarrow> error + 'r crb \<times> string" where
  "append_product i new_index np j st =
     (let s = fst st; new_reaction = snd st
      in then_do (rd (products s) i) (\<lambda>ps.
         then_do (rd ps j) (\<lambda>p.
         then_do (rd (reactants s) new_index) (\<lambda>rs.
         Inr (s\<lparr> reactants := (reactants s)[new_index := rs @ [p]] \<rparr>,
              new_reaction @ p @ (if j = np - 1 then [] else '' + ''))))))"

definition append_reactant ::
  "nat \<Rightarrow> nat \<Rightarrow> nat \<Rightarrow> 'r crb \<times> string \<Rightarrow> error + 'r crb \<times> string" where
  "append_reactant i new_index j st =
     (let s = fst st; new_reaction = snd st
      in then_do (rd (reactants s) i) (\<lambda>rs.
         then_do (rd rs j) (\<lambda>r.
         then_do (rd (products s) new_index) (\<lambda>ps.
         Inr (s\<lparr> products := (products s)[new_index := ps @ [r]] \<rparr>,
              new_reaction @ r @ (if j = length rs - 1 then [] else '' + ''))))))"

text \<open>
  Lines 684 to 702: the fields of the new reaction at \<open>new_index\<close>, for the reversible
  reaction \<open>i\<close>.
\<close>

definition reverse_fields :: "'r real_ops \<Rightarrow> nat \<Rightarrow> nat \<Rightarrow> 'r crb \<Rightarrow> error + 'r crb" where
  "reverse_fields ops i new_index s =
     then_do (wr (superelastic_index s) new_index i) (\<lambda>v1.
     then_do (wr (superelastic_reaction s) new_index True) (\<lambda>v2.
     then_do (wr (rate_coefficient s) new_index (r_nan ops)) (\<lambda>v3.
     then_do (rd (threshold_energy s) i) (\<lambda>e.
     then_do (wr (threshold_energy s) new_index (r_neg ops e)) (\<lambda>v4.
     then_do (rd (rate_equation s) i) (\<lambda>q.
     then_do (wr (rate_equation s) new_index q) (\<lambda>v5.
     then_do (rd (energy_change s) i) (\<lambda>c.
     then_do (wr (energy_change s) new_index c) (\<lambda>v6.
     Inr (s\<lparr> superelastic_index := v1, superelastic_reaction := v2,
              rate_coefficient := v3, threshold_energy := v4,
              rate_equation := v5, energy_change := v6 \<rparr>))))))))))"

text \<open>
  Lines 676 to 732, the branch taken for a reversible reaction \<open>i\<close>. The loop state is
  the record, \<open>new_index\<close> and the string \<open>new_reaction\<close>, which is declared before the
  loop and never cleared.
\<close>

definition reverse_reaction ::
  "'r real_ops \<Rightarrow> nat \<Rightarrow> 'r crb \<times> nat \<times> string \<Rightarrow> error + 'r crb \<times> nat \<times> string" where
  "reverse_reaction ops i st =
     (let s = fst st; new_index = fst (snd st) + 1; new_reaction = snd (snd st)
      in then_do (reverse_fields ops i new_index s) (\<lambda>s1.
         then_do (rd (num_products s1) i) (\<lambda>np.
         then_do (for_loop [0..<np] (append_product i new_index np) (s1, new_reaction)) (\<lambda>st1.
         then_do (rd (reactants (fst st1)) i) (\<lambda>rs.
         then_do (for_loop [0..<length rs] (append_reactant i new_index)
                    (fst st1, snd st1 @ '' -> '')) (\<lambda>st2.
         Inr ((fst st2)\<lparr> reaction := reaction (fst st2) @ [snd st2] \<rparr>,
              new_index, snd st2)))))))"

text \<open>
  Lines 673 to 759, the body of the loop over the reactions. The block that calculates
  the coefficients (lines 736 to 759) stands after the \<^verbatim>\<open>if\<close>, so it runs for every
  \<open>i\<close>, on the current \<open>new_index\<close>.
\<close>

definition superelastic_body ::
  "'r real_ops \<Rightarrow> 'r params \<Rightarrow> nat \<Rightarrow> 'r crb \<times> nat \<times> string
     \<Rightarrow> error + 'r crb \<times> nat \<times> string" where
  "superelastic_body ops P i st =
     then_do (rd (reversible_reaction (fst st)) i) (\<lambda>rev.
     then_do (if rev then reverse_reaction ops i st else Inr st) (\<lambda>st1.
     then_do (calculate_coefficients P (fst (snd st1)) (fst st1)) (\<lambda>s2.
     Inr (s2, snd st1))))"

text \<open>
  Lines 652 to 763. \<open>new_index\<close> starts at \<^verbatim>\<open>_num_reactions - 1\<close>; the loop body runs only
  when \<^verbatim>\<open>_num_reactions\<close> is positive, so the truncated subtraction of \<open>nat\<close> is the
  source's value wherever it is used.
\<close>

definition superelastic_synthesis :: "'r real_ops \<Rightarrow> 'r params \<Rightarrow> 'r crb \<Rightarrow> error + 'r crb" where
  "superelastic_synthesis ops P s =
     (let n = num_reactions s;
          m = n + superelastic_reactions s;
          s1 = s\<lparr> superelastic_index := resize m 0 (superelastic_index s),
                  superelastic_reaction := resize m False (superelastic_reaction s),
                  rate_coefficient := resize m (r_of_int ops 0) (rate_coefficient s),
                  threshold_energy := resize m (r_of_int ops 0) (threshold_energy s),
                  rate_equation := resize m False (rate_equation s),
                  species_count :=
                    resize m (replicate (length (p_species P)) 0) (species_count s),
                  reactants :=
                    resize (length (reactants s) + superelastic_reactions s) [] (reactants s),
                  products :=
                    resize (length (products s) + superelastic_reactions s) [] (products s),
                  energy_change := resize m False (energy_change s) \<rparr>
      in then_do (if 0 < superelastic_reactions s
                  then for_loop [0..<n] (superelastic_body ops P) (s1, n - 1, [])
                  else Inr (s1, n - 1, [])) (\<lambda>st.
         Inr ((fst st)\<lparr> num_reactions := n + superelastic_reactions s \<rparr>)))"

subsection \<open>Stoichiometric coefficients (lines 764 to 880)\<close>

text \<open>
  The two inner loops at lines 783 to 797 and 847 to 861: \<open>d\<close> is added to the
  coefficient for every element of \<open>xs\<close> equal to \<open>name\<close>.
\<close>

definition tally :: "string list \<Rightarrow> string \<Rightarrow> int \<Rightarrow> int \<Rightarrow> int" where
  "tally xs name d c = fold (\<lambda>k c. if xs ! k = name then c + d else c) [0..<length xs] c"

text \<open>\<^verbatim>\<open>std::distance(v.begin(), std::find(v.begin(), v.end(), x))\<close>.\<close>

definition find_pos :: "'a list \<Rightarrow> 'a \<Rightarrow> nat" where
  "find_pos xs x = length (takeWhile (\<lambda>y. y \<noteq> x) xs)"

text \<open>Lines 777 to 799, the body of the loop over \<^verbatim>\<open>_reaction.size()\<close>.\<close>

definition participant_coefficients :: "nat \<Rightarrow> 'r crb \<Rightarrow> error + 'r crb" where
  "participant_coefficients i s =
     then_do (rd (reactants s) i) (\<lambda>rs.
     then_do (rd (products s) i) (\<lambda>ps.
     Inr (s\<lparr> stoichiometric_coeff := (stoichiometric_coeff s)
              [i := fold (\<lambda>j row. row[j := tally ps (all_participants s ! j) 1
                                              (tally rs (all_participants s ! j) (- 1) (row ! j))])
                      [0..<length (all_participants s)]
                      (resize (length (all_participants s)) 0 (stoichiometric_coeff s ! i))] \<rparr>)))"

text \<open>
  Lines 818 to 870, the body of the loop over the reactions: the tracked participants of
  reaction \<open>i\<close>, sorted and without duplicates, and a coefficient for each.
\<close>

definition reaction_coefficients :: "'r params \<Rightarrow> nat \<Rightarrow> 'r crb \<Rightarrow> error + 'r crb" where
  "reaction_coefficients P i s =
     then_do (rd (reactants s) i) (\<lambda>rs.
     then_do (rd (products s) i) (\<lambda>ps.
     (let species_temp = remdups_adj (sort (rs @ ps));
          participants =
            fold (\<lambda>j acc. if find_pos (p_species P) (species_temp ! j) \<noteq> length (p_species P)
                           then acc @ [species_temp ! j] else acc)
              [0..<length species_temp] (reaction_participants s ! i);
          coeff =
            fold (\<lambda>j row. row[j := tally ps (participants ! j) 1
                                     (tally rs (participants ! j) (- 1) (row ! j))])
              [0..<length participants]
              (resize (length participants) 0 (reaction_stoichiometric_coeff s ! i));
          s1 = s\<lparr> reaction_participants := (reaction_participants s)[i := participants],
                  reaction_stoichiometric_coeff :=
                    (reaction_stoichiometric_coeff s)[i := coeff] \<rparr>
      in then_do (rd (energy_change s1) i) (\<lambda>c.
         if c \<and> \<not> p_electron_energy_valid P \<and> \<not> p_gas_energy_valid P
         then Inl (MooseError (''Reactions have energy changes, but no electron or gas '' @
                               ''temperature variable is included!''))
         else Inr s1))))"

definition stoichiometry :: "'r params \<Rightarrow> 'r crb \<Rightarrow> error + 'r crb" where
  "stoichiometry P s =
     (let s1 = s\<lparr> all_participants := remdups_adj (sort (all_participants s)),
                  stoichiometric_coeff :=
                    resize (length (reaction s)) [] (stoichiometric_coeff s) \<rparr>
      in then_do (for_loop [0..<length (reaction s1)] participant_coefficients s1) (\<lambda>s2.
         (let s3 = s2\<lparr> reaction_participants :=
                         resize (num_reactions s2) [] (reaction_participants s2),
                       reaction_stoichiometric_coeff :=
                         resize (num_reactions s2) [] (reaction_stoichiometric_coeff s2),
                       species_index :=
                         map (find_pos (all_participants s2)) (p_species P) \<rparr>
          in then_do (for_loop [0..<num_reactions s3] (reaction_coefficients P) s3) (\<lambda>s4.
             then_do (if p_electron_energy_valid P
                      then then_do (rd (p_electron_energy P) 0) (\<lambda>v.
                             Inr (s4\<lparr> energy_variable := energy_variable s4 @ [v] \<rparr>))
                      else Inr s4) (\<lambda>s5.
             if p_gas_energy_valid P
             then then_do (rd (p_gas_energy P) 0) (\<lambda>v.
                    Inr (s5\<lparr> energy_variable := energy_variable s5 @ [v] \<rparr>))
             else Inr s5)))))"

subsection \<open>The balance check (lines 885 to 946)\<close>

text \<open>
  Lines 906 to 911 and 917 to 922: the species is looked up with \<^verbatim>\<open>std::find\<close> and its
  particle number added to the sum, unless it is the electron species. The index is the
  size of \<open>_species\<close> when the name is not in the list, and \<^verbatim>\<open>_species[index]\<close> is read
  all the same. \<open>r_sum\<close> and \<open>p_sum\<close> are of type \<^verbatim>\<open>Real\<close>; they hold sums of \<^verbatim>\<open>int\<close>
  values, which are exact, and are integers here.
\<close>

definition add_particles :: "'r params \<Rightarrow> string \<Rightarrow> int \<Rightarrow> error + int" where
  "add_particles P name r_sum =
     (let index = find_pos (p_species P) name
      in then_do (rd (p_species P) index) (\<lambda>sp.
         if sp = p_electron_density P then Inr r_sum
         else then_do (rd (p_num_particles P) index) (\<lambda>n. Inr (r_sum + n))))"

text \<open>Lines 902 to 931, the body of the loop over the reactions.\<close>

definition check_reaction ::
  "'r params \<Rightarrow> 'r crb \<Rightarrow> nat \<Rightarrow> string list \<times> bool \<Rightarrow> error + string list \<times> bool" where
  "check_reaction P s i st =
     then_do (rd (reactants s) i) (\<lambda>rs.
     then_do (for_loop [0..<length rs] (\<lambda>j. add_particles P (rs ! j)) 0) (\<lambda>r_sum.
     then_do (rd (products s) i) (\<lambda>ps.
     then_do (for_loop [0..<length ps] (\<lambda>j. add_particles P (ps ! j)) 0) (\<lambda>p_sum.
     if r_sum \<noteq> p_sum
     then then_do (rd (reaction s) i) (\<lambda>eqn. Inr (fst st @ [eqn], True))
     else Inr st))))"

definition unbalanced_message :: "string list \<Rightarrow> string" where
  "unbalanced_message faulty_reaction =
     ''The following equations are unbalanced:'' @ [CHR 0x0A] @
     fold (\<lambda>i error_str. error_str @ ''    '' @ faulty_reaction ! i @ [CHR 0x0A])
       [0..<length faulty_reaction] [] @
     ''Fix unbalanced reactions or particle conservation will not be enforced.''"

definition balance_check :: "'r params \<Rightarrow> 'r crb \<Rightarrow> error + unit" where
  "balance_check P s =
     (if p_balance_check P
      then then_do (for_loop [0..<num_reactions s] (check_reaction P s) ([], False)) (\<lambda>st.
             if snd st then Inl (MooseError (unbalanced_message (fst st))) else Inr ())
      else Inr ())"

subsection \<open>Species that are also auxiliary species (lines 950 to 962)\<close>

definition aux_species_of :: "'r params \<Rightarrow> string list" where
  "aux_species_of P = (if p_aux_species_valid P then p_aux_species P else [''none''])"

definition both_species_message :: "string \<Rightarrow> string" where
  "both_species_message name =
     ''Species '' @ name @ '' is included as both a species and aux_species!'' @ [CHR 0x0A] @
     ''A species can only be either a nonlinear variable or an auxiliary variable, not '' @
     ''both. Note that any species included as an aux_species will be treated as an '' @
     ''auxiliary variable and will not have any source or sink terms applied to it '' @
     ''(though it will be included as a reactant in the source/sink terms of other '' @
     ''nonlinear variables.)''"

definition aux_species_check :: "'r params \<Rightarrow> error + unit" where
  "aux_species_check P =
     for_loop [0..<length (p_species P)]
       (\<lambda>i. for_loop [0..<length (aux_species_of P)]
          (\<lambda>j u. if p_species P ! i = aux_species_of P ! j
                  then Inl (MooseError (both_species_message (p_species P ! i)))
                  else Inr u)) ()"

subsection \<open>Files of tabulated rates (lines 967 to 1002)\<close>

text \<open>
  \<open>file_exists\<close> opens the file for reading; the file system is a parameter, the
  predicate \<open>fs\<close> on paths. The loop runs over the indices below \<open>_num_eedf_reactions\<close>.
\<close>

definition missing_file_message :: "string \<Rightarrow> string" where
  "missing_file_message fileloc =
     ''File '' @ fileloc @ '' does not exist. '' @ [CHR 0x0A] @
     ''Make sure the rate coefficient file exists and is spelled correctly in the '' @
     ''directory denoted by file_location.'' @ [CHR 0x0A] @
     ''The program automatically checks for txt, csv, and dat files.'' @ [CHR 0x0A] @
     ''(Note that if no file_location parameter is added, the current directory is used.)''"

definition resolve_file ::
  "(string \<Rightarrow> bool) \<Rightarrow> 'r params \<Rightarrow> nat \<Rightarrow> 'r crb \<Rightarrow> error + 'r crb" where
  "resolve_file fs P i s =
     (if is_identified s ! i
      then
        (let fileloc = p_file_location P @ ''/'' @ reaction_identifier s ! i
         in if fs fileloc then Inr s
            else if fs (fileloc @ ''.txt'')
            then Inr (s\<lparr> reaction_identifier := (reaction_identifier s)
                            [i := reaction_identifier s ! i @ ''.txt''] \<rparr>)
            else if fs (fileloc @ ''.csv'')
            then Inr (s\<lparr> reaction_identifier := (reaction_identifier s)
                            [i := reaction_identifier s ! i @ ''.csv''] \<rparr>)
            else if fs (fileloc @ ''.dat'')
            then Inr (s\<lparr> reaction_identifier := (reaction_identifier s)
                            [i := reaction_identifier s ! i @ ''.dat''] \<rparr>)
            else Inl (MooseError (missing_file_message fileloc)))
      else Inr s)"

definition check_files :: "(string \<Rightarrow> bool) \<Rightarrow> 'r params \<Rightarrow> 'r crb \<Rightarrow> error + 'r crb" where
  "check_files fs P s = for_loop [0..<num_eedf_reactions s] (resolve_file fs P) s"

subsection \<open>The constructor (lines 181 to 1003)\<close>

text \<open>Lines 199 to 237, the checks of the parameters.\<close>

definition check_parameters :: "'r params \<Rightarrow> error + unit" where
  "check_parameters P =
     (if p_interpolation_type P \<noteq> ''spline'' \<and> p_interpolation_type P \<noteq> ''linear''
      then Inl (MooseError
             (''[Reactions] block: An interpolation_type of '' @ p_interpolation_type P @
              '' is invalid! Only '' @ [CHR 0x27] @ ''spline'' @ [CHR 0x27] @ '' or '' @
              [CHR 0x27] @ ''linear'' @ [CHR 0x27] @ '' interpolations are possible. '' @
              [CHR 0x27] @ ''spline'' @ [CHR 0x27] @ '' is used by default.''))
      else if p_lumped_species P \<and> \<not> p_lumped_valid P
      then Inl (MooseError
             (''The lumped_species parameter is set to true, but vector of neutrals '' @
              ''(lumped = '' @ [CHR 0x27] @ ''...'' @ [CHR 0x27] @ '') is not set.''))
      else if p_balance_check P \<and> \<not> p_num_particles_valid P
      then Inl (MooseError
             (''balance_check = true, but there is no num_particles parameter set! '' @
              ''Please indicate the number of atoms present in each species. For example, '' @
              ''molecular oxygen (O_2) has two particles. Ammonia (NH_3) has four '' @
              ''particles (1 N, 3 H).''))
      else if p_balance_check P \<and> length (p_num_particles P) \<noteq> length (p_species P)
      then Inl (MooseError
             (''The size of num_particles and species is not equal! Each species must '' @
              ''have a valid particle number in order to accurate check for particle '' @
              ''balances.''))
      else Inr ())"

text \<open>
  The constructor in four parts: the three loops that read the text (lines 238 to 583),
  the two expansions (lines 593 to 763), the coefficients (lines 764 to 880), and the
  checks that end it (lines 885 to 1002).
\<close>

definition parse_reactions :: "'r real_ops \<Rightarrow> 'r params \<Rightarrow> error + 'r crb" where
  "parse_reactions ops P =
     then_do (read_lines (p_reactions P) crb_init) (\<lambda>s.
     then_do (classify_rates ops s) (\<lambda>s.
     split_reactions ops P s))"

definition expand_reactions :: "'r real_ops \<Rightarrow> 'r params \<Rightarrow> 'r crb \<Rightarrow> error + 'r crb" where
  "expand_reactions ops P s = superelastic_synthesis ops P (lumped_expansion ops P s)"

definition build_network :: "'r real_ops \<Rightarrow> 'r params \<Rightarrow> error + 'r crb" where
  "build_network ops P =
     then_do (parse_reactions ops P) (\<lambda>s.
     then_do (expand_reactions ops P s) (\<lambda>s.
     stoichiometry P s))"

definition constructor ::
  "'r real_ops \<Rightarrow> (string \<Rightarrow> bool) \<Rightarrow> 'r params \<Rightarrow> error + 'r crb" where
  "constructor ops fs P =
     then_do (check_parameters P) (\<lambda>u.
     then_do (build_network ops P) (\<lambda>s.
     then_do (balance_check P s) (\<lambda>u.
     then_do (aux_species_check P) (\<lambda>u.
     check_files fs P s))))"

subsection \<open>An instance of the numbers, to run the constructor on examples\<close>

text \<open>
  Exact integers with a value for \<^verbatim>\<open>NAN\<close>. \<open>x_stod\<close> reads a string of decimal digits, as
  \<^verbatim>\<open>std::stod\<close> does; the examples give it no other string. \<open>x_stringify\<close> writes the
  decimal digits of an integer.
\<close>

datatype xreal = NaN | Val int

fun x_mul :: "xreal \<Rightarrow> xreal \<Rightarrow> xreal" where
  "x_mul (Val a) (Val b) = Val (a * b)"
| "x_mul _ _ = NaN"

fun x_pow :: "xreal \<Rightarrow> xreal \<Rightarrow> xreal" where
  "x_pow (Val a) (Val b) = (if 0 \<le> b then Val (a ^ nat b) else NaN)"
| "x_pow _ _ = NaN"

fun x_neg :: "xreal \<Rightarrow> xreal" where
  "x_neg (Val a) = Val (- a)"
| "x_neg NaN = NaN"

definition digit_value :: "char \<Rightarrow> int" where
  "digit_value c = int (of_char c) - 48"

definition is_digit :: "char \<Rightarrow> bool" where
  "is_digit c \<longleftrightarrow> c \<in> set ''0123456789''"

definition x_stod :: "string \<Rightarrow> xreal stod_result" where
  "x_stod str =
     (if str \<noteq> [] \<and> list_all is_digit str
      then Stod_value (Val (foldl (\<lambda>v c. 10 * v + digit_value c) 0 str))
      else Stod_invalid_argument)"

function decimal :: "nat \<Rightarrow> string" where
  "decimal n =
     (if n < 10 then [''0123456789'' ! n]
      else decimal (n div 10) @ [''0123456789'' ! (n mod 10)])"
  by pat_completeness auto
termination
  by (relation "measure (\<lambda>n. n)") auto

declare decimal.simps [simp del]

fun x_stringify :: "xreal \<Rightarrow> string" where
  "x_stringify NaN = ''nan''"
| "x_stringify (Val a) = (if a < 0 then ''-'' @ decimal (nat (- a)) else decimal (nat a))"

definition x_ops :: "xreal real_ops" where
  "x_ops = \<lparr> r_stod = x_stod, r_stringify = x_stringify, r_pow = x_pow, r_mul = x_mul,
             r_neg = x_neg, r_of_size = (\<lambda>n. Val (int n)), r_of_int = Val,
             r_nan = NaN, r_avogadro = Val 602200000000000000000000 \<rparr>"

definition default_params :: "xreal params" where
  "default_params =
     \<lparr> p_species = [], p_aux_species = [], p_aux_species_valid = False,
       p_electron_density = [], p_electron_density_valid = False,
       p_electron_energy = [], p_electron_energy_valid = False,
       p_gas_energy = [], p_gas_energy_valid = False,
       p_reactions = [], p_file_location = [], p_use_bolsig = False,
       p_include_electrons = False, p_lumped_species = False, p_lumped = [],
       p_lumped_valid = False, p_lumped_name = [], p_balance_check = False,
       p_num_particles = [], p_num_particles_valid = False,
       p_convert_to_moles = False, p_convert_to_meters = Val 1,
       p_interpolation_type = ''spline'' \<rparr>"

section \<open>Notions of the specification\<close>

text \<open>
  The text of a line strictly between the positions \<open>a\<close> and \<open>b\<close>, as the specification
  speaks of the text between the colon and a bracket.
\<close>

definition text_between :: "string \<Rightarrow> nat \<Rightarrow> nat \<Rightarrow> string" where
  "text_between token a b = take (b - a - 1) (drop (a + 1) token)"




text \<open>The lines of the reaction text that hold a reaction: those that do not start with \<open>#\<close>.\<close>

definition reaction_lines :: "string \<Rightarrow> string list" where
  "reaction_lines input_reactions =
     filter (\<lambda>token. find_char token CHR ''#'' \<noteq> 0) (getline_tokens CHR 0x0A input_reactions)"

text \<open>
  The conversion factor of a reaction with \<open>r\<close> reactants, as the specification writes
  it: \<open>N_A^(r-1) * positionUnitFactor^(3*(r-1))\<close>.
\<close>

definition unit_factor :: "'r real_ops \<Rightarrow> 'r params \<Rightarrow> nat \<Rightarrow> 'r" where
  "unit_factor ops P r =
     r_mul ops
       (r_pow ops (if p_convert_to_moles P then r_avogadro ops else r_of_int ops 1)
          (r_of_size ops (r - 1)))
       (r_pow ops (p_convert_to_meters P) (r_mul ops (r_of_int ops 3) (r_of_size ops (r - 1))))"

text \<open>
  The net stoichiometric coefficient of a species in a reaction: the number of times it is a
  product minus the number of times it is a reactant.
\<close>

definition net_coefficient :: "string list \<Rightarrow> string list \<Rightarrow> string \<Rightarrow> int" where
  "net_coefficient rs ps name = int (count_list ps name) - int (count_list rs name)"

text \<open>
  The participants of a reaction that the specification keeps: each distinct species of the
  reaction, in sorted order, that is one of the tracked species.
\<close>

definition tracked_of :: "'r params \<Rightarrow> string list \<Rightarrow> string list \<Rightarrow> string list" where
  "tracked_of P rs ps = filter (\<lambda>x. x \<in> set (p_species P)) (remdups_adj (sort (rs @ ps)))"

text \<open>
  The line of the reaction text a reaction comes from: its own line for a reaction read
  from the text, the line of its template for a copy made for a lumped species. The
  copies of the template \<open>_lumped_reaction[a]\<close> stand in one block of \<open>lumped\<close> reactions,
  the blocks after the reactions read from the text.
\<close>

definition source_line :: "'r params \<Rightarrow> 'r crb \<Rightarrow> nat \<Rightarrow> nat" where
  "source_line P s i =
     (if i < length (reaction_lines (p_reactions P)) then i
      else lumped_reaction s !
             ((i - length (reaction_lines (p_reactions P))) div length (p_lumped P)))"

section \<open>Notions of the proofs\<close>

text \<open>
  What a stage leaves alone is stated with a copy of the record in which the fields the
  stage writes are reset: two records that agree on the copy agree on every other field.
\<close>

definition lines_read :: "line_fields list \<Rightarrow> 'r crb \<Rightarrow> bool" where
  "lines_read lfs s \<longleftrightarrow>
     reaction s = map lf_reaction lfs \<and>
     rate_coefficient_string s = map lf_rate_coefficient_string lfs \<and>
     threshold_energy_string s = map lf_threshold_energy_string lfs \<and>
     energy_change s = map lf_energy_change lfs \<and>
     rate_equation_string s = map lf_rate_equation_string lfs \<and>
     rate_equation s = map lf_rate_equation lfs \<and>
     is_identified s = map lf_is_identified lfs \<and>
     reaction_identifier s = map lf_reaction_identifier lfs"

definition without_lines :: "'r crb \<Rightarrow> 'r crb" where
  "without_lines s =
     s\<lparr> reaction := [], rate_coefficient_string := [], threshold_energy_string := [],
        energy_change := [], rate_equation_string := [], rate_equation := [],
        is_identified := [], reaction_identifier := [] \<rparr>"

definition without_rates :: "'r crb \<Rightarrow> 'r crb" where
  "without_rates s =
     s\<lparr> num_reactions := 0, rate_coefficient := [], threshold_energy := [],
        elastic_collision := [], rate_type := [], num_eedf_reactions := 0,
        eedf_reaction_number := [] \<rparr>"

definition classified_at :: "'r real_ops \<Rightarrow> 'r crb \<Rightarrow> nat \<Rightarrow> bool" where
  "classified_at ops s i \<longleftrightarrow>
     (if rate_coefficient_string s ! i = ''EEDF'' then rate_type s ! i = ''EEDF''
      else if rate_equation s ! i then rate_type s ! i = ''Equation''
      else rate_type s ! i = ''Constant'' \<and>
           r_stod ops (rate_coefficient_string s ! i) = Stod_value (rate_coefficient s ! i))"

definition rates_sized :: "nat \<Rightarrow> 'r crb \<Rightarrow> bool" where
  "rates_sized n s \<longleftrightarrow>
     num_reactions s = n \<and> length (rate_coefficient s) = n \<and>
     length (threshold_energy s) = n \<and> length (rate_type s) = n \<and>
     length (elastic_collision s) = n"

definition without_split :: "'r crb \<Rightarrow> 'r crb" where
  "without_split s =
     s\<lparr> reactants := [], products := [], reversible_reaction := [], electron_index := [],
        superelastic_reactions := 0, reaction_lumped := [], lumped_reaction := [],
        all_participants := [], reaction_species := [], num_reactants := [],
        num_products := [], species_count := [], rate_equation_string := [],
        rate_coefficient := [] \<rparr>"

definition unchanged_except :: "nat \<Rightarrow> 'a list \<Rightarrow> 'a list \<Rightarrow> bool" where
  "unchanged_except i xs ys \<longleftrightarrow> length ys = length xs \<and> (\<forall>j. j \<noteq> i \<longrightarrow> ys ! j = xs ! j)"

definition split_core ::
  "'r crb \<Rightarrow> 'r crb \<times> 'r list \<times> string list \<times> string list list \<times> string list list" where
  "split_core s =
     (without_split s, rate_coefficient s, rate_equation_string s, reactants s, products s)"

definition scaled_coefficient :: "'r real_ops \<Rightarrow> 'r params \<Rightarrow> 'r crb \<Rightarrow> 'r crb \<Rightarrow> nat \<Rightarrow> 'r" where
  "scaled_coefficient ops P s s' i =
     (if rate_type s ! i = ''Constant''
      then r_mul ops (rate_coefficient s ! i)
             (conversion_factor ops P (length (reactants s' ! i)))
      else rate_coefficient s ! i)"

definition scaled_expression ::
  "'r real_ops \<Rightarrow> 'r params \<Rightarrow> 'r crb \<Rightarrow> 'r crb \<Rightarrow> nat \<Rightarrow> string" where
  "scaled_expression ops P s s' i =
     (if rate_type s ! i = ''Equation''
      then rate_equation_string s ! i @ ''*'' @
             r_stringify ops (conversion_factor ops P (length (reactants s' ! i)))
      else rate_equation_string s ! i)"

definition rates_scaled :: "'r real_ops \<Rightarrow> 'r params \<Rightarrow> 'r crb \<Rightarrow> 'r crb \<Rightarrow> nat \<Rightarrow> bool" where
  "rates_scaled ops P s s' i \<longleftrightarrow>
     rate_coefficient s' ! i = scaled_coefficient ops P s s' i \<and>
     rate_equation_string s' ! i = scaled_expression ops P s s' i"

definition without_counts :: "'r crb \<Rightarrow> 'r crb" where
  "without_counts s = s\<lparr> species_count := [], electron_index := [] \<rparr>"

definition without_lumped :: "'r crb \<Rightarrow> 'r crb" where
  "without_lumped s =
     s\<lparr> num_reactions := 0, reaction := [], reactants := [], products := [],
        rate_coefficient := [], rate_type := [], rate_equation_string := [],
        superelastic_reaction := [], reversible_reaction := [], reaction_lumped := [],
        species_count := [] \<rparr>"

definition without_superelastic :: "'r crb \<Rightarrow> 'r crb" where
  "without_superelastic s =
     s\<lparr> superelastic_index := [], superelastic_reaction := [], rate_coefficient := [],
        threshold_energy := [], rate_equation := [], species_count := [], reactants := [],
        products := [], energy_change := [], reaction := [], electron_index := [],
        num_reactions := 0 \<rparr>"

definition without_stoichiometry :: "'r crb \<Rightarrow> 'r crb" where
  "without_stoichiometry s =
     s\<lparr> all_participants := [], stoichiometric_coeff := [], reaction_participants := [],
        reaction_stoichiometric_coeff := [], species_index := [], energy_variable := [] \<rparr>"

definition without_identifier :: "'r crb \<Rightarrow> 'r crb" where
  "without_identifier s = s\<lparr> reaction_identifier := [] \<rparr>"

definition energies_below :: "nat \<Rightarrow> 'r crb \<Rightarrow> 'r list \<times> bool list" where
  "energies_below n s = (take n (threshold_energy s), take n (energy_change s))"

text \<open>
  What the vectors hold for one reaction: its rate coefficient, rate type and rate
  expression, its reactants and products, and the text of its equation.
\<close>

definition slot :: "'r crb \<Rightarrow> nat \<Rightarrow> 'r \<times> string \<times> string \<times> string list \<times> string list \<times> string" where
  "slot s j =
     (rate_coefficient s ! j, rate_type s ! j, rate_equation_string s ! j, reactants s ! j,
      products s ! j, reaction s ! j)"

definition slots_sized :: "nat \<Rightarrow> 'r crb \<Rightarrow> bool" where
  "slots_sized n s \<longleftrightarrow>
     length (rate_coefficient s) = n \<and> length (rate_type s) = n \<and>
     length (rate_equation_string s) = n \<and> length (reactants s) = n \<and>
     length (products s) = n \<and> length (reaction s) = n"

text \<open>
  The copy of a reaction for the lumped species number \<open>c\<close>: the placeholder is replaced
  in the reactants and the products, everything else is the template's.
\<close>

definition lumped_replace :: "'r params \<Rightarrow> nat \<Rightarrow> string \<Rightarrow> string" where
  "lumped_replace P c name = (if name = p_lumped_name P then p_lumped P ! c else name)"

definition lumped_slot ::
  "'r params \<Rightarrow> nat \<Rightarrow> 'r \<times> string \<times> string \<times> string list \<times> string list \<times> string
     \<Rightarrow> 'r \<times> string \<times> string \<times> string list \<times> string list \<times> string" where
  "lumped_slot P c x =
     (case x of (rc, ty, es, rs, ps, r) \<Rightarrow>
        (rc, ty, es, map (lumped_replace P c) rs, map (lumped_replace P c) ps, r))"

text \<open>
  The invariants of the two expansion loops. After \<open>k\<close> copies the reactions read from
  the text are as they were, the first \<open>k\<close> slots after them hold the copies, and the
  slots that follow are empty. In the loop that adds the reverse reactions the slots
  below \<open>n\<close> are as they were, \<^verbatim>\<open>_reaction\<close> ends at \<open>new_index\<close>, and the slots after
  \<open>new_index\<close> are empty.
\<close>

definition lumped_progress :: "'r params \<Rightarrow> 'r crb \<Rightarrow> nat \<Rightarrow> nat \<Rightarrow> nat \<Rightarrow> 'r crb \<Rightarrow> bool" where
  "lumped_progress P s n0 n k t \<longleftrightarrow>
     slots_sized n t \<and> lumped_reaction t = lumped_reaction s \<and>
     (\<forall>j<n0. slot t j = slot s j) \<and>
     (\<forall>j. n0 + k \<le> j \<and> j < n \<longrightarrow> reactants t ! j = [] \<and> products t ! j = []) \<and>
     (\<forall>a c. c < length (p_lumped P) \<and> a * length (p_lumped P) + c < k \<longrightarrow>
        slot t (n0 + a * length (p_lumped P) + c) =
          lumped_slot P c (slot s (lumped_reaction s ! a)))"

definition superelastic_progress ::
  "'r crb \<Rightarrow> nat \<Rightarrow> nat \<Rightarrow> 'r crb \<times> nat \<times> string \<Rightarrow> bool" where
  "superelastic_progress s0 n m st \<longleftrightarrow>
     length (reactants (fst st)) = m \<and> length (products (fst st)) = m \<and>
     length (reaction (fst st)) = fst (snd st) + 1 \<and> n \<le> fst (snd st) + 1 \<and>
     (\<forall>j<n. slot (fst st) j = slot s0 j) \<and>
     (\<forall>j. fst (snd st) < j \<and> j < m \<longrightarrow>
        reactants (fst st) ! j = [] \<and> products (fst st) ! j = [])"

section \<open>General lemmas\<close>

lemma for_loop_cong:
  "(\<And>x s. x \<in> set xs \<Longrightarrow> f x s = g x s) \<Longrightarrow> for_loop xs f s = for_loop xs g s"
  by (induction xs arbitrary: s) (simp_all split: sum.splits)



lemma then_do_Inr: "then_do r f = Inr y \<longleftrightarrow> (\<exists>x. r = Inr x \<and> f x = Inr y)"
  by (cases r) (simp_all add: then_do_def)

lemma then_do_simps [simp]: "then_do (Inl e) f = Inl e" "then_do (Inr x) f = f x"
  by (simp_all add: then_do_def)

lemma for_loop_append:
  "for_loop (xs @ ys) body s = then_do (for_loop xs body s) (for_loop ys body)"
  by (induction xs arbitrary: s) (simp_all split: sum.splits)

lemma for_loop_preserves:
  assumes "\<And>x s s'. body x s = Inr s' \<Longrightarrow> f s' = f s"
    and "for_loop xs body s = Inr s'"
  shows "f s' = f s"
  using assms(2)
proof (induction xs arbitrary: s)
  case Nil
  then show ?case by simp
next
  case (Cons x xs)
  then obtain s1 where b: "body x s = Inr s1" and r: "for_loop xs body s1 = Inr s'"
    by (auto split: sum.splits)
  from Cons.IH [OF r] assms(1) [OF b] show ?case by simp
qed

lemma find_from_eq:
  "find_from c s i = (if c \<in> set s then i + length (takeWhile (\<lambda>x. x \<noteq> c) s) else npos)"
  by (induction s arbitrary: i) auto

lemma find_char_eq:
  "find_char token c =
     (if c \<in> set token then length (takeWhile (\<lambda>x. x \<noteq> c) token) else npos)"
  by (simp add: find_char_def find_from_eq)

lemma length_takeWhile_neq_less:
  "c \<in> set s \<Longrightarrow> length (takeWhile (\<lambda>x. x \<noteq> c) s) < length s"
  by (induction s) auto

lemma find_char_less:
  "c \<in> set token \<Longrightarrow> find_char token c < length token"
  by (simp add: find_char_eq length_takeWhile_neq_less)

lemma find_char_cases:
  "find_char token c = npos \<or> find_char token c < length token"
  by (simp add: find_char_eq length_takeWhile_neq_less)

lemma sz_add_small: "a + b \<le> npos \<Longrightarrow> sz_add a b = a + b"
  by (simp add: sz_add_def npos_def)

lemma sz_sub_ge: "b \<le> a \<Longrightarrow> a \<le> npos \<Longrightarrow> sz_sub a b = a - b"
proof -
  assume le: "b \<le> a" and a: "a \<le> npos"
  have e: "a + 18446744073709551616 - b = (a - b) + 18446744073709551616"
    using le by arith
  have lt: "a - b < 18446744073709551616" using a unfolding npos_def by arith
  have "sz_sub a b = ((a - b) + 18446744073709551616) mod 18446744073709551616"
    unfolding sz_sub_def e ..
  also have "\<dots> = (a - b) mod 18446744073709551616" by (rule mod_add_self2)
  also have "\<dots> = a - b" using lt by (rule mod_less)
  finally show ?thesis .
qed

lemma sz_sub_lt: "a < b \<Longrightarrow> b \<le> npos \<Longrightarrow> sz_sub a b = a + 18446744073709551616 - b"
  by (simp add: sz_sub_def npos_def)

lemma substr_ok: "pos \<le> length token \<Longrightarrow> substr token pos n = Inr (take n (drop pos token))"
  by (simp add: substr_def)

lemma sz_add_find_le:
  assumes "length token < npos"
  shows "sz_add (find_char token c) 1 \<le> length token"
proof (cases "c \<in> set token")
  case True
  then have "find_char token c < length token" by (rule find_char_less)
  then show ?thesis using assms by (simp add: sz_add_small)
next
  case False
  then have "find_char token c = npos" by (simp add: find_char_eq)
  then show ?thesis by (simp add: sz_add_def npos_def)
qed

section \<open>The fields of a line\<close>

lemma raw_field:
  assumes len: "length token < npos" and colon: "CHR '':'' \<in> set token"
    and d: "d = npos \<or> d < length token"
  shows "substr token (sz_add (find_char token CHR '':'') 1)
           (sz_sub d (sz_add (find_char token CHR '':'') 1)) =
         Inr (if find_char token CHR '':'' < d
              then text_between token (find_char token CHR '':'') d
              else drop (find_char token CHR '':'' + 1) token)"
proof -
  define p where "p = find_char token CHR '':''"
  have p: "p < length token" unfolding p_def using colon by (rule find_char_less)
  have add: "sz_add p 1 = p + 1" using p len by (simp add: sz_add_small)
  have dn: "d \<le> npos" using d len by auto
  have sub: "substr token (p + 1) n = Inr (take n (drop (p + 1) token))" for n
    using p by (simp add: substr_def)
  have "substr token (p + 1) (sz_sub d (p + 1)) =
          Inr (if p < d then text_between token p d else drop (p + 1) token)"
  proof (cases "p < d")
    case True
    then have "sz_sub d (p + 1) = d - p - 1" using dn by (simp add: sz_sub_ge)
    then show ?thesis using True by (simp only: sub text_between_def if_True)
  next
    case False
    then have lt: "d < p + 1" by arith
    have "sz_sub d (p + 1) = d + 18446744073709551616 - (p + 1)"
      using lt p len by (simp add: sz_sub_lt)
    moreover have "length (drop (p + 1) token) \<le> d + 18446744073709551616 - (p + 1)"
      using p len unfolding npos_def length_drop by arith
    ultimately have "take (sz_sub d (p + 1)) (drop (p + 1) token) = drop (p + 1) token"
      by (simp only: take_all)
    then show ?thesis using False by (simp only: sub if_False)
  qed
  then show ?thesis unfolding p_def [symmetric] add .
qed

text \<open>
  No call of \<open>substr\<close> in the loop over the lines throws: a position that was found is
  inside the line, and \<open>npos + 1\<close> wraps around to \<open>0\<close>.
\<close>

lemma substr_after_find:
  assumes "length token < npos"
  shows "substr token (sz_add (find_char token c) (Suc 0)) n =
           Inr (take n (drop (sz_add (find_char token c) (Suc 0)) token))"
  using sz_add_find_le [OF assms, of c] by (simp add: substr_def)

lemma rate_coefficient_raw_ok:
  assumes "length token < npos"
  shows "rate_coefficient_raw token =
           Inr (take (sz_sub (if find_char token CHR ''('' < find_char token CHR ''[''
                              then find_char token CHR ''('' else find_char token CHR ''['')
                        (sz_add (find_char token CHR '':'') 1))
                  (drop (sz_add (find_char token CHR '':'') 1) token))"
  by (simp add: rate_coefficient_raw_def Let_def substr_after_find [OF assms])

lemma parse_line_ok:
  assumes "length token < npos"
  shows "parse_line token =
           Inr \<lparr> lf_reaction = trim (take (find_char token CHR '':'') token),
                 lf_rate_coefficient_string =
                   trim (take (sz_sub (if find_char token CHR ''('' < find_char token CHR ''[''
                                       then find_char token CHR ''(''
                                       else find_char token CHR ''['')
                                 (sz_add (find_char token CHR '':'') 1))
                           (drop (sz_add (find_char token CHR '':'') 1) token)),
                 lf_threshold_energy_string =
                   (if find_char token CHR ''['' \<noteq> npos
                    then take (sz_sub (sz_sub (find_char token CHR '']'')
                                         (find_char token CHR ''['')) 1)
                           (drop (sz_add (find_char token CHR ''['') 1) token)
                    else []),
                 lf_energy_change = (find_char token CHR ''['' \<noteq> npos),
                 lf_rate_equation_string =
                   (if find_char token CHR ''{'' \<noteq> npos
                    then take (sz_sub (sz_sub (find_char token CHR ''}'')
                                         (find_char token CHR ''{'')) 1)
                           (drop (sz_add (find_char token CHR ''{'') 1) token)
                    else ''NONE''),
                 lf_rate_equation = (find_char token CHR ''{'' \<noteq> npos),
                 lf_is_identified =
                   (find_char token CHR ''('' \<noteq> npos \<and> find_char token CHR ''{'' = npos),
                 lf_reaction_identifier =
                   (if find_char token CHR ''('' \<noteq> npos \<and> find_char token CHR ''{'' = npos
                    then take (sz_sub (sz_sub (find_char token CHR '')'')
                                         (find_char token CHR ''('')) 1)
                           (drop (sz_add (find_char token CHR ''('') 1) token)
                    else ''NONE'') \<rparr>"
  by (simp add: parse_line_def Let_def rate_coefficient_raw_ok [OF assms]
        substr_after_find [OF assms] substr_def [of token 0])

text \<open>
  The field on every line with a colon: when the deciding bracket stands before the
  colon, the subtraction of line 294 or 296 wraps around and the field is the whole rest
  of the line.
\<close>

lemma rate_coefficient_raw_cases:
  assumes "length token < npos" and "CHR '':'' \<in> set token"
  shows "rate_coefficient_raw token =
           Inr (if find_char token CHR ''('' < find_char token CHR ''[''
                then (if find_char token CHR '':'' < find_char token CHR ''(''
                      then text_between token (find_char token CHR '':'') (find_char token CHR ''('')
                      else drop (find_char token CHR '':'' + 1) token)
                else (if find_char token CHR '':'' < find_char token CHR ''[''
                      then text_between token (find_char token CHR '':'') (find_char token CHR ''['')
                      else drop (find_char token CHR '':'' + 1) token))"
  using raw_field [OF assms find_char_cases [of token "CHR ''(''"]]
    raw_field [OF assms find_char_cases [of token "CHR ''[''"]]
  by (simp add: rate_coefficient_raw_def Let_def)

lemma text_between_npos:
  "length token < npos \<Longrightarrow> text_between token a npos = drop (a + 1) token"
  by (simp add: text_between_def npos_def)

text \<open>
  Claim C8, as amended. On a line that holds a colon, the field pushed on
  \<open>rate_coefficient_string\<close> is decided by the first \<open>(\<close> when it stands before the first
  \<open>[\<close> (a missing bracket counts as the position \<open>npos\<close>, after every character), and by
  the first \<open>[\<close> otherwise. When the deciding bracket stands after the colon or is
  missing, the field is the text between the colon and that bracket; with no \<open>[\<close> and no
  \<open>(\<close> it is the text up to the end of the line. The field kept for the reaction is
  this text, trimmed.
\<close>

theorem C8_rate_coefficient_field:
  assumes "length token < npos" and "CHR '':'' \<in> set token"
    and "find_char token CHR '':'' <
           (if find_char token CHR ''('' < find_char token CHR ''[''
            then find_char token CHR ''('' else find_char token CHR ''['')"
  shows "rate_coefficient_raw token =
           Inr (if find_char token CHR ''('' < find_char token CHR ''[''
                then text_between token (find_char token CHR '':'') (find_char token CHR ''('')
                else text_between token (find_char token CHR '':'') (find_char token CHR ''['')) \<and>
         (find_char token CHR ''['' = npos \<longrightarrow>
            text_between token (find_char token CHR '':'') (find_char token CHR ''['') =
              drop (find_char token CHR '':'' + 1) token) \<and>
         (\<exists>lf rate. parse_line token = Inr lf \<and> rate_coefficient_raw token = Inr rate \<and>
            lf_rate_coefficient_string lf = trim rate)"
proof (intro conjI)
  show "rate_coefficient_raw token =
           Inr (if find_char token CHR ''('' < find_char token CHR ''[''
                then text_between token (find_char token CHR '':'') (find_char token CHR ''('')
                else text_between token (find_char token CHR '':'') (find_char token CHR ''['')) "
    using rate_coefficient_raw_cases [OF assms(1,2)] assms(3) by (simp split: if_splits)
  show "find_char token CHR ''['' = npos \<longrightarrow>
            text_between token (find_char token CHR '':'') (find_char token CHR ''['') =
              drop (find_char token CHR '':'' + 1) token"
    using text_between_npos [OF assms(1)] by simp
  show "\<exists>lf rate. parse_line token = Inr lf \<and> rate_coefficient_raw token = Inr rate \<and>
            lf_rate_coefficient_string lf = trim rate"
    by (simp add: parse_line_ok [OF assms(1)] rate_coefficient_raw_ok [OF assms(1)])
qed

text \<open>
  Witness of C8: a line with an identifier and a bracket after the colon; the field is
  the text between the colon and the \<open>(\<close>.
\<close>

theorem C8_rate_coefficient_field_witness:
  "length ''e + Ar -> e + Ar* : EEDF (excite) [-11.5]'' < npos \<and>
   CHR '':'' \<in> set ''e + Ar -> e + Ar* : EEDF (excite) [-11.5]'' \<and>
   find_char ''e + Ar -> e + Ar* : EEDF (excite) [-11.5]'' CHR '':'' <
     find_char ''e + Ar -> e + Ar* : EEDF (excite) [-11.5]'' CHR ''('' \<and>
   find_char ''e + Ar -> e + Ar* : EEDF (excite) [-11.5]'' CHR ''('' <
     find_char ''e + Ar -> e + Ar* : EEDF (excite) [-11.5]'' CHR ''['' \<and>
   rate_coefficient_raw ''e + Ar -> e + Ar* : EEDF (excite) [-11.5]'' = Inr '' EEDF ''"
  using C8_rate_coefficient_field [of "''e + Ar -> e + Ar* : EEDF (excite) [-11.5]''"]
  by (simp add: find_char_def npos_def text_between_def)

text \<open>
  Counterexample to C8 as stated. On the line \<^verbatim>\<open>A(s) -> B : 1 [2]\<close> a \<open>(\<close> stands before
  the \<open>[\<close>, but also before the colon: the field is \<^verbatim>\<open> 1 [2]\<close>, which is neither the
  (empty) text from the colon forward to the \<open>(\<close> nor the text that lies between the two
  characters.
\<close>

theorem C8_parenthesis_before_colon_counterexample:
  "CHR '':'' \<in> set ''A(s) -> B : 1 [2]'' \<and>
   find_char ''A(s) -> B : 1 [2]'' CHR ''('' < find_char ''A(s) -> B : 1 [2]'' CHR ''['' \<and>
   rate_coefficient_raw ''A(s) -> B : 1 [2]'' = Inr '' 1 [2]'' \<and>
   rate_coefficient_raw ''A(s) -> B : 1 [2]'' \<noteq>
     Inr (text_between ''A(s) -> B : 1 [2]'' (find_char ''A(s) -> B : 1 [2]'' CHR '':'')
            (find_char ''A(s) -> B : 1 [2]'' CHR ''('')) \<and>
   rate_coefficient_raw ''A(s) -> B : 1 [2]'' \<noteq>
     Inr (text_between ''A(s) -> B : 1 [2]'' (find_char ''A(s) -> B : 1 [2]'' CHR ''('')
            (find_char ''A(s) -> B : 1 [2]'' CHR '':''))"
  by (simp add: rate_coefficient_raw_def substr_def find_char_def npos_def sz_add_def sz_sub_def
        text_between_def)

section \<open>Running the constructor\<close>

text \<open>The definitions the simplifier unfolds to run the constructor on an example.\<close>

lemmas model_defs = constructor_def build_network_def parse_reactions_def expand_reactions_def
  check_parameters_def read_lines_def read_line_def parse_line_def
  rate_coefficient_raw_def substr_def find_char_def npos_def sz_add_def sz_sub_def trim_def is_space_def
  classify_rates_def set_threshold_energy_def set_rate_type_def resize_def
  split_reactions_def split_reaction_def tokenize_terms_def tokenize_term_def scale_rate_def
  conversion_factor_def exp_factor_def N_A_def flag_reactant_def calculate_coefficients_def
  count_reactant_def count_product_def rd_def wr_def lumped_expansion_def lumped_copy_def
  superelastic_synthesis_def superelastic_body_def reverse_reaction_def reverse_fields_def
  append_product_def
  append_reactant_def stoichiometry_def participant_coefficients_def reaction_coefficients_def
  tally_def find_pos_def balance_check_def check_reaction_def add_particles_def unbalanced_message_def
  aux_species_check_def aux_species_of_def both_species_message_def check_files_def resolve_file_def
  x_ops_def x_stod_def is_digit_def digit_value_def default_params_def crb_init_def
  getline_tokens.simps Let_def

section \<open>The balance check\<close>

text \<open>
  A name that is not in \<open>species\<close> makes the lookup read \<^verbatim>\<open>_species[index]\<close> at the size of
  the vector: no error message exists for it.
\<close>

lemma find_pos_absent: "x \<notin> set xs \<Longrightarrow> find_pos xs x = length xs"
  by (induction xs) (auto simp: find_pos_def)

lemma add_particles_absent:
  "name \<notin> set (p_species P) \<Longrightarrow> add_particles P name r_sum = Inl UndefinedBehaviour"
  by (simp add: add_particles_def find_pos_absent rd_def Let_def)







text \<open>
  Claim C4 fails on the code. With \<open>species = A\<close>, \<open>num_particles = 1\<close> and the reaction
  \<^verbatim>\<open>A -> B : 1\<close> under \<open>balance_check\<close>, the product \<open>B\<close> is not a tracked species: the
  constructor reads beyond the end of \<^verbatim>\<open>_species\<close>, and no configuration error is
  raised.
\<close>

theorem C4_unmapped_species_undefined:
  "constructor x_ops (\<lambda>path. False)
     (default_params\<lparr> p_species := [''A''], p_balance_check := True,
        p_num_particles_valid := True, p_num_particles := [1],
        p_reactions := ''A -> B : 1'' \<rparr>) = Inl UndefinedBehaviour"
  by (simp add: model_defs)

section \<open>The files of tabulated rates\<close>

text \<open>
  Claim C6 fails on the code. The loop at line 967 runs over the indices below the
  number of EEDF reactions, not over the EEDF reactions: with a constant reaction first
  and an identified EEDF reaction second, the only index visited is 0, the identifier
  \<^verbatim>\<open>excite\<close> is never looked up, and the constructor succeeds on a file system that
  holds no file at all.
\<close>

theorem C6_identified_reaction_not_probed:
  "\<exists>s. constructor x_ops (\<lambda>path. False)
          (default_params\<lparr> p_species := [''A'', ''B''],
             p_reactions := ''A -> B : 1'' @ [CHR 0x0A] @ ''e + A -> e + B : EEDF (excite)'' \<rparr>)
        = Inr s \<and>
       rate_type s = [''Constant'', ''EEDF''] \<and> is_identified s = [False, True] \<and>
       reaction_identifier s = [''NONE'', ''excite''] \<and> num_eedf_reactions s = 1"
  by (simp add: model_defs)

section \<open>The stages that read the text\<close>

lemma for_loop_invariant:
  assumes "for_loop xs body s = Inr s'" and "I s"
    and "\<And>x t t'. x \<in> set xs \<Longrightarrow> I t \<Longrightarrow> body x t = Inr t' \<Longrightarrow> I t'"
  shows "I s'"
  using assms
proof (induction xs arbitrary: s)
  case Nil
  then show ?case by simp
next
  case (Cons x xs)
  from Cons.prems(1) obtain t where b: "body x s = Inr t" and r: "for_loop xs body t = Inr s'"
    by (auto split: sum.splits)
  have "I t" using Cons.prems(3) [OF _ Cons.prems(2) b] by simp
  show ?case
  proof (rule Cons.IH [OF r \<open>I t\<close>])
    fix y u u'
    assume "y \<in> set xs" "I u" "body y u = Inr u'"
    then show "I u'" using Cons.prems(3) [of y u u'] by simp
  qed
qed

lemma for_loop_snoc:
  "for_loop (xs @ [x]) body s = then_do (for_loop xs body s) (body x)"
proof -
  have "for_loop [x] body t = body x t" for t
    by (cases "body x t") simp_all
  then show ?thesis by (simp add: for_loop_append then_do_def split: sum.splits)
qed

lemma for_loop_upt_invariant:
  assumes "for_loop [0..<n] body s = Inr s'" and "I 0 s"
    and "\<And>k t t'. k < n \<Longrightarrow> I k t \<Longrightarrow> body k t = Inr t' \<Longrightarrow> I (Suc k) t'"
  shows "I n s'"
  using assms
proof (induction n arbitrary: s')
  case 0
  then show ?case by simp
next
  case (Suc n)
  from Suc.prems(1) obtain t where l: "for_loop [0..<n] body s = Inr t"
      and b: "body n t = Inr s'"
    by (auto simp: for_loop_snoc then_do_Inr)
  have "I n t"
  proof (rule Suc.IH [OF l Suc.prems(2)])
    fix k u u'
    assume "k < n" "I k u" "body k u = Inr u'"
    then show "I (Suc k) u'" using Suc.prems(3) [of k u u'] by simp
  qed
  then show ?case using Suc.prems(3) [OF _ _ b] by simp
qed

lemma fold_preserves:
  "(\<And>x s. f (g x s) = f s) \<Longrightarrow> f (fold g xs s) = f s"
  by (induction xs arbitrary: s) simp_all

lemma fold_invariant:
  "I s \<Longrightarrow> (\<And>x t. x \<in> set xs \<Longrightarrow> I t \<Longrightarrow> I (g x t)) \<Longrightarrow> I (fold g xs s)"
  by (induction xs arbitrary: s) simp_all

lemma frame_field:
  assumes "w s' = w s" and "\<And>t. f (w t) = f t"
  shows "f s' = f s"
  by (metis assms)

lemma read_lines_loop:
  assumes "for_loop tokens read_line s = Inr s'" and "lines_read lfs s"
  shows "\<exists>lfs'. map parse_line (filter (\<lambda>token. find_char token CHR ''#'' \<noteq> 0) tokens) =
                  map Inr lfs' \<and> lines_read (lfs @ lfs') s' \<and>
                  without_lines s' = without_lines s"
  using assms
proof (induction tokens arbitrary: s lfs)
  case Nil
  then show ?case by simp
next
  case (Cons token tokens)
  from Cons.prems(1) obtain t where t: "read_line token s = Inr t"
      and rest: "for_loop tokens read_line t = Inr s'"
    by (auto split: sum.splits)
  show ?case
  proof (cases "find_char token CHR ''#'' = 0")
    case True
    with t have "t = s" by (simp add: read_line_def)
    with Cons.IH [OF rest, of lfs] Cons.prems(2) True show ?thesis by simp
  next
    case False
    with t obtain lf where lf: "parse_line token = Inr lf"
        and t_eq: "t = s\<lparr> reaction := reaction s @ [lf_reaction lf],
                 rate_coefficient_string :=
                   rate_coefficient_string s @ [lf_rate_coefficient_string lf],
                 threshold_energy_string :=
                   threshold_energy_string s @ [lf_threshold_energy_string lf],
                 energy_change := energy_change s @ [lf_energy_change lf],
                 rate_equation_string :=
                   rate_equation_string s @ [lf_rate_equation_string lf],
                 rate_equation := rate_equation s @ [lf_rate_equation lf],
                 is_identified := is_identified s @ [lf_is_identified lf],
                 reaction_identifier :=
                   reaction_identifier s @ [lf_reaction_identifier lf] \<rparr>"
      by (auto simp: read_line_def then_do_Inr)
    have lr: "lines_read (lfs @ [lf]) t"
      using Cons.prems(2) by (simp add: lines_read_def t_eq)
    have w: "without_lines t = without_lines s"
      by (simp add: without_lines_def t_eq)
    from Cons.IH [OF rest lr] obtain lfs' where
      "map parse_line (filter (\<lambda>token. find_char token CHR ''#'' \<noteq> 0) tokens) = map Inr lfs'"
      "lines_read ((lfs @ [lf]) @ lfs') s'" "without_lines s' = without_lines t"
      by blast
    then show ?thesis using False lf w
      by (intro exI [of _ "lf # lfs'"]) simp
  qed
qed

lemma read_lines_eq:
  assumes "read_lines txt crb_init = Inr s"
  shows "\<exists>lfs. map parse_line (reaction_lines txt) = map Inr lfs \<and> lines_read lfs s \<and>
               without_lines s = crb_init"
proof -
  have "lines_read [] (crb_init :: 'a crb)" by (simp add: lines_read_def crb_init_def)
  from read_lines_loop [OF assms [unfolded read_lines_def] this]
  show ?thesis by (simp add: reaction_lines_def without_lines_def crb_init_def)
qed

lemma length_resize [simp]: "length (resize n d xs) = n"
  unfolding resize_def by (simp add: min_def)

lemma set_threshold_energy_props:
  assumes "set_threshold_energy ops k t = Inr t'"
  shows "without_rates t' = without_rates t"
    and "length (threshold_energy t') = length (threshold_energy t)"
    and "length (elastic_collision t') = length (elastic_collision t)"
    and "rate_type t' = rate_type t" and "rate_coefficient t' = rate_coefficient t"
    and "num_reactions t' = num_reactions t"
  using assms
  by (auto simp: set_threshold_energy_def without_rates_def split: if_splits stod_result.splits)

lemma set_rate_type_props:
  assumes "set_rate_type ops k t = Inr t'"
  shows "without_rates t' = without_rates t"
    and "length (rate_coefficient t') = length (rate_coefficient t)"
    and "length (rate_type t') = length (rate_type t)"
    and "threshold_energy t' = threshold_energy t"
    and "elastic_collision t' = elastic_collision t"
    and "num_reactions t' = num_reactions t"
    and "i \<noteq> k \<Longrightarrow> rate_type t' ! i = rate_type t ! i"
    and "i \<noteq> k \<Longrightarrow> rate_coefficient t' ! i = rate_coefficient t ! i"
  using assms
  by (auto simp: set_rate_type_def without_rates_def split: if_splits stod_result.splits)

lemma set_rate_type_classified:
  assumes "set_rate_type ops k t = Inr t'" and "k < length (rate_type t)"
    and "k < length (rate_coefficient t)"
  shows "classified_at ops t' k"
  using assms
  by (auto simp: set_rate_type_def classified_at_def split: if_splits stod_result.splits)

lemma classify_body:
  assumes "then_do (set_threshold_energy ops k t) (set_rate_type ops k) = Inr t'"
    and "rates_sized n t" and "k < n"
  shows "without_rates t' = without_rates t \<and> rates_sized n t' \<and> classified_at ops t' k \<and>
         (\<forall>i. i \<noteq> k \<longrightarrow> rate_type t' ! i = rate_type t ! i \<and>
                        rate_coefficient t' ! i = rate_coefficient t ! i)"
proof -
  from assms(1) obtain u where u: "set_threshold_energy ops k t = Inr u"
      and t': "set_rate_type ops k u = Inr t'"
    by (auto simp: then_do_Inr)
  note fu = set_threshold_energy_props [OF u]
  note ft = set_rate_type_props [OF t']
  have sized_u: "rates_sized n u"
    using assms(2) fu by (simp add: rates_sized_def)
  have cl: "classified_at ops t' k"
    using set_rate_type_classified [OF t'] sized_u assms(3) by (simp add: rates_sized_def)
  have w: "without_rates t' = without_rates t"
    using fu(1) ft(1) by simp
  have sized: "rates_sized n t'"
    using sized_u ft by (simp add: rates_sized_def)
  have others: "\<forall>i. i \<noteq> k \<longrightarrow> rate_type t' ! i = rate_type t ! i \<and>
                        rate_coefficient t' ! i = rate_coefficient t ! i"
    using ft(7,8) fu(4,5) by simp
  from w sized cl others show ?thesis by simp
qed

lemma classify_rates_eq:
  assumes "classify_rates ops s = Inr s'"
  shows "without_rates s' = without_rates s \<and> rates_sized (length (reaction s)) s' \<and>
         (\<forall>i<length (reaction s). classified_at ops s' i)"
proof -
  define n where "n = length (reaction s)"
  define s1 where "s1 = s\<lparr> num_reactions := n,
                  rate_coefficient := resize n (r_of_int ops 0) (rate_coefficient s),
                  threshold_energy := resize n (r_of_int ops 0) (threshold_energy s),
                  elastic_collision := resize n False (elastic_collision s),
                  rate_type := resize n [] (rate_type s),
                  num_eedf_reactions := 0 \<rparr>"
  define I where "I = (\<lambda>k t. without_rates t = without_rates s \<and> rates_sized n t \<and>
                        (\<forall>i<k. classified_at ops t i))"
  have loop: "for_loop [0..<n]
           (\<lambda>i s. then_do (set_threshold_energy ops i s) (set_rate_type ops i)) s1 = Inr s'"
    using assms by (simp add: classify_rates_def Let_def n_def s1_def)
  have "I n s'"
  proof (rule for_loop_upt_invariant [OF loop])
    show "I 0 s1"
      by (simp add: I_def s1_def without_rates_def rates_sized_def)
  next
    fix k t t'
    assume k: "k < n" and I: "I k t"
      and b: "then_do (set_threshold_energy ops k t) (set_rate_type ops k) = Inr t'"
    from I have sized: "rates_sized n t" by (simp add: I_def)
    note body = classify_body [OF b sized k]
    have cs: "rate_coefficient_string t' = rate_coefficient_string t"
      and re: "rate_equation t' = rate_equation t"
      using body by (auto intro: frame_field [where w = without_rates] simp: without_rates_def)
    have "classified_at ops t' i" if "i < Suc k" for i
    proof (cases "i = k")
      case True
      with body show ?thesis by simp
    next
      case False
      with that I have "classified_at ops t i" by (simp add: I_def)
      with False body show ?thesis by (simp add: classified_at_def cs re)
    qed
    with body I show "I (Suc k) t'" by (simp add: I_def)
  qed
  then show ?thesis by (simp add: I_def n_def)
qed

lemma conversion_factor_eq:
  "0 < r \<Longrightarrow> conversion_factor ops P r = unit_factor ops P r"
  by (simp add: conversion_factor_def unit_factor_def exp_factor_def N_A_def)

lemma unchanged_except_refl [simp]: "unchanged_except i xs xs"
  by (simp add: unchanged_except_def)

lemma unchanged_except_update [simp]: "unchanged_except i xs (xs[i := v])"
  by (simp add: unchanged_except_def)

lemma unchanged_except_trans:
  "unchanged_except i xs ys \<Longrightarrow> unchanged_except i ys zs \<Longrightarrow> unchanged_except i xs zs"
  by (simp add: unchanged_except_def)

lemma tokenize_term_props:
  "without_split (snd (tokenize_term i token st)) = without_split (snd st)"
  "rate_coefficient (snd (tokenize_term i token st)) = rate_coefficient (snd st)"
  "rate_equation_string (snd (tokenize_term i token st)) = rate_equation_string (snd st)"
  "unchanged_except i (reactants (snd st)) (reactants (snd (tokenize_term i token st)))"
  "unchanged_except i (products (snd st)) (products (snd (tokenize_term i token st)))"
  by (simp_all add: tokenize_term_def Let_def without_split_def)

lemma tokenize_terms_props:
  "without_split (tokenize_terms i tokens s) = without_split s \<and>
   rate_coefficient (tokenize_terms i tokens s) = rate_coefficient s \<and>
   rate_equation_string (tokenize_terms i tokens s) = rate_equation_string s \<and>
   unchanged_except i (reactants s) (reactants (tokenize_terms i tokens s)) \<and>
   unchanged_except i (products s) (products (tokenize_terms i tokens s))"
proof -
  define I where "I = (\<lambda>st :: bool \<times> 'a crb.
     without_split (snd st) = without_split s \<and>
     rate_coefficient (snd st) = rate_coefficient s \<and>
     rate_equation_string (snd st) = rate_equation_string s \<and>
     unchanged_except i (reactants s) (reactants (snd st)) \<and>
     unchanged_except i (products s) (products (snd st)))"
  have "I (fold (tokenize_term i) tokens (True, s))"
  proof (rule fold_invariant)
    show "I (True, s)" by (simp add: I_def)
  next
    fix token st
    assume "token \<in> set tokens" and "I st"
    then show "I (tokenize_term i token st)"
      using tokenize_term_props [where i = i and token = token and st = st]
      by (auto simp: I_def intro: unchanged_except_trans)
  qed
  then show ?thesis by (simp add: I_def tokenize_terms_def)
qed

lemma flag_reactant_core:
  "flag_reactant P i k s = Inr s' \<Longrightarrow> split_core s' = split_core s"
  by (auto simp: flag_reactant_def split_core_def without_split_def split: if_splits)

lemma count_reactant_core:
  "count_reactant P idx j k s = Inr s' \<Longrightarrow> split_core s' = split_core s"
  by (auto simp: count_reactant_def split_core_def without_split_def then_do_Inr rd_def wr_def
      split: if_splits)

lemma count_product_core:
  "count_product P idx j k s = Inr s' \<Longrightarrow> split_core s' = split_core s"
  by (auto simp: count_product_def split_core_def without_split_def then_do_Inr rd_def
      split: if_splits)

lemma calculate_coefficients_core:
  assumes "calculate_coefficients P idx s = Inr s'"
  shows "split_core s' = split_core s"
proof (rule for_loop_preserves [OF _ assms [unfolded calculate_coefficients_def]])
  fix j t t'
  assume "then_do (rd (reactants t) idx) (\<lambda>rs.
            then_do (for_loop [0..<length rs] (count_reactant P idx j) t) (\<lambda>s.
            then_do (rd (products s) idx) (\<lambda>ps.
            for_loop [0..<length ps] (count_product P idx j) s))) = Inr t'"
  then obtain rs ps :: "string list" and u
    where u: "for_loop [0..<length rs] (count_reactant P idx j) t = Inr u"
      and t': "for_loop [0..<length ps] (count_product P idx j) u = Inr t'"
    by (auto simp: then_do_Inr)
  have "split_core u = split_core t"
    by (rule for_loop_preserves [OF _ u]) (rule count_reactant_core)
  moreover have "split_core t' = split_core u"
    by (rule for_loop_preserves [OF _ t']) (rule count_product_core)
  ultimately show "split_core t' = split_core t" by simp
qed

lemma without_split_rate_type:
  "without_split s' = without_split s \<Longrightarrow> rate_type s' = rate_type s"
  by (rule frame_field [where w = without_split]) (simp_all add: without_split_def)

lemma split_reaction_props:
  assumes "split_reaction ops P i s = Inr s'"
  shows "without_split s' = without_split s"
    and "unchanged_except i (reactants s) (reactants s')"
    and "unchanged_except i (products s) (products s')"
    and "rate_coefficient s' = (rate_coefficient s)[i := scaled_coefficient ops P s s' i]"
    and "rate_equation_string s' =
           (rate_equation_string s)[i := scaled_expression ops P s s' i]"
proof -
  define s1 where "s1 = tokenize_terms i (getline_tokens CHR '' '' (reaction s ! i)) s"
  define s2 where "s2 = scale_rate ops P i s1"
  define s3 where "s3 = s2\<lparr> reaction_lumped := (reaction_lumped s2)[i := False] \<rparr>"
  from assms obtain s4 where
    s4: "for_loop [0..<length (reactants s3 ! i)] (flag_reactant P i) s3 = Inr s4"
    and s': "calculate_coefficients P i
           (s4\<lparr> num_reactants := num_reactants s4 @ [length (reactants s4 ! i)],
                num_products := num_products s4 @ [length (products s4 ! i)],
                species_count := resize (num_reactions s4)
                                   (replicate (length (p_species P)) 0) (species_count s4) \<rparr>)
         = Inr s'"
    by (auto simp: split_reaction_def Let_def then_do_Inr s1_def s2_def s3_def)
  note tok = tokenize_terms_props [of i "getline_tokens CHR '' '' (reaction s ! i)" s,
      folded s1_def]
  have rt1: "rate_type s1 = rate_type s"
    by (rule without_split_rate_type) (use tok in simp)
  have c43: "split_core s4 = split_core s3"
    by (rule for_loop_preserves [OF _ s4]) (rule flag_reactant_core)
  have c32: "split_core s3 = split_core s2"
    by (simp add: s3_def split_core_def without_split_def)
  have c54: "split_core s' = split_core s4"
    using calculate_coefficients_core [OF s']
    by (simp add: split_core_def without_split_def)
  have core: "split_core s' = split_core s2"
    using c54 c43 c32 by simp
  have w2: "without_split s2 = without_split s1" "reactants s2 = reactants s1"
    "products s2 = products s1"
    by (simp_all add: s2_def scale_rate_def without_split_def)
  have r2: "rate_coefficient s2 = (rate_coefficient s1)[i := scaled_coefficient ops P s1 s1 i]"
    by (simp add: s2_def scale_rate_def scaled_coefficient_def)
  have e2: "rate_equation_string s2 =
              (rate_equation_string s1)[i := scaled_expression ops P s1 s1 i]"
    by (simp add: s2_def scale_rate_def scaled_expression_def)
  from core have eqs: "without_split s' = without_split s2" "reactants s' = reactants s2"
    "products s' = products s2" "rate_coefficient s' = rate_coefficient s2"
    "rate_equation_string s' = rate_equation_string s2"
    by (simp_all add: split_core_def)
  show "without_split s' = without_split s" using eqs w2 tok by simp
  show "unchanged_except i (reactants s) (reactants s')" using eqs w2 tok by simp
  show "unchanged_except i (products s) (products s')" using eqs w2 tok by simp
  have sc: "scaled_coefficient ops P s1 s1 i = scaled_coefficient ops P s s' i"
    using tok rt1 eqs w2 by (simp add: scaled_coefficient_def)
  have se: "scaled_expression ops P s1 s1 i = scaled_expression ops P s s' i"
    using tok rt1 eqs w2 by (simp add: scaled_expression_def)
  show "rate_coefficient s' = (rate_coefficient s)[i := scaled_coefficient ops P s s' i]"
    using eqs r2 tok sc by simp
  show "rate_equation_string s' =
           (rate_equation_string s)[i := scaled_expression ops P s s' i]"
    using eqs e2 tok se by simp
qed

lemma split_reactions_eq:
  assumes "split_reactions ops P s = Inr s'"
    and "length (rate_coefficient s) = num_reactions s"
    and "length (rate_equation_string s) = num_reactions s"
  shows "without_split s' = without_split s \<and>
         length (reactants s') = num_reactions s \<and> length (products s') = num_reactions s \<and>
         length (rate_coefficient s') = num_reactions s \<and>
         length (rate_equation_string s') = num_reactions s \<and>
         (\<forall>i<num_reactions s. rates_scaled ops P s s' i)"
proof -
  define n where "n = num_reactions s"
  define s1 where "s1 = s\<lparr> reactants := resize n [] (reactants s),
                  products := resize n [] (products s),
                  reversible_reaction := resize n False (reversible_reaction s),
                  electron_index := resize n 0 (electron_index s),
                  superelastic_reactions := 0,
                  reaction_lumped := resize n False (reaction_lumped s) \<rparr>"
  define I where "I = (\<lambda>k t. without_split t = without_split s \<and>
       length (reactants t) = n \<and> length (products t) = n \<and>
       length (rate_coefficient t) = n \<and> length (rate_equation_string t) = n \<and>
       (\<forall>i<n. if i < k then rates_scaled ops P s t i
               else rate_coefficient t ! i = rate_coefficient s ! i \<and>
                    rate_equation_string t ! i = rate_equation_string s ! i))"
  have loop: "for_loop [0..<n] (split_reaction ops P) s1 = Inr s'"
    using assms(1) by (simp add: split_reactions_def Let_def n_def s1_def)
  have "I n s'"
  proof (rule for_loop_upt_invariant [OF loop])
    show "I 0 s1"
      using assms(2,3) by (simp add: I_def s1_def without_split_def n_def)
  next
    fix k t t'
    assume k: "k < n" and I: "I k t" and b: "split_reaction ops P k t = Inr t'"
    note props = split_reaction_props [OF b]
    have rt: "rate_type t = rate_type s"
      by (rule without_split_rate_type) (use I in \<open>simp add: I_def\<close>)
    have "if i < Suc k then rates_scaled ops P s t' i
          else rate_coefficient t' ! i = rate_coefficient s ! i \<and>
               rate_equation_string t' ! i = rate_equation_string s ! i" if i: "i < n" for i
    proof (cases "i = k")
      case True
      have "scaled_coefficient ops P t t' k = scaled_coefficient ops P s t' k"
        "scaled_expression ops P t t' k = scaled_expression ops P s t' k"
        using I k rt by (simp_all add: I_def scaled_coefficient_def scaled_expression_def)
      then show ?thesis
        using True props(4,5) I k by (simp add: I_def rates_scaled_def)
    next
      case False
      have same: "rate_coefficient t' ! i = rate_coefficient t ! i"
        "rate_equation_string t' ! i = rate_equation_string t ! i"
        "reactants t' ! i = reactants t ! i"
        using False props by (simp_all add: unchanged_except_def)
      from I i have old: "if i < k then rates_scaled ops P s t i
          else rate_coefficient t ! i = rate_coefficient s ! i \<and>
               rate_equation_string t ! i = rate_equation_string s ! i"
        by (simp add: I_def)
      show ?thesis
        using False old same
        by (auto simp: rates_scaled_def scaled_coefficient_def scaled_expression_def
            less_Suc_eq)
    qed
    moreover have "without_split t' = without_split s" using props(1) I by (simp add: I_def)
    moreover have "length (reactants t') = n" "length (products t') = n"
      using props(2,3) I by (simp_all add: I_def unchanged_except_def)
    moreover have "length (rate_coefficient t') = n" "length (rate_equation_string t') = n"
      using props(4,5) I by (simp_all add: I_def)
    ultimately show "I (Suc k) t'" by (simp add: I_def)
  qed
  then show ?thesis by (simp add: I_def n_def)
qed

lemma parse_reactions_stages:
  assumes "parse_reactions ops P = Inr s"
  shows "\<exists>lfs s1 s2.
           map parse_line (reaction_lines (p_reactions P)) = map Inr lfs \<and>
           lines_read lfs s1 \<and> without_lines s1 = crb_init \<and>
           without_rates s2 = without_rates s1 \<and> rates_sized (length lfs) s2 \<and>
           (\<forall>i<length lfs. classified_at ops s2 i) \<and>
           without_split s = without_split s2 \<and>
           length (reactants s) = length lfs \<and> length (products s) = length lfs \<and>
           length (rate_coefficient s) = length lfs \<and>
           length (rate_equation_string s) = length lfs \<and>
           (\<forall>i<length lfs. rates_scaled ops P s2 s i)"
proof -
  from assms obtain s1 s2 where s1: "read_lines (p_reactions P) crb_init = Inr s1"
      and s2: "classify_rates ops s1 = Inr s2" and s: "split_reactions ops P s2 = Inr s"
    by (auto simp: parse_reactions_def then_do_Inr)
  from read_lines_eq [OF s1] obtain lfs where
    lfs: "map parse_line (reaction_lines (p_reactions P)) = map Inr lfs"
    and lr: "lines_read lfs s1" and w1: "without_lines s1 = crb_init"
    by blast
  have n: "length (reaction s1) = length lfs" using lr by (simp add: lines_read_def)
  note c = classify_rates_eq [OF s2, unfolded n]
  have res: "rate_equation_string s2 = rate_equation_string s1"
    by (rule frame_field [where w = without_rates]) (use c in \<open>simp_all add: without_rates_def\<close>)
  have sized: "length (rate_coefficient s2) = num_reactions s2"
    "length (rate_equation_string s2) = num_reactions s2" "num_reactions s2 = length lfs"
    using c lr res by (simp_all add: rates_sized_def lines_read_def)
  note sp = split_reactions_eq [OF s sized(1,2), unfolded sized(3)]
  from lfs lr w1 c sp show ?thesis by blast
qed

section \<open>The conversion of the rates\<close>

text \<open>
  After the three reading loops, for a reaction with at least one reactant: a constant
  rate is the number read from the rate field of the line times the conversion factor
  as the specification writes it, and a rate expression is the text between the braces
  followed by \<open>*\<close> and the factor written out.
\<close>

lemma parsed_rate_conversion:
  assumes "parse_reactions ops P = Inr s" and "i < num_reactions s"
    and "reactants s ! i \<noteq> []"
  shows "\<exists>lf. parse_line (reaction_lines (p_reactions P) ! i) = Inr lf \<and>
           (rate_type s ! i = ''Constant'' \<longrightarrow>
              (\<exists>v. r_stod ops (lf_rate_coefficient_string lf) = Stod_value v \<and>
                   rate_coefficient s ! i =
                     r_mul ops v (unit_factor ops P (length (reactants s ! i))))) \<and>
           (rate_type s ! i = ''Equation'' \<longrightarrow>
              rate_equation_string s ! i =
                lf_rate_equation_string lf @ ''*'' @
                r_stringify ops (unit_factor ops P (length (reactants s ! i))))"
proof -
  from parse_reactions_stages [OF assms(1)] obtain lfs s1 s2 where
    lfs: "map parse_line (reaction_lines (p_reactions P)) = map Inr lfs"
    and lr: "lines_read lfs s1"
    and w2: "without_rates s2 = without_rates s1" and sized: "rates_sized (length lfs) s2"
    and cl: "\<forall>i<length lfs. classified_at ops s2 i"
    and w3: "without_split s = without_split s2"
    and sc: "\<forall>i<length lfs. rates_scaled ops P s2 s i"
    by blast
  have nr: "num_reactions s = num_reactions s2"
    by (rule frame_field [where w = without_split]) (use w3 in \<open>simp_all add: without_split_def\<close>)
  have rt: "rate_type s = rate_type s2" using w3 by (rule without_split_rate_type)
  have i: "i < length lfs" using assms(2) nr sized by (simp add: rates_sized_def)
  have rcs: "rate_coefficient_string s2 = rate_coefficient_string s1"
    by (rule frame_field [where w = without_rates]) (use w2 in \<open>simp_all add: without_rates_def\<close>)
  have res: "rate_equation_string s2 = rate_equation_string s1"
    by (rule frame_field [where w = without_rates]) (use w2 in \<open>simp_all add: without_rates_def\<close>)
  have len: "length (reaction_lines (p_reactions P)) = length lfs"
    using lfs by (metis length_map)
  have lf: "parse_line (reaction_lines (p_reactions P) ! i) = Inr (lfs ! i)"
    using arg_cong [OF lfs, of "\<lambda>xs. xs ! i"] i len by simp
  have rcs_i: "rate_coefficient_string s2 ! i = lf_rate_coefficient_string (lfs ! i)"
    and res_i: "rate_equation_string s2 ! i = lf_rate_equation_string (lfs ! i)"
    using lr i rcs res by (simp_all add: lines_read_def)
  have pos: "0 < length (reactants s ! i)" using assms(3) by simp
  note f = conversion_factor_eq [OF pos, of ops P]
  from cl i have cl_i: "classified_at ops s2 i" by simp
  from sc i have sc_i: "rates_scaled ops P s2 s i" by simp
  have const: "\<exists>v. r_stod ops (lf_rate_coefficient_string (lfs ! i)) = Stod_value v \<and>
                   rate_coefficient s ! i =
                     r_mul ops v (unit_factor ops P (length (reactants s ! i)))"
    if "rate_type s ! i = ''Constant''"
  proof -
    from that rt have c: "rate_type s2 ! i = ''Constant''" by simp
    with cl_i have "r_stod ops (rate_coefficient_string s2 ! i) =
                      Stod_value (rate_coefficient s2 ! i)"
      by (auto simp: classified_at_def split: if_splits)
    moreover from sc_i c have "rate_coefficient s ! i =
        r_mul ops (rate_coefficient s2 ! i) (unit_factor ops P (length (reactants s ! i)))"
      by (simp add: rates_scaled_def scaled_coefficient_def f)
    ultimately show ?thesis by (simp add: rcs_i)
  qed
  have eqn: "rate_equation_string s ! i =
                lf_rate_equation_string (lfs ! i) @ ''*'' @
                r_stringify ops (unit_factor ops P (length (reactants s ! i)))"
    if "rate_type s ! i = ''Equation''"
    using that rt sc_i by (simp add: rates_scaled_def scaled_expression_def f res_i)
  from lf const eqn show ?thesis by blast
qed

section \<open>The expansions and the coefficients\<close>

lemma count_reactant_frame:
  "count_reactant P idx j k s = Inr s' \<Longrightarrow> without_counts s' = without_counts s"
  by (auto simp: count_reactant_def without_counts_def then_do_Inr rd_def wr_def
      split: if_splits)

lemma count_product_frame:
  "count_product P idx j k s = Inr s' \<Longrightarrow> without_counts s' = without_counts s"
  by (auto simp: count_product_def without_counts_def then_do_Inr rd_def split: if_splits)

lemma calculate_coefficients_frame:
  assumes "calculate_coefficients P idx s = Inr s'"
  shows "without_counts s' = without_counts s"
proof (rule for_loop_preserves [OF _ assms [unfolded calculate_coefficients_def]])
  fix j t t'
  assume "then_do (rd (reactants t) idx) (\<lambda>rs.
            then_do (for_loop [0..<length rs] (count_reactant P idx j) t) (\<lambda>s.
            then_do (rd (products s) idx) (\<lambda>ps.
            for_loop [0..<length ps] (count_product P idx j) s))) = Inr t'"
  then obtain rs ps :: "string list" and u
    where u: "for_loop [0..<length rs] (count_reactant P idx j) t = Inr u"
      and t': "for_loop [0..<length ps] (count_product P idx j) u = Inr t'"
    by (auto simp: then_do_Inr)
  have "without_counts u = without_counts t"
    by (rule for_loop_preserves [OF _ u]) (rule count_reactant_frame)
  moreover have "without_counts t' = without_counts u"
    by (rule for_loop_preserves [OF _ t']) (rule count_product_frame)
  ultimately show "without_counts t' = without_counts t" by simp
qed

lemma lumped_copy_frame:
  "without_lumped (lumped_copy P old_num i lumped_counter s) = without_lumped s"
proof -
  have a: "without_lumped (fold (\<lambda>k s. s\<lparr> reactants := f k s \<rparr>) ks t) = without_lumped t"
    for f :: "nat \<Rightarrow> 'a crb \<Rightarrow> string list list" and ks t
    by (rule fold_preserves) (simp add: without_lumped_def)
  have b: "without_lumped (fold (\<lambda>k s. s\<lparr> products := f k s \<rparr>) ks t) = without_lumped t"
    for f :: "nat \<Rightarrow> 'a crb \<Rightarrow> string list list" and ks t
    by (rule fold_preserves) (simp add: without_lumped_def)
  show ?thesis
    unfolding lumped_copy_def Let_def by (simp only: a b) (simp add: without_lumped_def)
qed

lemma lumped_expansion_frame:
  "without_lumped (lumped_expansion ops P s) = without_lumped s"
proof -
  have "without_lumped (fold (\<lambda>i s. fold (lumped_copy P old_num i) ks s) is t) =
        without_lumped t" for old_num ks "is" and t :: "'a crb"
    by (rule fold_preserves, rule fold_preserves) (rule lumped_copy_frame)
  then show ?thesis
    by (simp add: lumped_expansion_def Let_def) (simp add: without_lumped_def)
qed

lemma lumped_copy_num_reactions:
  "num_reactions (lumped_copy P old_num i lumped_counter s) = num_reactions s"
proof -
  have a: "num_reactions (fold (\<lambda>k s. s\<lparr> reactants := f k s \<rparr>) ks t) = num_reactions t"
    for f :: "nat \<Rightarrow> 'a crb \<Rightarrow> string list list" and ks t
    by (rule fold_preserves) simp
  have b: "num_reactions (fold (\<lambda>k s. s\<lparr> products := f k s \<rparr>) ks t) = num_reactions t"
    for f :: "nat \<Rightarrow> 'a crb \<Rightarrow> string list list" and ks t
    by (rule fold_preserves) simp
  show ?thesis
    unfolding lumped_copy_def Let_def by (simp only: a b) simp
qed

lemma lumped_expansion_num_reactions:
  "num_reactions (lumped_expansion ops P s) =
     (if p_lumped_species P
      then num_reactions s + length (lumped_reaction s) * length (p_lumped P)
      else num_reactions s)"
proof -
  have "num_reactions (fold (\<lambda>i s. fold (lumped_copy P old_num i) ks s) is t) =
        num_reactions t" for old_num ks "is" and t :: "'a crb"
    by (rule fold_preserves, rule fold_preserves) (rule lumped_copy_num_reactions)
  then show ?thesis
    by (simp add: lumped_expansion_def Let_def)
qed

lemma wr_Inr: "wr xs i v = Inr ys \<longleftrightarrow> i < length xs \<and> ys = xs[i := v]"
  by (auto simp: wr_def)

lemma rd_Inr: "rd xs i = Inr x \<longleftrightarrow> i < length xs \<and> x = xs ! i"
  by (auto simp: rd_def)

lemma append_product_frame:
  assumes "append_product i new_index np j st = Inr st'"
  shows "(fst st')\<lparr> reactants := [] \<rparr> = (fst st)\<lparr> reactants := [] \<rparr>"
  using assms by (auto simp: append_product_def Let_def then_do_Inr)

lemma append_reactant_frame:
  assumes "append_reactant i new_index j st = Inr st'"
  shows "(fst st')\<lparr> products := [] \<rparr> = (fst st)\<lparr> products := [] \<rparr>"
  using assms by (auto simp: append_reactant_def Let_def then_do_Inr)

lemma reverse_fields_Inr:
  "reverse_fields ops i new_index s = Inr s1 \<longleftrightarrow>
     new_index < length (superelastic_index s) \<and>
     new_index < length (superelastic_reaction s) \<and>
     new_index < length (rate_coefficient s) \<and>
     new_index < length (threshold_energy s) \<and>
     new_index < length (rate_equation s) \<and>
     new_index < length (energy_change s) \<and>
     i < length (threshold_energy s) \<and> i < length (rate_equation s) \<and>
     i < length (energy_change s) \<and>
     s1 = s\<lparr> superelastic_index := (superelastic_index s)[new_index := i],
             superelastic_reaction := (superelastic_reaction s)[new_index := True],
             rate_coefficient := (rate_coefficient s)[new_index := r_nan ops],
             threshold_energy :=
               (threshold_energy s)[new_index := r_neg ops (threshold_energy s ! i)],
             rate_equation := (rate_equation s)[new_index := rate_equation s ! i],
             energy_change := (energy_change s)[new_index := energy_change s ! i] \<rparr>"
  unfolding reverse_fields_def then_do_Inr wr_Inr rd_Inr by auto

lemma reverse_reaction_steps:
  assumes "reverse_reaction ops i st = Inr st'"
  obtains s1 st1 st2 where
    "reverse_fields ops i (fst (snd st) + 1) (fst st) = Inr s1"
    "i < length (num_products s1)"
    "for_loop [0..<num_products s1 ! i]
       (append_product i (fst (snd st) + 1) (num_products s1 ! i)) (s1, snd (snd st)) = Inr st1"
    "i < length (reactants (fst st1))"
    "for_loop [0..<length (reactants (fst st1) ! i)] (append_reactant i (fst (snd st) + 1))
       (fst st1, snd st1 @ '' -> '') = Inr st2"
    "st' = ((fst st2)\<lparr> reaction := reaction (fst st2) @ [snd st2] \<rparr>,
            fst (snd st) + 1, snd st2)"
proof -
  from assms obtain s1 np st1 rs st2 where
    a: "reverse_fields ops i (fst (snd st) + 1) (fst st) = Inr s1"
    and b: "rd (num_products s1) i = Inr np"
    and c: "for_loop [0..<np] (append_product i (fst (snd st) + 1) np) (s1, snd (snd st))
              = Inr st1"
    and d: "rd (reactants (fst st1)) i = Inr rs"
    and e: "for_loop [0..<length rs] (append_reactant i (fst (snd st) + 1))
              (fst st1, snd st1 @ '' -> '') = Inr st2"
    and f: "Inr ((fst st2)\<lparr> reaction := reaction (fst st2) @ [snd st2] \<rparr>,
              fst (snd st) + 1, snd st2) = (Inr st' :: error + 'a crb \<times> nat \<times> string)"
    unfolding reverse_reaction_def Let_def then_do_Inr by blast
  from b have b': "i < length (num_products s1)" "np = num_products s1 ! i"
    by (simp_all add: rd_Inr)
  from d have d': "i < length (reactants (fst st1))" "rs = reactants (fst st1) ! i"
    by (simp_all add: rd_Inr)
  from f have f': "st' = ((fst st2)\<lparr> reaction := reaction (fst st2) @ [snd st2] \<rparr>,
            fst (snd st) + 1, snd st2)" by simp
  show ?thesis
    using that [OF a b'(1) c [unfolded b'(2)] d'(1) e [unfolded d'(2)] f'] .
qed

lemma append_product_others:
  assumes "append_product i new_index np j st = Inr st'"
  shows "(fst st')\<lparr> reactants := [] \<rparr> = (fst st)\<lparr> reactants := [] \<rparr>"
  using assms by (rule append_product_frame)

lemma reverse_reaction_energy:
  assumes "reverse_reaction ops i st = Inr st'"
  shows "fst (snd st') = fst (snd st) + 1"
    and "without_superelastic (fst st') = without_superelastic (fst st)"
    and "energies_below (fst (snd st) + 1) (fst st') = energies_below (fst (snd st) + 1) (fst st)"
proof -
  from assms obtain s1 st1 st2 where
    s1: "reverse_fields ops i (fst (snd st) + 1) (fst st) = Inr s1"
    and st1: "for_loop [0..<num_products s1 ! i]
       (append_product i (fst (snd st) + 1) (num_products s1 ! i)) (s1, snd (snd st)) = Inr st1"
    and st2: "for_loop [0..<length (reactants (fst st1) ! i)]
       (append_reactant i (fst (snd st) + 1)) (fst st1, snd st1 @ '' -> '') = Inr st2"
    and st': "st' = ((fst st2)\<lparr> reaction := reaction (fst st2) @ [snd st2] \<rparr>,
            fst (snd st) + 1, snd st2)"
    by (rule reverse_reaction_steps)
  show "fst (snd st') = fst (snd st) + 1" by (simp add: st')
  have e1: "(fst st1)\<lparr> reactants := [] \<rparr> = s1\<lparr> reactants := [] \<rparr>"
    using for_loop_preserves [where f = "\<lambda>st. (fst st)\<lparr> reactants := [] \<rparr>", OF _ st1]
      append_product_frame by fastforce
  have e2: "(fst st2)\<lparr> products := [] \<rparr> = (fst st1)\<lparr> products := [] \<rparr>"
    using for_loop_preserves [where f = "\<lambda>st. (fst st)\<lparr> products := [] \<rparr>", OF _ st2]
      append_reactant_frame by fastforce
  have w1: "without_superelastic (fst st1) = without_superelastic s1"
    using arg_cong [OF e1, of without_superelastic] by (simp add: without_superelastic_def)
  have w2: "without_superelastic (fst st2) = without_superelastic (fst st1)"
    using arg_cong [OF e2, of without_superelastic] by (simp add: without_superelastic_def)
  have w0: "without_superelastic s1 = without_superelastic (fst st)"
    using s1 by (auto simp: reverse_fields_Inr without_superelastic_def)
  show "without_superelastic (fst st') = without_superelastic (fst st)"
    using w0 w1 w2 by (simp add: st' without_superelastic_def)
  have b1: "energies_below n (fst st1) = energies_below n s1" for n
    using arg_cong [OF e1, of "energies_below n"] by (simp add: energies_below_def)
  have b2: "energies_below n (fst st2) = energies_below n (fst st1)" for n
    using arg_cong [OF e2, of "energies_below n"] by (simp add: energies_below_def)
  have b0: "energies_below (fst (snd st) + 1) s1 = energies_below (fst (snd st) + 1) (fst st)"
    using s1 by (auto simp: reverse_fields_Inr energies_below_def)
  show "energies_below (fst (snd st) + 1) (fst st') = energies_below (fst (snd st) + 1) (fst st)"
    using b0 b1 b2 by (simp add: st' energies_below_def)
qed

lemma energies_below_mono:
  assumes "energies_below m a = energies_below m b" and "n \<le> m"
  shows "energies_below n a = energies_below n b"
proof -
  have "take n xs = take n (take m xs)" for xs :: "'b list"
    using assms(2) by (simp add: min_def)
  then show ?thesis using assms(1) unfolding energies_below_def by (metis prod.inject)
qed

lemma superelastic_body_energy:
  assumes "superelastic_body ops P i st = Inr st'" and "n \<le> fst (snd st) + 1"
  shows "n \<le> fst (snd st') + 1"
    and "without_superelastic (fst st') = without_superelastic (fst st)"
    and "energies_below n (fst st') = energies_below n (fst st)"
proof -
  from assms(1) obtain rev st1 s2 where
    st1: "(if rev then reverse_reaction ops i st else Inr st) = Inr st1"
    and s2: "calculate_coefficients P (fst (snd st1)) (fst st1) = Inr s2"
    and st': "st' = (s2, snd st1)"
    unfolding superelastic_body_def then_do_Inr by auto
  have a: "fst (snd st) \<le> fst (snd st1) \<and>
           without_superelastic (fst st1) = without_superelastic (fst st) \<and>
           energies_below n (fst st1) = energies_below n (fst st)"
  proof (cases rev)
    case True
    with st1 have r: "reverse_reaction ops i st = Inr st1" by simp
    from reverse_reaction_energy [OF r] energies_below_mono [OF _ assms(2)]
    show ?thesis by simp
  next
    case False
    with st1 show ?thesis by simp
  qed
  note c = calculate_coefficients_frame [OF s2]
  have w: "without_superelastic s2 = without_superelastic (fst st1)"
    using arg_cong [OF c, of without_superelastic]
    by (simp add: without_superelastic_def without_counts_def)
  have e: "energies_below n s2 = energies_below n (fst st1)"
    using arg_cong [OF c, of "energies_below n"]
    by (simp add: energies_below_def without_counts_def)
  show "n \<le> fst (snd st') + 1" using a assms(2) by (simp add: st')
  show "without_superelastic (fst st') = without_superelastic (fst st)"
    using a w by (simp add: st')
  show "energies_below n (fst st') = energies_below n (fst st)"
    using a e by (simp add: st')
qed

lemma nth_resize:
  "idx < n \<Longrightarrow> resize n d xs ! idx = (if idx < length xs then xs ! idx else d)"
  by (simp add: resize_def nth_append)

lemma superelastic_synthesis_energy:
  assumes "superelastic_synthesis ops P s = Inr s'"
  shows "without_superelastic s' = without_superelastic s"
    and "num_reactions s' = num_reactions s + superelastic_reactions s"
    and "energies_below (num_reactions s) s' =
           (take (num_reactions s)
              (resize (num_reactions s + superelastic_reactions s) (r_of_int ops 0)
                 (threshold_energy s)),
            take (num_reactions s)
              (resize (num_reactions s + superelastic_reactions s) False (energy_change s)))"
proof -
  define n where "n = num_reactions s"
  define m where "m = n + superelastic_reactions s"
  define s1 where "s1 = s\<lparr> superelastic_index := resize m 0 (superelastic_index s),
                  superelastic_reaction := resize m False (superelastic_reaction s),
                  rate_coefficient := resize m (r_of_int ops 0) (rate_coefficient s),
                  threshold_energy := resize m (r_of_int ops 0) (threshold_energy s),
                  rate_equation := resize m False (rate_equation s),
                  species_count :=
                    resize m (replicate (length (p_species P)) 0) (species_count s),
                  reactants :=
                    resize (length (reactants s) + superelastic_reactions s) [] (reactants s),
                  products :=
                    resize (length (products s) + superelastic_reactions s) [] (products s),
                  energy_change := resize m False (energy_change s) \<rparr>"
  from assms obtain st where
    st: "(if 0 < superelastic_reactions s
          then for_loop [0..<n] (superelastic_body ops P) (s1, n - 1, [])
          else Inr (s1, n - 1, [])) = Inr st"
    and s': "s' = (fst st)\<lparr> num_reactions := n + superelastic_reactions s \<rparr>"
    unfolding superelastic_synthesis_def Let_def then_do_Inr n_def m_def s1_def by auto
  define I where "I = (\<lambda>st :: 'a crb \<times> nat \<times> string.
     n \<le> fst (snd st) + 1 \<and> without_superelastic (fst st) = without_superelastic s1 \<and>
     energies_below n (fst st) = energies_below n s1)"
  have I0: "I (s1, n - 1, [])" by (simp add: I_def)
  have "I st"
  proof (cases "0 < superelastic_reactions s")
    case True
    with st have loop: "for_loop [0..<n] (superelastic_body ops P) (s1, n - 1, []) = Inr st"
      by simp
    show ?thesis
    proof (rule for_loop_invariant [where I = I, OF loop I0])
      fix i t t'
      assume "i \<in> set [0..<n]" and "I t" and "superelastic_body ops P i t = Inr t'"
      then show "I t'"
        using superelastic_body_energy [of ops P i t t' n] by (simp add: I_def)
    qed
  next
    case False
    with st I0 show ?thesis by simp
  qed
  have w: "without_superelastic s1 = without_superelastic s"
    by (simp add: s1_def without_superelastic_def)
  show "without_superelastic s' = without_superelastic s"
    using \<open>I st\<close> w by (simp add: I_def s' without_superelastic_def)
  show "num_reactions s' = num_reactions s + superelastic_reactions s"
    by (simp add: s' n_def)
  show "energies_below (num_reactions s) s' =
           (take (num_reactions s)
              (resize (num_reactions s + superelastic_reactions s) (r_of_int ops 0)
                 (threshold_energy s)),
            take (num_reactions s)
              (resize (num_reactions s + superelastic_reactions s) False (energy_change s)))"
    using \<open>I st\<close> by (simp add: I_def s' energies_below_def s1_def n_def m_def)
qed

lemma participant_coefficients_frame:
  "participant_coefficients i s = Inr s' \<Longrightarrow> without_stoichiometry s' = without_stoichiometry s"
  by (auto simp: participant_coefficients_def then_do_Inr without_stoichiometry_def)

lemma reaction_coefficients_frame:
  "reaction_coefficients P i s = Inr s' \<Longrightarrow> without_stoichiometry s' = without_stoichiometry s"
  by (auto simp: reaction_coefficients_def then_do_Inr Let_def without_stoichiometry_def
      split: if_splits)

lemma stoichiometry_frame:
  assumes "stoichiometry P s = Inr s'"
  shows "without_stoichiometry s' = without_stoichiometry s"
proof -
  define s1 where "s1 = s\<lparr> all_participants := remdups_adj (sort (all_participants s)),
                  stoichiometric_coeff :=
                    resize (length (reaction s)) [] (stoichiometric_coeff s) \<rparr>"
  from assms obtain s2 s4 s5 where
    s2: "for_loop [0..<length (reaction s1)] participant_coefficients s1 = Inr s2"
    and s4: "for_loop [0..<num_reactions s2] (reaction_coefficients P)
          (s2\<lparr> reaction_participants :=
                         resize (num_reactions s2) [] (reaction_participants s2),
                       reaction_stoichiometric_coeff :=
                         resize (num_reactions s2) [] (reaction_stoichiometric_coeff s2),
                       species_index :=
                         map (find_pos (all_participants s2)) (p_species P) \<rparr>) = Inr s4"
    and s5: "(if p_electron_energy_valid P
                      then then_do (rd (p_electron_energy P) 0) (\<lambda>v.
                             Inr (s4\<lparr> energy_variable := energy_variable s4 @ [v] \<rparr>))
                      else Inr s4) = Inr s5"
    and s': "(if p_gas_energy_valid P
             then then_do (rd (p_gas_energy P) 0) (\<lambda>v.
                    Inr (s5\<lparr> energy_variable := energy_variable s5 @ [v] \<rparr>))
             else Inr s5) = Inr s'"
    unfolding stoichiometry_def Let_def then_do_Inr s1_def by auto
  have w1: "without_stoichiometry s1 = without_stoichiometry s"
    by (simp add: s1_def without_stoichiometry_def)
  have w2: "without_stoichiometry s2 = without_stoichiometry s1"
    by (rule for_loop_preserves [OF _ s2]) (rule participant_coefficients_frame)
  have w4: "without_stoichiometry s4 = without_stoichiometry s2"
    using for_loop_preserves [OF _ s4, of without_stoichiometry] reaction_coefficients_frame
    by (fastforce simp: without_stoichiometry_def)
  have w5: "without_stoichiometry s5 = without_stoichiometry s4"
    using s5 by (auto simp: then_do_Inr without_stoichiometry_def split: if_splits)
  have w6: "without_stoichiometry s' = without_stoichiometry s5"
    using s' by (auto simp: then_do_Inr without_stoichiometry_def split: if_splits)
  from w1 w2 w4 w5 w6 show ?thesis by simp
qed

lemma resolve_file_frame:
  "resolve_file fs P i s = Inr s' \<Longrightarrow> without_identifier s' = without_identifier s"
  by (auto simp: resolve_file_def Let_def without_identifier_def split: if_splits)

lemma check_files_frame:
  assumes "check_files fs P s = Inr s'"
  shows "without_identifier s' = without_identifier s"
  by (rule for_loop_preserves [OF _ assms [unfolded check_files_def]])
    (rule resolve_file_frame)

lemma constructor_stages:
  assumes "constructor ops fs P = Inr s"
  obtains s3 s5 s6 where "parse_reactions ops P = Inr s3"
    and "superelastic_synthesis ops P (lumped_expansion ops P s3) = Inr s5"
    and "stoichiometry P s5 = Inr s6" and "balance_check P s6 = Inr ()"
    and "check_files fs P s6 = Inr s"
  using assms
  unfolding constructor_def build_network_def expand_reactions_def then_do_Inr
  by auto

text \<open>
  Claim C9. The reactions that the lumped expansion creates stand at the indices from the
  number of reaction lines up to that number plus \<open>_lumped_reaction.size()\<close> times
  \<open>_lumped_species.size()\<close> (line 622). Whenever the constructor succeeds, each of them is
  a reaction of the network with threshold energy \<open>0\<close> and with the energy-change flag
  false: lines 622 to 647 copy neither field, the resizes at lines 660 and 667 fill them
  with \<open>0\<close> and \<open>false\<close>, and the superelastic loop writes only at higher indices.
\<close>

theorem C9_lumped_copies_without_energy:
  assumes "constructor ops fs P = Inr s" and "p_lumped_species P"
    and "length (rate_coefficient_string s) \<le> idx"
    and "idx < length (rate_coefficient_string s) +
                 length (lumped_reaction s) * length (p_lumped P)"
  shows "idx < num_reactions s \<and> threshold_energy s ! idx = r_of_int ops 0 \<and>
         \<not> energy_change s ! idx"
proof -
  from assms(1) obtain s3 s5 s6 where s3: "parse_reactions ops P = Inr s3"
    and s5: "superelastic_synthesis ops P (lumped_expansion ops P s3) = Inr s5"
    and s6: "stoichiometry P s5 = Inr s6" and s: "check_files fs P s6 = Inr s"
    by (rule constructor_stages)
  define s4 where "s4 = lumped_expansion ops P s3"
  define n where "n = length (rate_coefficient_string s3)"
  from parse_reactions_stages [OF s3] obtain lfs s1 s2 where
    lr: "lines_read lfs s1"
    and w2: "without_rates s2 = without_rates s1" and sized: "rates_sized (length lfs) s2"
    and w3: "without_split s3 = without_split s2"
    by blast
  have f2: "f s2 = f s1" if "\<And>t. f (without_rates t) = f t" for f :: "'a crb \<Rightarrow> 'b"
    using w2 that by (rule frame_field)
  have f3: "f s3 = f s2" if "\<And>t. f (without_split t) = f t" for f :: "'a crb \<Rightarrow> 'b"
    using w3 that by (rule frame_field)
  have "rate_coefficient_string s3 = rate_coefficient_string s1"
    using f2 [of rate_coefficient_string] f3 [of rate_coefficient_string]
    by (simp add: without_rates_def without_split_def)
  then have n_lfs: "n = length lfs" using lr by (simp add: n_def lines_read_def)
  have "energy_change s3 = energy_change s1"
    using f2 [of energy_change] f3 [of energy_change]
    by (simp add: without_rates_def without_split_def)
  then have ec3: "length (energy_change s3) = n" using lr by (simp add: n_lfs lines_read_def)
  have "threshold_energy s3 = threshold_energy s2"
    using f3 [of threshold_energy] by (simp add: without_split_def)
  then have te3: "length (threshold_energy s3) = n" using sized by (simp add: n_lfs rates_sized_def)
  have "num_reactions s3 = num_reactions s2"
    using f3 [of num_reactions] by (simp add: without_split_def)
  then have nr3: "num_reactions s3 = n" using sized by (simp add: n_lfs rates_sized_def)
  have w4: "without_lumped s4 = without_lumped s3"
    unfolding s4_def by (rule lumped_expansion_frame)
  have f4: "f s4 = f s3" if "\<And>t. f (without_lumped t) = f t" for f :: "'a crb \<Rightarrow> 'b"
    using w4 that by (rule frame_field)
  have s4_eq: "threshold_energy s4 = threshold_energy s3" "energy_change s4 = energy_change s3"
    "rate_coefficient_string s4 = rate_coefficient_string s3"
    "lumped_reaction s4 = lumped_reaction s3"
    using f4 [of threshold_energy] f4 [of energy_change] f4 [of rate_coefficient_string]
      f4 [of lumped_reaction]
    by (simp_all add: without_lumped_def)
  have nr4: "num_reactions s4 = n + length (lumped_reaction s3) * length (p_lumped P)"
    unfolding s4_def using assms(2) nr3 by (simp add: lumped_expansion_num_reactions)
  note sup = superelastic_synthesis_energy [OF s5 [folded s4_def]]
  have f5: "f s5 = f s4" if "\<And>t. f (without_superelastic t) = f t" for f :: "'a crb \<Rightarrow> 'b"
    using sup(1) that by (rule frame_field)
  have s5_eq: "rate_coefficient_string s5 = rate_coefficient_string s4"
    "lumped_reaction s5 = lumped_reaction s4"
    using f5 [of rate_coefficient_string] f5 [of lumped_reaction]
    by (simp_all add: without_superelastic_def)
  have f6: "f s6 = f s5" if "\<And>t. f (without_stoichiometry t) = f t" for f :: "'a crb \<Rightarrow> 'b"
    using stoichiometry_frame [OF s6] that by (rule frame_field)
  have f7: "f s = f s6" if "\<And>t. f (without_identifier t) = f t" for f :: "'a crb \<Rightarrow> 'b"
    using check_files_frame [OF s] that by (rule frame_field)
  have s_eq: "rate_coefficient_string s = rate_coefficient_string s5"
    "lumped_reaction s = lumped_reaction s5" "threshold_energy s = threshold_energy s5"
    "energy_change s = energy_change s5" "num_reactions s = num_reactions s5"
    using f6 [of rate_coefficient_string] f6 [of lumped_reaction] f6 [of threshold_energy]
      f6 [of energy_change] f6 [of num_reactions]
      f7 [of rate_coefficient_string] f7 [of lumped_reaction] f7 [of threshold_energy]
      f7 [of energy_change] f7 [of num_reactions]
    by (simp_all add: without_stoichiometry_def without_identifier_def)
  have lo: "n \<le> idx" using assms(3) s_eq s5_eq s4_eq by (simp add: n_def)
  have hi: "idx < num_reactions s4"
    using assms(4) s_eq s5_eq s4_eq nr4 by (simp add: n_def)
  have "take (num_reactions s4) (threshold_energy s5) =
          take (num_reactions s4)
            (resize (num_reactions s4 + superelastic_reactions s4) (r_of_int ops 0)
               (threshold_energy s4))"
    and "take (num_reactions s4) (energy_change s5) =
          take (num_reactions s4)
            (resize (num_reactions s4 + superelastic_reactions s4) False (energy_change s4))"
    using sup(3) by (simp_all add: energies_below_def)
  from arg_cong [OF this(1), of "\<lambda>xs. xs ! idx"] arg_cong [OF this(2), of "\<lambda>xs. xs ! idx"]
  have "threshold_energy s5 ! idx = r_of_int ops 0" and "\<not> energy_change s5 ! idx"
    using hi lo te3 ec3 s4_eq by (simp_all add: nth_resize)
  moreover have "idx < num_reactions s" using hi sup(2) s_eq by simp
  ultimately show ?thesis using s_eq by simp
qed

text \<open>
  Witness of C9: the template \<^verbatim>\<open>A + M -> B : 1 [5]\<close> has the threshold energy \<open>5\<close>, its two
  copies for \<open>X\<close> and \<open>Y\<close> have the threshold energy \<open>0\<close> and no energy change.
\<close>

theorem C9_lumped_copies_without_energy_witness:
  "\<exists>s. constructor x_ops (\<lambda>path. False)
          (default_params\<lparr> p_species := [''A'', ''B''], p_lumped_species := True,
             p_lumped_valid := True, p_lumped := [''X'', ''Y''], p_lumped_name := ''M'',
             p_gas_energy_valid := True, p_gas_energy := [''Tgas''],
             p_reactions := ''A + M -> B : 1 [5]'' \<rparr>) = Inr s \<and>
       length (rate_coefficient_string s) = 1 \<and> length (lumped_reaction s) = 1 \<and>
       reactants s = [[''A'', ''M''], [''A'', ''X''], [''A'', ''Y'']] \<and>
       threshold_energy s ! 0 = Val 5 \<and> energy_change s ! 0 \<and>
       threshold_energy s ! 1 = Val 0 \<and> \<not> energy_change s ! 1 \<and>
       threshold_energy s ! 2 = Val 0 \<and> \<not> energy_change s ! 2"
proof -
  define P where "P = default_params\<lparr> p_species := [''A'', ''B''], p_lumped_species := True,
             p_lumped_valid := True, p_lumped := [''X'', ''Y''], p_lumped_name := ''M'',
             p_gas_energy_valid := True, p_gas_energy := [''Tgas''],
             p_reactions := ''A + M -> B : 1 [5]'' \<rparr>"
  have "\<exists>s. constructor x_ops (\<lambda>path. False) P = Inr s \<and>
          length (rate_coefficient_string s) = 1 \<and> length (lumped_reaction s) = 1 \<and>
          reactants s = [[''A'', ''M''], [''A'', ''X''], [''A'', ''Y'']] \<and>
          threshold_energy s ! 0 = Val 5 \<and> energy_change s ! 0"
    unfolding P_def by (simp add: model_defs)
  then obtain s where s: "constructor x_ops (\<lambda>path. False) P = Inr s"
      "length (rate_coefficient_string s) = 1" "length (lumped_reaction s) = 1"
      "reactants s = [[''A'', ''M''], [''A'', ''X''], [''A'', ''Y'']]"
      "threshold_energy s ! 0 = Val 5" "energy_change s ! 0"
    by blast
  have P: "p_lumped_species P" "length (p_lumped P) = 2"
    by (simp_all add: P_def default_params_def)
  have "threshold_energy s ! 1 = Val 0 \<and> \<not> energy_change s ! 1"
    using C9_lumped_copies_without_energy [OF s(1) P(1), of 1] s(2,3) P(2)
    by (simp add: x_ops_def)
  moreover have "threshold_energy s ! 2 = Val 0 \<and> \<not> energy_change s ! 2"
    using C9_lumped_copies_without_energy [OF s(1) P(1), of 2] s(2,3) P(2)
    by (simp add: x_ops_def)
  ultimately show ?thesis using s unfolding P_def by blast
qed

text \<open>
  Claim C1 fails on the code for the table \<^verbatim>\<open>_species_count\<close>. The block that calculates
  the coefficients at lines 736 to 759 stands outside the \<^verbatim>\<open>if\<close> of line 673 and runs for
  every \<open>i\<close> on the current \<open>new_index\<close>, which starts at the last reaction. With the
  reactions \<^verbatim>\<open>A -> B\<close> and \<^verbatim>\<open>C <=> D\<close>, the pass for \<open>i = 0\<close> counts the reaction \<^verbatim>\<open>C <=> D\<close>
  a second time: its row holds \<open>-2\<close> for \<open>C\<close> and \<open>2\<close> for \<open>D\<close>, where \<open>C\<close> occurs once among
  the reactants and not among the products. The table \<^verbatim>\<open>_reaction_stoichiometric_coeff\<close>
  of lines 843 to 862 holds the right values \<open>-1\<close> and \<open>1\<close>.
\<close>

theorem C1_species_count_counted_twice:
  "\<exists>s. constructor x_ops (\<lambda>path. False)
          (default_params\<lparr> p_species := [''A'', ''B'', ''C'', ''D''],
             p_reactions := ''A -> B : 1'' @ [CHR 0x0A] @ ''C <=> D : 1'' \<rparr>) = Inr s \<and>
       reactants s ! 1 = [''C''] \<and> products s ! 1 = [''D''] \<and>
       species_count s ! 1 = [0, 0, - 2, 2] \<and>
       int (count_list (products s ! 1) ''C'') - int (count_list (reactants s ! 1) ''C'') = - 1 \<and>
       reaction_participants s ! 1 = [''C'', ''D''] \<and>
       reaction_stoichiometric_coeff s ! 1 = [- 1, 1]"
  by (simp add: model_defs)

text \<open>
  Claim C2 fails on the code. A reversible reaction with the lumped name is copied by the
  lumped expansion together with its flag (line 630), but \<open>superelastic_reactions\<close> was
  counted on the lines of the text. With \<^verbatim>\<open>A + M <=> B\<close> and one lumped species there are
  two reversible reactions and room for one new reaction: the second pass writes
  \<^verbatim>\<open>_superelastic_index[3]\<close> in a vector of size 3 (and reads \<^verbatim>\<open>_num_products[1]\<close> in a
  vector of size 1).
\<close>

theorem C2_reversible_lumped_reaction_undefined:
  "constructor x_ops (\<lambda>path. False)
     (default_params\<lparr> p_species := [''A'', ''B'', ''X''], p_lumped_species := True,
        p_lumped_valid := True, p_lumped := [''X''], p_lumped_name := ''M'',
        p_reactions := ''A + M <=> B : 1'' \<rparr>) = Inl UndefinedBehaviour"
  by (simp add: model_defs)

text \<open>
  Claim C3 fails on the code. Line 534 pushes the reaction on \<^verbatim>\<open>_lumped_reaction\<close> once for
  every reactant that is the lumped name. With \<^verbatim>\<open>M + M -> B\<close> and the one lumped species
  \<open>X\<close>, the template is listed twice and two copies \<^verbatim>\<open>X + X -> B\<close> are appended, not one.
\<close>

theorem C3_placeholder_twice_two_copies:
  "\<exists>s. constructor x_ops (\<lambda>path. False)
          (default_params\<lparr> p_species := [''B'', ''X''], p_lumped_species := True,
             p_lumped_valid := True, p_lumped := [''X''], p_lumped_name := ''M'',
             p_reactions := ''M + M -> B : 1'' \<rparr>) = Inr s \<and>
       num_reactions s = 3 \<and> lumped_reaction s = [0, 0] \<and>
       reaction_lumped s = [True, False, False] \<and>
       reactants s = [[''M'', ''M''], [''X'', ''X''], [''X'', ''X'']] \<and>
       products s = [[''B''], [''B''], [''B'']]"
  by (simp add: model_defs)


section \<open>The stoichiometric coefficients of the reactions\<close>

lemma fold_nth: "fold (\<lambda>k. f (xs ! k)) [0..<length xs] a = fold f xs a"
proof -
  have "fold f (map ((!) xs) [0..<length xs]) a = fold (f \<circ> (!) xs) [0..<length xs] a"
    by (simp only: fold_map)
  then show ?thesis by (simp only: map_nth comp_def)
qed

lemma tally_count: "tally xs name d c = c + d * int (count_list xs name)"
proof -
  have "fold (\<lambda>x c. if x = name then c + d else c) xs c = c + d * int (count_list xs name)"
    by (induction xs arbitrary: c) (simp_all add: algebra_simps)
  then show ?thesis
    unfolding tally_def using fold_nth [of "\<lambda>x c. if x = name then c + d else c" xs c]
    by simp
qed

lemma tally_net:
  "tally ps name 1 (tally rs name (- 1) 0) = net_coefficient rs ps name"
  by (simp add: tally_count net_coefficient_def)

lemma find_pos_member: "find_pos xs x \<noteq> length xs \<longleftrightarrow> x \<in> set xs"
  by (induction xs) (auto simp: find_pos_def)

lemma tracked_participants:
  "fold (\<lambda>j acc. if find_pos species (names ! j) \<noteq> length species
                  then acc @ [names ! j] else acc) [0..<length names] acc =
   acc @ filter (\<lambda>x. x \<in> set species) names"
proof -
  have "fold (\<lambda>x acc. if find_pos species x \<noteq> length species then acc @ [x] else acc)
          names acc = acc @ filter (\<lambda>x. x \<in> set species) names"
    by (induction names arbitrary: acc) (simp_all add: find_pos_member)
  then show ?thesis
    using fold_nth [of "\<lambda>x acc. if find_pos species x \<noteq> length species then acc @ [x] else acc"
        names acc]
    by simp
qed

lemma fold_update_rows:
  "k \<le> length row \<Longrightarrow>
   fold (\<lambda>j row. row[j := g j (row ! j)]) [0..<k] row =
     map (\<lambda>j. g j (row ! j)) [0..<k] @ drop k row"
proof (induction k)
  case 0
  then show ?case by simp
next
  case (Suc k)
  then have k: "k < length row" by simp
  have d: "drop k row = row ! k # drop (Suc k) row"
    using k by (simp add: Cons_nth_drop_Suc)
  have "(map (\<lambda>j. g j (row ! j)) [0..<k] @ drop k row)
          [k := g k ((map (\<lambda>j. g j (row ! j)) [0..<k] @ drop k row) ! k)] =
        map (\<lambda>j. g j (row ! j)) [0..<k] @ g k (row ! k) # drop (Suc k) row"
    unfolding d by (simp add: list_update_append nth_append)
  then show ?case using Suc by simp
qed

lemma coefficient_row:
  "fold (\<lambda>j row. row[j := tally ps (names ! j) 1 (tally rs (names ! j) (- 1) (row ! j))])
     [0..<length names] (resize (length names) 0 []) =
   map (net_coefficient rs ps) names"
proof -
  have len: "length names \<le> length (resize (length names) (0::int) [])" by simp
  have z: "resize (length names) (0::int) [] ! j = 0" if "j < length names" for j
    using that by (simp add: resize_def)
  have "map (\<lambda>j. tally ps (names ! j) 1
                (tally rs (names ! j) (- 1) (resize (length names) 0 [] ! j)))
          [0..<length names] = map (net_coefficient rs ps) names"
    by (rule nth_equalityI) (simp_all add: z tally_net)
  then show ?thesis
    using fold_update_rows [OF len,
        of "\<lambda>j c. tally ps (names ! j) 1 (tally rs (names ! j) (- 1) c)"]
    by simp
qed

lemma reaction_coefficients_Inr:
  assumes "reaction_coefficients P i s = Inr s'"
    and "reaction_participants s ! i = []" and "reaction_stoichiometric_coeff s ! i = []"
  shows "s' = s\<lparr> reaction_participants := (reaction_participants s)
                   [i := tracked_of P (reactants s ! i) (products s ! i)],
                reaction_stoichiometric_coeff := (reaction_stoichiometric_coeff s)
                   [i := map (net_coefficient (reactants s ! i) (products s ! i))
                           (tracked_of P (reactants s ! i) (products s ! i))] \<rparr>"
  using assms(1)
  unfolding reaction_coefficients_def Let_def then_do_Inr rd_Inr assms(2,3)
    tracked_participants coefficient_row append_Nil tracked_of_def [symmetric]
  by (auto split: if_splits)


lemma stoichiometry_rows:
  assumes "stoichiometry P s = Inr s'"
    and "reaction_participants s = []" and "reaction_stoichiometric_coeff s = []"
    and "i < num_reactions s"
  shows "reaction_participants s' ! i = tracked_of P (reactants s ! i) (products s ! i) \<and>
         reaction_stoichiometric_coeff s' ! i =
           map (net_coefficient (reactants s ! i) (products s ! i))
             (tracked_of P (reactants s ! i) (products s ! i))"
proof -
  define s1 where "s1 = s\<lparr> all_participants := remdups_adj (sort (all_participants s)),
                  stoichiometric_coeff :=
                    resize (length (reaction s)) [] (stoichiometric_coeff s) \<rparr>"
  from assms(1) obtain s2 s4 s5 where
    s2: "for_loop [0..<length (reaction s1)] participant_coefficients s1 = Inr s2"
    and s4: "for_loop [0..<num_reactions s2] (reaction_coefficients P)
          (s2\<lparr> reaction_participants :=
                         resize (num_reactions s2) [] (reaction_participants s2),
                       reaction_stoichiometric_coeff :=
                         resize (num_reactions s2) [] (reaction_stoichiometric_coeff s2),
                       species_index :=
                         map (find_pos (all_participants s2)) (p_species P) \<rparr>) = Inr s4"
    and s5: "(if p_electron_energy_valid P
                      then then_do (rd (p_electron_energy P) 0) (\<lambda>v.
                             Inr (s4\<lparr> energy_variable := energy_variable s4 @ [v] \<rparr>))
                      else Inr s4) = Inr s5"
    and s': "(if p_gas_energy_valid P
             then then_do (rd (p_gas_energy P) 0) (\<lambda>v.
                    Inr (s5\<lparr> energy_variable := energy_variable s5 @ [v] \<rparr>))
             else Inr s5) = Inr s'"
    unfolding stoichiometry_def Let_def then_do_Inr s1_def by auto
  define n where "n = num_reactions s"
  define s3 where "s3 = s2\<lparr> reaction_participants :=
                         resize (num_reactions s2) [] (reaction_participants s2),
                       reaction_stoichiometric_coeff :=
                         resize (num_reactions s2) [] (reaction_stoichiometric_coeff s2),
                       species_index :=
                         map (find_pos (all_participants s2)) (p_species P) \<rparr>"
  define core where "core = (\<lambda>t :: 'a crb. (reactants t, products t, num_reactions t,
       reaction_participants t, reaction_stoichiometric_coeff t))"
  have "core s2 = core s1"
    by (rule for_loop_preserves [OF _ s2])
      (auto simp: participant_coefficients_def then_do_Inr core_def)
  then have c2: "reactants s2 = reactants s" "products s2 = products s" "num_reactions s2 = n"
    "reaction_participants s2 = []" "reaction_stoichiometric_coeff s2 = []"
    using assms(2,3) by (simp_all add: core_def s1_def n_def)
  define row where "row = (\<lambda>j. tracked_of P (reactants s ! j) (products s ! j))"
  define I where "I = (\<lambda>k t :: 'a crb. reactants t = reactants s \<and> products t = products s \<and>
      length (reaction_participants t) = n \<and> length (reaction_stoichiometric_coeff t) = n \<and>
      (\<forall>j<n. if j < k
              then reaction_participants t ! j = row j \<and>
                   reaction_stoichiometric_coeff t ! j =
                     map (net_coefficient (reactants s ! j) (products s ! j)) (row j)
              else reaction_participants t ! j = [] \<and>
                   reaction_stoichiometric_coeff t ! j = []))"
  have loop: "for_loop [0..<n] (reaction_coefficients P) s3 = Inr s4"
    using s4 c2 by (simp add: s3_def)
  have "I n s4"
  proof (rule for_loop_upt_invariant [where I = I, OF loop])
    show "I 0 s3" using c2 by (simp add: I_def s3_def nth_resize)
  next
    fix k t t'
    assume k: "k < n" and I: "I k t" and b: "reaction_coefficients P k t = Inr t'"
    from I k have e: "reaction_participants t ! k = []"
      "reaction_stoichiometric_coeff t ! k = []"
      by (simp_all add: I_def)
    note t' = reaction_coefficients_Inr [OF b e]
    have r: "reactants t = reactants s" "products t = products s" using I by (simp_all add: I_def)
    have len: "length (reaction_participants t) = n" "length (reaction_stoichiometric_coeff t) = n"
      using I by (simp_all add: I_def)
    have "reactants t' = reactants s" "products t' = products s"
      "length (reaction_participants t') = n" "length (reaction_stoichiometric_coeff t') = n"
      by (subst t', simp add: r len)+
    moreover have "if j < Suc k
              then reaction_participants t' ! j = row j \<and>
                   reaction_stoichiometric_coeff t' ! j =
                     map (net_coefficient (reactants s ! j) (products s ! j)) (row j)
              else reaction_participants t' ! j = [] \<and>
                   reaction_stoichiometric_coeff t' ! j = []" if j: "j < n" for j
    proof (cases "j = k")
      case True
      have "reaction_participants t' ! k = row k"
        "reaction_stoichiometric_coeff t' ! k =
           map (net_coefficient (reactants s ! k) (products s ! k)) (row k)"
        by (subst t', simp add: r len k row_def)+
      with True show ?thesis by simp
    next
      case False
      have "reaction_participants t' ! j = reaction_participants t ! j"
        "reaction_stoichiometric_coeff t' ! j = reaction_stoichiometric_coeff t ! j"
        by (subst t', simp add: False [symmetric] nth_list_update_neq)+
      moreover from I j have "if j < k
              then reaction_participants t ! j = row j \<and>
                   reaction_stoichiometric_coeff t ! j =
                     map (net_coefficient (reactants s ! j) (products s ! j)) (row j)
              else reaction_participants t ! j = [] \<and>
                   reaction_stoichiometric_coeff t ! j = []"
        by (simp add: I_def)
      ultimately show ?thesis using False by (auto simp: less_Suc_eq)
    qed
    ultimately show "I (Suc k) t'" by (simp add: I_def)
  qed
  then have r4: "reaction_participants s4 ! i = row i"
    "reaction_stoichiometric_coeff s4 ! i =
       map (net_coefficient (reactants s ! i) (products s ! i)) (row i)"
    using assms(4) by (simp_all add: I_def n_def)
  have "reaction_participants s5 = reaction_participants s4"
    "reaction_stoichiometric_coeff s5 = reaction_stoichiometric_coeff s4"
    using s5 by (auto simp: then_do_Inr split: if_splits)
  moreover have "reaction_participants s' = reaction_participants s5"
    "reaction_stoichiometric_coeff s' = reaction_stoichiometric_coeff s5"
    using s' by (auto simp: then_do_Inr split: if_splits)
  ultimately show ?thesis using r4 by (simp add: row_def)
qed


lemma expansion_frame:
  fixes f :: "'a crb \<Rightarrow> 'b"
  assumes "parse_reactions ops P = Inr s3"
    and "superelastic_synthesis ops P (lumped_expansion ops P s3) = Inr s5"
    and l: "\<And>t. f (without_lines t) = f t" and r: "\<And>t. f (without_rates t) = f t"
    and sp: "\<And>t. f (without_split t) = f t" and lu: "\<And>t. f (without_lumped t) = f t"
    and su: "\<And>t. f (without_superelastic t) = f t"
  shows "f s5 = f (crb_init :: 'a crb)"
proof -
  from parse_reactions_stages [OF assms(1)] obtain lfs s1 s2 where
    w1: "without_lines s1 = crb_init"
    and w2: "without_rates s2 = without_rates s1"
    and w3: "without_split s3 = without_split s2"
    by blast
  have w4: "without_lumped (lumped_expansion ops P s3) = without_lumped s3"
    by (rule lumped_expansion_frame)
  note w5 = superelastic_synthesis_energy(1) [OF assms(2)]
  have "f s5 = f (lumped_expansion ops P s3)" using w5 su by (rule frame_field)
  also have "\<dots> = f s3" using w4 lu by (rule frame_field)
  also have "\<dots> = f s2" using w3 sp by (rule frame_field)
  also have "\<dots> = f s1" using w2 r by (rule frame_field)
  also have "\<dots> = f (without_lines s1)" by (simp add: l)
  finally show ?thesis by (simp add: w1)
qed

lemma expansion_keeps_coefficient_tables:
  assumes "parse_reactions ops P = Inr s3"
    and "superelastic_synthesis ops P (lumped_expansion ops P s3) = Inr s5"
  shows "reaction_participants s5 = []" and "reaction_stoichiometric_coeff s5 = []"
proof -
  have "reaction_participants s5 = reaction_participants (crb_init :: 'a crb)"
    by (rule expansion_frame [OF assms])
      (simp_all add: without_lines_def without_rates_def without_split_def without_lumped_def
        without_superelastic_def)
  thus "reaction_participants s5 = []" by (simp add: crb_init_def)
  have "reaction_stoichiometric_coeff s5 = reaction_stoichiometric_coeff (crb_init :: 'a crb)"
    by (rule expansion_frame [OF assms])
      (simp_all add: without_lines_def without_rates_def without_split_def without_lumped_def
        without_superelastic_def)
  thus "reaction_stoichiometric_coeff s5 = []" by (simp add: crb_init_def)
qed

lemma reaction_stoichiometric_coeff_correct:
  assumes "constructor ops fs P = Inr s" and "i < num_reactions s"
  shows "reaction_participants s ! i = tracked_of P (reactants s ! i) (products s ! i) \<and>
         reaction_stoichiometric_coeff s ! i =
           map (net_coefficient (reactants s ! i) (products s ! i)) (reaction_participants s ! i)"
proof -
  from assms(1) obtain s3 s5 s6 where s3: "parse_reactions ops P = Inr s3"
    and s5: "superelastic_synthesis ops P (lumped_expansion ops P s3) = Inr s5"
    and s6: "stoichiometry P s5 = Inr s6" and s: "check_files fs P s6 = Inr s"
    by (rule constructor_stages)
  note empty = expansion_keeps_coefficient_tables [OF s3 s5]
  note f6 = frame_field [where w = without_stoichiometry, OF stoichiometry_frame [OF s6]]
  note f7 = frame_field [where w = without_identifier, OF check_files_frame [OF s]]
  have eqs: "num_reactions s = num_reactions s5" "reactants s = reactants s5"
    "products s = products s5"
    using f6 [where f = num_reactions] f6 [where f = reactants] f6 [where f = products]
      f7 [where f = num_reactions] f7 [where f = reactants] f7 [where f = products]
    by (simp_all add: without_stoichiometry_def without_identifier_def)
  have eq7: "reaction_participants s = reaction_participants s6"
    "reaction_stoichiometric_coeff s = reaction_stoichiometric_coeff s6"
    using f7 [where f = reaction_participants] f7 [where f = reaction_stoichiometric_coeff]
    by (simp_all add: without_identifier_def)
  have i: "i < num_reactions s5" using assms(2) eqs by simp
  from stoichiometry_rows [OF s6 empty i] show ?thesis by (simp add: eqs eq7)
qed

section \<open>The network the constructor builds\<close>

lemma map_nth_upt: "map (\<lambda>k. f (xs ! k)) [0..<length xs] = map f xs"
proof -
  have "map (\<lambda>k. f (xs ! k)) [0..<length xs] = map f (map ((!) xs) [0..<length xs])"
    by (simp only: map_map comp_def)
  then show ?thesis by (simp only: map_nth)
qed

lemma fold_append_reactants:
  assumes "idx < length (reactants s)" and "t \<noteq> idx"
  shows "fold (\<lambda>k s. s\<lparr> reactants := (reactants s)
                 [idx := reactants s ! idx @ [h (reactants s ! t ! k)]] \<rparr>) [0..<m] s =
         s\<lparr> reactants := (reactants s)
               [idx := reactants s ! idx @ map (\<lambda>k. h (reactants s ! t ! k)) [0..<m]] \<rparr>"
proof (induction m)
  case 0
  then show ?case by simp
next
  case (Suc m)
  show ?case using assms by (simp add: Suc.IH)
qed

lemma fold_append_products:
  assumes "idx < length (products s)" and "t \<noteq> idx"
  shows "fold (\<lambda>k s. s\<lparr> products := (products s)
                 [idx := products s ! idx @ [h (products s ! t ! k)]] \<rparr>) [0..<m] s =
         s\<lparr> products := (products s)
               [idx := products s ! idx @ map (\<lambda>k. h (products s ! t ! k)) [0..<m]] \<rparr>"
proof (induction m)
  case 0
  then show ?case by simp
next
  case (Suc m)
  show ?case using assms by (simp add: Suc.IH)
qed

lemma lumped_copy_eq:
  assumes "old_num + a * length (p_lumped P) + c < length (reactants s)"
    and "old_num + a * length (p_lumped P) + c < length (products s)"
    and "lumped_reaction s ! a \<noteq> old_num + a * length (p_lumped P) + c"
    and "reactants s ! (old_num + a * length (p_lumped P) + c) = []"
    and "products s ! (old_num + a * length (p_lumped P) + c) = []"
  shows "lumped_copy P old_num a c s =
     (let idx = old_num + a * length (p_lumped P) + c; t = lumped_reaction s ! a
      in s\<lparr> reaction := (reaction s)[idx := reaction s ! t],
            rate_coefficient := (rate_coefficient s)[idx := rate_coefficient s ! t],
            rate_type := (rate_type s)[idx := rate_type s ! t],
            rate_equation_string :=
              (rate_equation_string s)[idx := rate_equation_string s ! t],
            superelastic_reaction :=
              (superelastic_reaction s)[idx := superelastic_reaction s ! t],
            reversible_reaction :=
              (reversible_reaction s)[idx := reversible_reaction s ! t],
            reaction_lumped := (reaction_lumped s)[idx := False],
            species_count := (species_count s)[idx := species_count s ! t],
            reactants := (reactants s)[idx := map (lumped_replace P c) (reactants s ! t)],
            products := (products s)[idx := map (lumped_replace P c) (products s ! t)] \<rparr>)"
proof -
  define idx where "idx = old_num + a * length (p_lumped P) + c"
  define t where "t = lumped_reaction s ! a"
  note a = assms [folded idx_def t_def]
  have h: "(if x = p_lumped_name P then p_lumped P ! c else x) = lumped_replace P c x" for x
    by (simp add: lumped_replace_def)
  show ?thesis
    unfolding lumped_copy_def Let_def idx_def [symmetric] t_def [symmetric] h
    using a
    by (simp add: fold_append_reactants [where h = "lumped_replace P c"]
          fold_append_products [where h = "lumped_replace P c"] map_nth_upt)
qed


lemma fold_upt_invariant:
  assumes "I 0 s" and "\<And>k t. k < n \<Longrightarrow> I k t \<Longrightarrow> I (Suc k) (g k t)"
  shows "I n (fold g [0..<n] s)"
  using assms(2)
proof (induction n)
  case 0
  show ?case using assms(1) by simp
next
  case (Suc n)
  have "I n (fold g [0..<n] s)" using Suc.prems by (intro Suc.IH) simp
  then show ?case using Suc.prems [of n] by simp
qed

lemma mixed_radix_unique:
  assumes "a * L + c = a' * L + c'" and "c < L" and "c' < L"
  shows "a = a'" and "c = (c' :: nat)"
proof -
  have "(a * L + c) div L = a" "(a' * L + c') div L = a'" using assms(2,3) by simp_all
  then show "a = a'" using assms(1) by simp
  then show "c = c'" using assms(1) by simp
qed

lemma lumped_copy_step:
  assumes I: "lumped_progress P s n0 n (a * length (p_lumped P) + c) t"
    and a: "a < length (lumped_reaction s)" and c: "c < length (p_lumped P)"
    and n: "n = n0 + length (lumped_reaction s) * length (p_lumped P)"
    and bound: "\<forall>x\<in>set (lumped_reaction s). x < n0"
  shows "lumped_progress P s n0 n (Suc (a * length (p_lumped P) + c)) (lumped_copy P n0 a c t)"
proof -
  define L where "L = length (p_lumped P)"
  define idx where "idx = n0 + a * L + c"
  define t0 where "t0 = lumped_reaction s ! a"
  note I' = I [unfolded lumped_progress_def, folded L_def]
  have "Suc a * L \<le> length (lumped_reaction s) * L" using a by (intro mult_le_mono1) simp
  then have idx: "idx < n" using c by (simp add: idx_def n L_def)
  have t0: "t0 < n0" using a bound by (simp add: t0_def)
  have ne: "t0 \<noteq> idx" using t0 by (simp add: idx_def)
  have lr: "lumped_reaction t = lumped_reaction s" using I' by simp
  have sized: "slots_sized n t" using I' by simp
  have empty: "reactants t ! idx = []" "products t ! idx = []"
    using I' idx by (simp_all add: idx_def)
  have eq: "lumped_copy P n0 a c t =
      t\<lparr> reaction := (reaction t)[idx := reaction t ! t0],
         rate_coefficient := (rate_coefficient t)[idx := rate_coefficient t ! t0],
         rate_type := (rate_type t)[idx := rate_type t ! t0],
         rate_equation_string := (rate_equation_string t)[idx := rate_equation_string t ! t0],
         superelastic_reaction :=
           (superelastic_reaction t)[idx := superelastic_reaction t ! t0],
         reversible_reaction := (reversible_reaction t)[idx := reversible_reaction t ! t0],
         reaction_lumped := (reaction_lumped t)[idx := False],
         species_count := (species_count t)[idx := species_count t ! t0],
         reactants := (reactants t)[idx := map (lumped_replace P c) (reactants t ! t0)],
         products := (products t)[idx := map (lumped_replace P c) (products t ! t0)] \<rparr>"
    using lumped_copy_eq [of n0 a P c t] idx sized ne empty
    by (simp add: Let_def idx_def L_def t0_def lr slots_sized_def)
  define t' where "t' = lumped_copy P n0 a c t"
  have other: "slot t' j = slot t j" if "j \<noteq> idx" for j
    using that by (simp add: t'_def eq slot_def)
  have at: "slot t' idx = lumped_slot P c (slot t t0)"
    using idx sized by (simp add: t'_def eq slot_def lumped_slot_def slots_sized_def)
  have "slots_sized n t'" using sized by (simp add: t'_def eq slots_sized_def)
  moreover have "lumped_reaction t' = lumped_reaction s" using lr by (simp add: t'_def eq)
  moreover have "\<forall>j<n0. slot t' j = slot s j"
    using other I' by (simp add: idx_def)
  moreover have "\<forall>j. n0 + Suc (a * L + c) \<le> j \<and> j < n \<longrightarrow>
      reactants t' ! j = [] \<and> products t' ! j = []"
    using I' by (simp add: t'_def eq idx_def)
  moreover have "slot t' (n0 + a' * L + c') = lumped_slot P c' (slot s (lumped_reaction s ! a'))"
    if "c' < L" and "a' * L + c' < Suc (a * L + c)" for a' c'
  proof (cases "a' * L + c' = a * L + c")
    case True
    from mixed_radix_unique [OF True that(1) c [folded L_def]]
    have "a' = a" "c' = c" by simp_all
    moreover have "slot t t0 = slot s t0" using I' t0 by simp
    ultimately show ?thesis using at by (simp add: idx_def t0_def)
  next
    case False
    with that have lt: "a' * L + c' < a * L + c" by simp
    then have "n0 + a' * L + c' \<noteq> idx" by (simp add: idx_def)
    from other [OF this] I' that(1) lt show ?thesis by simp
  qed
  ultimately show ?thesis
    unfolding lumped_progress_def t'_def [symmetric] L_def [symmetric] by blast
qed


lemma lumped_expansion_progress:
  assumes sized: "slots_sized n0 s" and nr: "num_reactions s = n0"
    and bound: "\<forall>x\<in>set (lumped_reaction s). x < n0"
    and lumped: "p_lumped_species P"
    and n: "n = n0 + length (lumped_reaction s) * length (p_lumped P)"
  shows "lumped_progress P s n0 n (length (lumped_reaction s) * length (p_lumped P))
           (lumped_expansion ops P s)"
proof -
  define L where "L = length (p_lumped P)"
  define A where "A = length (lumped_reaction s)"
  define s1 where "s1 = s\<lparr> num_reactions := n,
                     reaction := resize n [] (reaction s),
                     reactants := resize n [] (reactants s),
                     products := resize n [] (products s),
                     rate_coefficient := resize n (r_of_int ops 0) (rate_coefficient s),
                     rate_type := resize n [] (rate_type s),
                     rate_equation_string := resize n [] (rate_equation_string s),
                     superelastic_reaction := resize n False (superelastic_reaction s),
                     reversible_reaction := resize n False (reversible_reaction s),
                     reaction_lumped := resize n False (reaction_lumped s),
                     species_count := resize n [] (species_count s) \<rparr>"
  have le: "n0 \<le> n" by (simp add: n)
  have eq: "lumped_expansion ops P s =
              fold (\<lambda>a t. fold (lumped_copy P n0 a) [0..<L] t) [0..<A] s1"
    using lumped by (simp add: lumped_expansion_def Let_def nr n s1_def L_def A_def)
  have I0: "lumped_progress P s n0 n (0 * L) s1"
    using sized le
    by (simp add: lumped_progress_def s1_def slots_sized_def slot_def nth_resize)
  have "lumped_progress P s n0 n (A * L)
          (fold (\<lambda>a t. fold (lumped_copy P n0 a) [0..<L] t) [0..<A] s1)"
  proof (rule fold_upt_invariant [where I = "\<lambda>a. lumped_progress P s n0 n (a * L)", OF I0])
    fix a t
    assume a: "a < A" and I: "lumped_progress P s n0 n (a * L) t"
    have "lumped_progress P s n0 n (a * L + L) (fold (lumped_copy P n0 a) [0..<L] t)"
    proof (rule fold_upt_invariant [where I = "\<lambda>c. lumped_progress P s n0 n (a * L + c)"])
      show "lumped_progress P s n0 n (a * L + 0) t" using I by simp
    next
      fix c u
      assume "c < L" and "lumped_progress P s n0 n (a * L + c) u"
      then show "lumped_progress P s n0 n (a * L + Suc c) (lumped_copy P n0 a c u)"
        using lumped_copy_step [of P s n0 n a c u] a n bound by (simp add: L_def A_def)
    qed
    then show "lumped_progress P s n0 n (Suc a * L) (fold (lumped_copy P n0 a) [0..<L] t)"
      by (simp add: add.commute)
  qed
  then show ?thesis by (simp add: eq A_def L_def)
qed

text \<open>
  The network after the lumped expansion: the reactions read from the text are left as
  they are, and the copy for the template \<open>a\<close> and the lumped species \<open>c\<close> has the rate of
  the template and its participants, the placeholder replaced.
\<close>

lemma lumped_expansion_slots:
  assumes "slots_sized n0 s" and "num_reactions s = n0"
    and "\<forall>x\<in>set (lumped_reaction s). x < n0"
    and "\<not> p_lumped_species P \<longrightarrow> lumped_reaction s = []"
  shows "slots_sized (n0 + length (lumped_reaction s) * length (p_lumped P))
           (lumped_expansion ops P s)"
    and "num_reactions (lumped_expansion ops P s) =
           n0 + length (lumped_reaction s) * length (p_lumped P)"
    and "lumped_reaction (lumped_expansion ops P s) = lumped_reaction s"
    and "j < n0 \<Longrightarrow> slot (lumped_expansion ops P s) j = slot s j"
    and "a < length (lumped_reaction s) \<Longrightarrow> c < length (p_lumped P) \<Longrightarrow>
         slot (lumped_expansion ops P s) (n0 + a * length (p_lumped P) + c) =
           lumped_slot P c (slot s (lumped_reaction s ! a))"
proof -
  define n where "n = n0 + length (lumped_reaction s) * length (p_lumped P)"
  show nr: "num_reactions (lumped_expansion ops P s) =
           n0 + length (lumped_reaction s) * length (p_lumped P)"
    using assms(2,4) by (cases "p_lumped_species P") (simp_all add: lumped_expansion_num_reactions)
  show lr: "lumped_reaction (lumped_expansion ops P s) = lumped_reaction s"
    using frame_field [where w = without_lumped and f = lumped_reaction,
        OF lumped_expansion_frame [of ops P s]]
    by (simp add: without_lumped_def)
  have "slots_sized n (lumped_expansion ops P s) \<and>
        (\<forall>j<n0. slot (lumped_expansion ops P s) j = slot s j) \<and>
        (\<forall>a c. a < length (lumped_reaction s) \<and> c < length (p_lumped P) \<longrightarrow>
           slot (lumped_expansion ops P s) (n0 + a * length (p_lumped P) + c) =
             lumped_slot P c (slot s (lumped_reaction s ! a)))"
  proof (cases "p_lumped_species P")
    case True
    note p = lumped_expansion_progress [OF assms(1-3) True n_def, of ops,
        unfolded lumped_progress_def]
    have "a * length (p_lumped P) + c < length (lumped_reaction s) * length (p_lumped P)"
      if "a < length (lumped_reaction s)" "c < length (p_lumped P)" for a c
    proof -
      have "Suc a * length (p_lumped P) \<le> length (lumped_reaction s) * length (p_lumped P)"
        using that(1) by (intro mult_le_mono1) simp
      then show ?thesis using that(2) by simp
    qed
    with p show ?thesis by blast
  next
    case False
    with assms(4) have "lumped_reaction s = []" by simp
    with False assms(1) show ?thesis by (simp add: lumped_expansion_def n_def)
  qed
  then show "slots_sized (n0 + length (lumped_reaction s) * length (p_lumped P))
           (lumped_expansion ops P s)"
    and "j < n0 \<Longrightarrow> slot (lumped_expansion ops P s) j = slot s j"
    and "a < length (lumped_reaction s) \<Longrightarrow> c < length (p_lumped P) \<Longrightarrow>
         slot (lumped_expansion ops P s) (n0 + a * length (p_lumped P) + c) =
           lumped_slot P c (slot s (lumped_reaction s ! a))"
    by (simp_all add: n_def)
qed


lemma append_product_loop:
  assumes "for_loop js (append_product i new_index np) st = Inr st'"
  shows "(fst st')\<lparr> reactants := [] \<rparr> = (fst st)\<lparr> reactants := [] \<rparr>"
    and "unchanged_except new_index (reactants (fst st)) (reactants (fst st'))"
proof -
  have "(fst st')\<lparr> reactants := [] \<rparr> = (fst st)\<lparr> reactants := [] \<rparr> \<and>
        unchanged_except new_index (reactants (fst st)) (reactants (fst st'))"
  proof (rule for_loop_invariant [OF assms,
        where I = "\<lambda>t. (fst t)\<lparr> reactants := [] \<rparr> = (fst st)\<lparr> reactants := [] \<rparr> \<and>
                      unchanged_except new_index (reactants (fst st)) (reactants (fst t))"])
    show "(fst st)\<lparr> reactants := [] \<rparr> = (fst st)\<lparr> reactants := [] \<rparr> \<and>
          unchanged_except new_index (reactants (fst st)) (reactants (fst st))" by simp
  next
    fix j t t'
    assume I: "(fst t)\<lparr> reactants := [] \<rparr> = (fst st)\<lparr> reactants := [] \<rparr> \<and>
               unchanged_except new_index (reactants (fst st)) (reactants (fst t))"
      and b: "append_product i new_index np j t = Inr t'"
    from b obtain v where "fst t' = (fst t)\<lparr> reactants := (reactants (fst t))[new_index := v] \<rparr>"
      by (auto simp: append_product_def Let_def then_do_Inr)
    then have "unchanged_except new_index (reactants (fst t)) (reactants (fst t'))" by simp
    with I have "unchanged_except new_index (reactants (fst st)) (reactants (fst t'))"
      by (blast intro: unchanged_except_trans)
    with I append_product_frame [OF b]
    show "(fst t')\<lparr> reactants := [] \<rparr> = (fst st)\<lparr> reactants := [] \<rparr> \<and>
          unchanged_except new_index (reactants (fst st)) (reactants (fst t'))" by simp
  qed
  then show "(fst st')\<lparr> reactants := [] \<rparr> = (fst st)\<lparr> reactants := [] \<rparr>"
    and "unchanged_except new_index (reactants (fst st)) (reactants (fst st'))" by simp_all
qed

lemma append_reactant_loop:
  assumes "for_loop js (append_reactant i new_index) st = Inr st'"
  shows "(fst st')\<lparr> products := [] \<rparr> = (fst st)\<lparr> products := [] \<rparr>"
    and "unchanged_except new_index (products (fst st)) (products (fst st'))"
proof -
  have "(fst st')\<lparr> products := [] \<rparr> = (fst st)\<lparr> products := [] \<rparr> \<and>
        unchanged_except new_index (products (fst st)) (products (fst st'))"
  proof (rule for_loop_invariant [OF assms,
        where I = "\<lambda>t. (fst t)\<lparr> products := [] \<rparr> = (fst st)\<lparr> products := [] \<rparr> \<and>
                      unchanged_except new_index (products (fst st)) (products (fst t))"])
    show "(fst st)\<lparr> products := [] \<rparr> = (fst st)\<lparr> products := [] \<rparr> \<and>
          unchanged_except new_index (products (fst st)) (products (fst st))" by simp
  next
    fix j t t'
    assume I: "(fst t)\<lparr> products := [] \<rparr> = (fst st)\<lparr> products := [] \<rparr> \<and>
               unchanged_except new_index (products (fst st)) (products (fst t))"
      and b: "append_reactant i new_index j t = Inr t'"
    from b obtain v where "fst t' = (fst t)\<lparr> products := (products (fst t))[new_index := v] \<rparr>"
      by (auto simp: append_reactant_def Let_def then_do_Inr)
    then have "unchanged_except new_index (products (fst t)) (products (fst t'))" by simp
    with I have "unchanged_except new_index (products (fst st)) (products (fst t'))"
      by (blast intro: unchanged_except_trans)
    with I append_reactant_frame [OF b]
    show "(fst t')\<lparr> products := [] \<rparr> = (fst st)\<lparr> products := [] \<rparr> \<and>
          unchanged_except new_index (products (fst st)) (products (fst t'))" by simp
  qed
  then show "(fst st')\<lparr> products := [] \<rparr> = (fst st)\<lparr> products := [] \<rparr>"
    and "unchanged_except new_index (products (fst st)) (products (fst st'))" by simp_all
qed

lemma reverse_reaction_progress:
  assumes r: "reverse_reaction ops i st = Inr st'" and I: "superelastic_progress s0 n m st"
  shows "superelastic_progress s0 n m st'"
proof -
  define ni where "ni = fst (snd st) + 1"
  from r obtain s1 st1 st2 where
    s1: "reverse_fields ops i ni (fst st) = Inr s1"
    and st1: "for_loop [0..<num_products s1 ! i]
       (append_product i ni (num_products s1 ! i)) (s1, snd (snd st)) = Inr st1"
    and st2: "for_loop [0..<length (reactants (fst st1) ! i)]
       (append_reactant i ni) (fst st1, snd st1 @ '' -> '') = Inr st2"
    and st': "st' = ((fst st2)\<lparr> reaction := reaction (fst st2) @ [snd st2] \<rparr>, ni, snd st2)"
    unfolding ni_def by (rule reverse_reaction_steps)
  note I' = I [unfolded superelastic_progress_def, folded ni_def]
  from s1 have s1_eq: "s1 = (fst st)\<lparr> superelastic_index := (superelastic_index (fst st))[ni := i],
             superelastic_reaction := (superelastic_reaction (fst st))[ni := True],
             rate_coefficient := (rate_coefficient (fst st))[ni := r_nan ops],
             threshold_energy :=
               (threshold_energy (fst st))[ni := r_neg ops (threshold_energy (fst st) ! i)],
             rate_equation := (rate_equation (fst st))[ni := rate_equation (fst st) ! i],
             energy_change := (energy_change (fst st))[ni := energy_change (fst st) ! i] \<rparr>"
    by (simp add: reverse_fields_Inr)
  note p1 = append_product_loop [OF st1, simplified]
  note p2 = append_reactant_loop [OF st2, simplified]
  note f1 = frame_field [where w = "\<lambda>s. s\<lparr> reactants := [] \<rparr>", OF p1(1)]
  note f2 = frame_field [where w = "\<lambda>s. s\<lparr> products := [] \<rparr>", OF p2(1)]
  have rc: "rate_coefficient (fst st2) = (rate_coefficient (fst st))[ni := r_nan ops]"
    using f2 [where f = rate_coefficient] f1 [where f = rate_coefficient] by (simp add: s1_eq)
  have ty: "rate_type (fst st2) = rate_type (fst st)"
    using f2 [where f = rate_type] f1 [where f = rate_type] by (simp add: s1_eq)
  have es: "rate_equation_string (fst st2) = rate_equation_string (fst st)"
    using f2 [where f = rate_equation_string] f1 [where f = rate_equation_string]
    by (simp add: s1_eq)
  have re: "reaction (fst st2) = reaction (fst st)"
    using f2 [where f = reaction] f1 [where f = reaction] by (simp add: s1_eq)
  have rs: "unchanged_except ni (reactants (fst st)) (reactants (fst st2))"
    using f2 [where f = reactants] p1(2) by (simp add: s1_eq)
  have ps: "unchanged_except ni (products (fst st)) (products (fst st2))"
    using f1 [where f = products] p2(2) by (simp add: s1_eq)
  have "slot (fst st') j = slot (fst st) j" if "j < n" for j
  proof -
    from that I' have "j < ni" "j < length (reaction (fst st))" by simp_all
    then show ?thesis
      using rs ps by (simp add: st' slot_def rc ty es re unchanged_except_def nth_append)
  qed
  moreover have "reactants (fst st') ! j = [] \<and> products (fst st') ! j = []"
    if "ni < j" "j < m" for j
    using that I' rs ps by (simp add: st' unchanged_except_def ni_def)
  ultimately show ?thesis
    using I' rs ps
    by (simp add: superelastic_progress_def st' re unchanged_except_def ni_def [symmetric])
qed

lemma superelastic_body_progress:
  assumes b: "superelastic_body ops P i st = Inr st'" and I: "superelastic_progress s0 n m st"
  shows "superelastic_progress s0 n m st'"
proof -
  from b obtain rev st1 s2 where
    st1: "(if rev then reverse_reaction ops i st else Inr st) = Inr st1"
    and s2: "calculate_coefficients P (fst (snd st1)) (fst st1) = Inr s2"
    and st': "st' = (s2, snd st1)"
    unfolding superelastic_body_def then_do_Inr by auto
  have I1: "superelastic_progress s0 n m st1"
    using st1 I reverse_reaction_progress [of ops i st st1 s0 n m] by (cases rev) simp_all
  note f = frame_field [where w = without_counts, OF calculate_coefficients_frame [OF s2]]
  have "reactants s2 = reactants (fst st1)" "products s2 = products (fst st1)"
    "reaction s2 = reaction (fst st1)" "rate_coefficient s2 = rate_coefficient (fst st1)"
    "rate_type s2 = rate_type (fst st1)"
    "rate_equation_string s2 = rate_equation_string (fst st1)"
    using f [where f = reactants] f [where f = products] f [where f = reaction]
      f [where f = rate_coefficient] f [where f = rate_type] f [where f = rate_equation_string]
    by (simp_all add: without_counts_def)
  with I1 show ?thesis by (simp add: superelastic_progress_def st' slot_def)
qed

text \<open>
  The network after the reverse reactions are added: the reactions that were there are
  left as they are, and a slot beyond the last text of \<^verbatim>\<open>_reaction\<close> is an empty reaction.
\<close>

lemma superelastic_synthesis_network:
  assumes "superelastic_synthesis ops P s = Inr s'" and sized: "slots_sized n s"
    and nr: "num_reactions s = n"
  shows "num_reactions s' = n + superelastic_reactions s"
    and "length (reactants s') = num_reactions s'"
    and "length (products s') = num_reactions s'"
    and "j < n \<Longrightarrow> slot s' j = slot s j"
    and "length (rate_type s') = n"
    and "\<forall>j<num_reactions s'. length (reaction s') \<le> j \<longrightarrow>
           reactants s' ! j = [] \<and> products s' ! j = []"
proof -
  define m where "m = n + superelastic_reactions s"
  define s1 where "s1 = s\<lparr> superelastic_index := resize m 0 (superelastic_index s),
                  superelastic_reaction := resize m False (superelastic_reaction s),
                  rate_coefficient := resize m (r_of_int ops 0) (rate_coefficient s),
                  threshold_energy := resize m (r_of_int ops 0) (threshold_energy s),
                  rate_equation := resize m False (rate_equation s),
                  species_count :=
                    resize m (replicate (length (p_species P)) 0) (species_count s),
                  reactants :=
                    resize (length (reactants s) + superelastic_reactions s) [] (reactants s),
                  products :=
                    resize (length (products s) + superelastic_reactions s) [] (products s),
                  energy_change := resize m False (energy_change s) \<rparr>"
  from assms(1) obtain st where
    st: "(if 0 < superelastic_reactions s
          then for_loop [0..<n] (superelastic_body ops P) (s1, n - 1, [])
          else Inr (s1, n - 1, [])) = Inr st"
    and s': "s' = (fst st)\<lparr> num_reactions := n + superelastic_reactions s \<rparr>"
    unfolding superelastic_synthesis_def Let_def then_do_Inr nr m_def s1_def by auto
  have len: "length (reactants s) = n" "length (products s) = n" "length (reaction s) = n"
    "length (rate_coefficient s) = n" "length (rate_type s) = n"
    using sized by (simp_all add: slots_sized_def)
  have pre1: "slot s1 j = slot s j" if "j < n" for j
    using that len by (simp add: s1_def slot_def nth_resize m_def)
  have emp1: "reactants s1 ! j = [] \<and> products s1 ! j = []" if "n \<le> j" "j < m" for j
    using that len by (simp add: s1_def nth_resize m_def)
  have len1: "length (reactants s1) = m" "length (products s1) = m" "length (reaction s1) = n"
    "rate_type s1 = rate_type s"
    using len by (simp_all add: s1_def m_def)
  have main: "length (reactants (fst st)) = m \<and> length (products (fst st)) = m \<and>
      (\<forall>j<n. slot (fst st) j = slot s j) \<and> rate_type (fst st) = rate_type s \<and>
      (\<forall>j<m. length (reaction (fst st)) \<le> j \<longrightarrow>
         reactants (fst st) ! j = [] \<and> products (fst st) ! j = [])"
  proof (cases "0 < superelastic_reactions s \<and> 0 < n")
    case True
    with st have loop: "for_loop [0..<n] (superelastic_body ops P) (s1, n - 1, []) = Inr st"
      by simp
    have "reactants s1 ! j = [] \<and> products s1 ! j = []" if "n - 1 < j" "j < m" for j
      using emp1 [of j] that by simp
    then have I0: "superelastic_progress s n m (s1, n - 1, [])"
      using True len1 pre1 by (simp add: superelastic_progress_def)
    have I: "superelastic_progress s n m st"
      by (rule for_loop_invariant [where I = "superelastic_progress s n m", OF loop I0])
        (rule superelastic_body_progress)
    have "rate_type (fst st) = rate_type s1"
      using frame_field [where w = without_superelastic and f = rate_type,
          OF superelastic_synthesis_energy(1) [OF assms(1)]]
      by (simp add: s' without_superelastic_def s1_def)
    with I len1 show ?thesis by (auto simp: superelastic_progress_def)
  next
    case False
    have st_eq: "st = (s1, n - 1, [])"
    proof (cases "0 < superelastic_reactions s")
      case True
      with False have "n = 0" by simp
      with True st show ?thesis by simp
    next
      case False
      with st show ?thesis by simp
    qed
    have "reactants s1 ! j = [] \<and> products s1 ! j = []" if "j < m" "n \<le> j" for j
      using emp1 that by simp
    moreover have "m = n \<or> n = 0" using False by (auto simp: m_def)
    ultimately show ?thesis using len1 pre1 by (auto simp: st_eq)
  qed
  show "num_reactions s' = n + superelastic_reactions s" by (simp add: s')
  show "length (reactants s') = num_reactions s'" "length (products s') = num_reactions s'"
    using main by (simp_all add: s' m_def)
  show "slot s' j = slot s j" if "j < n" using main that by (simp add: s' slot_def)
  show "length (rate_type s') = n" using main len by (simp add: s')
  show "\<forall>j<num_reactions s'. length (reaction s') \<le> j \<longrightarrow>
           reactants s' ! j = [] \<and> products s' ! j = []"
    using main by (simp add: s' m_def)
qed


lemma parse_line_braces:
  assumes "parse_line token = Inr lf"
  shows "lf_rate_equation lf \<longleftrightarrow> find_char token CHR ''{'' \<noteq> npos"
    and "lf_rate_equation lf \<Longrightarrow> \<not> lf_is_identified lf \<and> lf_reaction_identifier lf = ''NONE''"
proof -
  from assms obtain rxn rate thr eqn ident where
    ident: "(if find_char token CHR ''('' \<noteq> npos \<and> \<not> (find_char token CHR ''{'' \<noteq> npos)
             then substr token (sz_add (find_char token CHR ''('') 1)
                    (sz_sub (sz_sub (find_char token CHR '')'') (find_char token CHR ''('')) 1)
             else Inr ''NONE'') = Inr ident"
    and lf: "lf = \<lparr> lf_reaction = trim rxn,
            lf_rate_coefficient_string = trim rate,
            lf_threshold_energy_string = thr,
            lf_energy_change = (find_char token CHR ''['' \<noteq> npos),
            lf_rate_equation_string = eqn,
            lf_rate_equation = (find_char token CHR ''{'' \<noteq> npos),
            lf_is_identified = (find_char token CHR ''('' \<noteq> npos \<and>
                                \<not> (find_char token CHR ''{'' \<noteq> npos)),
            lf_reaction_identifier = ident \<rparr>"
    unfolding parse_line_def Let_def then_do_Inr by blast
  show "lf_rate_equation lf \<longleftrightarrow> find_char token CHR ''{'' \<noteq> npos" by (simp add: lf)
  show "\<not> lf_is_identified lf \<and> lf_reaction_identifier lf = ''NONE''" if "lf_rate_equation lf"
    using that ident by (simp add: lf)
qed

lemma resolve_file_identifier:
  assumes "resolve_file fs P i s = Inr s'"
  shows "length (reaction_identifier s') = length (reaction_identifier s)"
    and "\<not> is_identified s ! j \<Longrightarrow> reaction_identifier s' ! j = reaction_identifier s ! j"
    and "is_identified s' = is_identified s"
proof -
  show "length (reaction_identifier s') = length (reaction_identifier s)"
    using assms by (auto simp: resolve_file_def Let_def split: if_splits)
  show "is_identified s' = is_identified s"
    using assms by (auto simp: resolve_file_def Let_def split: if_splits)
  show "reaction_identifier s' ! j = reaction_identifier s ! j" if "\<not> is_identified s ! j"
  proof (cases "j = i")
    case True
    with that assms show ?thesis by (simp add: resolve_file_def)
  next
    case False
    with assms show ?thesis by (auto simp: resolve_file_def Let_def split: if_splits)
  qed
qed

lemma check_files_identifier:
  assumes "check_files fs P s = Inr s'"
  shows "is_identified s' = is_identified s"
    and "length (reaction_identifier s') = length (reaction_identifier s)"
    and "\<not> is_identified s ! j \<Longrightarrow> reaction_identifier s' ! j = reaction_identifier s ! j"
proof -
  define I where "I = (\<lambda>t :: 'a crb. is_identified t = is_identified s \<and>
     length (reaction_identifier t) = length (reaction_identifier s) \<and>
     (\<forall>j. \<not> is_identified s ! j \<longrightarrow> reaction_identifier t ! j = reaction_identifier s ! j))"
  have "I s'"
  proof (rule for_loop_invariant [where I = I, OF assms [unfolded check_files_def]])
    show "I s" by (simp add: I_def)
  next
    fix i t t'
    assume "I t" and "resolve_file fs P i t = Inr t'"
    then show "I t'"
      using resolve_file_identifier [of fs P i t t'] by (simp add: I_def)
  qed
  then show "is_identified s' = is_identified s"
    and "length (reaction_identifier s') = length (reaction_identifier s)"
    and "\<not> is_identified s ! j \<Longrightarrow> reaction_identifier s' ! j = reaction_identifier s ! j"
    by (simp_all add: I_def)
qed

lemma tokenize_terms_lumped:
  "lumped_reaction (tokenize_terms i tokens s) = lumped_reaction s"
proof -
  have "lumped_reaction (snd (fold (tokenize_term i) tokens st)) = lumped_reaction (snd st)"
    for st :: "bool \<times> 'a crb"
    by (induction tokens arbitrary: st) (simp_all add: tokenize_term_def Let_def)
  then show ?thesis by (simp add: tokenize_terms_def)
qed

lemma flag_reactant_lumped:
  assumes "flag_reactant P i k s = Inr s'"
  shows "set (lumped_reaction s') \<subseteq> insert i (set (lumped_reaction s))"
    and "\<not> p_lumped_species P \<Longrightarrow> lumped_reaction s' = lumped_reaction s"
  using assms by (auto simp: flag_reactant_def split: if_splits)

lemma split_reaction_lumped:
  assumes "split_reaction ops P i s = Inr s'"
  shows "set (lumped_reaction s') \<subseteq> insert i (set (lumped_reaction s))"
    and "\<not> p_lumped_species P \<Longrightarrow> lumped_reaction s' = lumped_reaction s"
proof -
  define s1 where "s1 = tokenize_terms i (getline_tokens CHR '' '' (reaction s ! i)) s"
  define s2 where "s2 = scale_rate ops P i s1"
  define s3 where "s3 = s2\<lparr> reaction_lumped := (reaction_lumped s2)[i := False] \<rparr>"
  from assms obtain s4 where
    s4: "for_loop [0..<length (reactants s3 ! i)] (flag_reactant P i) s3 = Inr s4"
    and s': "calculate_coefficients P i
           (s4\<lparr> num_reactants := num_reactants s4 @ [length (reactants s4 ! i)],
                num_products := num_products s4 @ [length (products s4 ! i)],
                species_count := resize (num_reactions s4)
                                   (replicate (length (p_species P)) 0) (species_count s4) \<rparr>)
         = Inr s'"
    by (auto simp: split_reaction_def Let_def then_do_Inr s1_def s2_def s3_def)
  have l3: "lumped_reaction s3 = lumped_reaction s"
    by (simp add: s3_def s2_def scale_rate_def s1_def tokenize_terms_lumped)
  have l5: "lumped_reaction s' = lumped_reaction s4"
    using frame_field [where w = without_counts and f = lumped_reaction,
        OF calculate_coefficients_frame [OF s']]
    by (simp add: without_counts_def)
  have "set (lumped_reaction s4) \<subseteq> insert i (set (lumped_reaction s3))"
    by (rule for_loop_invariant [OF s4,
          where I = "\<lambda>t. set (lumped_reaction t) \<subseteq> insert i (set (lumped_reaction s3))"])
      (use flag_reactant_lumped(1) in blast)+
  then show "set (lumped_reaction s') \<subseteq> insert i (set (lumped_reaction s))"
    by (simp add: l3 l5)
  show "lumped_reaction s' = lumped_reaction s" if "\<not> p_lumped_species P"
  proof -
    have "lumped_reaction s4 = lumped_reaction s3"
      by (rule for_loop_preserves [OF _ s4]) (rule flag_reactant_lumped(2) [OF _ that])
    then show ?thesis by (simp add: l3 l5)
  qed
qed

lemma split_reactions_lumped:
  assumes "split_reactions ops P s = Inr s'" and "lumped_reaction s = []"
  shows "\<forall>x\<in>set (lumped_reaction s'). x < num_reactions s"
    and "\<not> p_lumped_species P \<Longrightarrow> lumped_reaction s' = []"
proof -
  define n where "n = num_reactions s"
  define s1 where "s1 = s\<lparr> reactants := resize n [] (reactants s),
                  products := resize n [] (products s),
                  reversible_reaction := resize n False (reversible_reaction s),
                  electron_index := resize n 0 (electron_index s),
                  superelastic_reactions := 0,
                  reaction_lumped := resize n False (reaction_lumped s) \<rparr>"
  have loop: "for_loop [0..<n] (split_reaction ops P) s1 = Inr s'"
    using assms(1) by (simp add: split_reactions_def Let_def n_def s1_def)
  have "\<forall>x\<in>set (lumped_reaction s'). x < n"
  proof (rule for_loop_invariant [OF loop, where I = "\<lambda>t. \<forall>x\<in>set (lumped_reaction t). x < n"])
    show "\<forall>x\<in>set (lumped_reaction s1). x < n" using assms(2) by (simp add: s1_def)
  next
    fix k t t'
    assume "k \<in> set [0..<n]" and "\<forall>x\<in>set (lumped_reaction t). x < n"
      and "split_reaction ops P k t = Inr t'"
    then show "\<forall>x\<in>set (lumped_reaction t'). x < n"
      using split_reaction_lumped(1) [of ops P k t t'] by auto
  qed
  then show "\<forall>x\<in>set (lumped_reaction s'). x < num_reactions s" by (simp add: n_def)
  show "lumped_reaction s' = []" if "\<not> p_lumped_species P"
  proof -
    have "lumped_reaction s' = lumped_reaction s1"
      by (rule for_loop_preserves [OF _ loop]) (rule split_reaction_lumped(2) [OF _ that])
    then show ?thesis using assms(2) by (simp add: s1_def)
  qed
qed

text \<open>The network after the three reading loops.\<close>

lemma parse_reactions_network:
  assumes "parse_reactions ops P = Inr s"
  shows "num_reactions s = length (rate_coefficient_string s)"
    and "length (reaction s) = num_reactions s"
    and "length (reactants s) = num_reactions s"
    and "length (products s) = num_reactions s"
    and "length (rate_coefficient s) = num_reactions s"
    and "length (rate_type s) = num_reactions s"
    and "length (rate_equation_string s) = num_reactions s"
    and "\<forall>x\<in>set (lumped_reaction s). x < num_reactions s"
    and "\<not> p_lumped_species P \<Longrightarrow> lumped_reaction s = []"
    and "length (reaction_lines (p_reactions P)) = num_reactions s"
proof -
  from assms obtain s1 s2 where s1: "read_lines (p_reactions P) crb_init = Inr s1"
      and s2: "classify_rates ops s1 = Inr s2" and s: "split_reactions ops P s2 = Inr s"
    by (auto simp: parse_reactions_def then_do_Inr)
  from read_lines_eq [OF s1] obtain lfs where
    lfs: "map parse_line (reaction_lines (p_reactions P)) = map Inr lfs"
    and lr: "lines_read lfs s1" and w1: "without_lines s1 = crb_init"
    by blast
  have n1: "length (reaction s1) = length lfs" using lr by (simp add: lines_read_def)
  from classify_rates_eq [OF s2, unfolded n1] have
    w2: "without_rates s2 = without_rates s1" and sized: "rates_sized (length lfs) s2"
    by simp_all
  note f2 = frame_field [where w = without_rates, OF w2]
  have res: "rate_equation_string s2 = rate_equation_string s1"
    using f2 [where f = rate_equation_string] by (simp add: without_rates_def)
  have sz: "length (rate_coefficient s2) = num_reactions s2"
    "length (rate_equation_string s2) = num_reactions s2" "num_reactions s2 = length lfs"
    using sized lr res by (simp_all add: rates_sized_def lines_read_def)
  from split_reactions_eq [OF s sz(1,2), unfolded sz(3)] have
    w3: "without_split s = without_split s2"
    and len: "length (reactants s) = length lfs" "length (products s) = length lfs"
      "length (rate_coefficient s) = length lfs" "length (rate_equation_string s) = length lfs"
    by simp_all
  note f3 = frame_field [where w = without_split, OF w3]
  have n: "num_reactions s = length lfs"
    using f3 [where f = num_reactions] sz(3) by (simp add: without_split_def)
  have "rate_coefficient_string s = rate_coefficient_string s1"
    using f3 [where f = rate_coefficient_string] f2 [where f = rate_coefficient_string]
    by (simp add: without_split_def without_rates_def)
  then show "num_reactions s = length (rate_coefficient_string s)"
    using lr n by (simp add: lines_read_def)
  have "reaction s = reaction s1"
    using f3 [where f = reaction] f2 [where f = reaction]
    by (simp add: without_split_def without_rates_def)
  then show "length (reaction s) = num_reactions s" using n1 n by simp
  show "length (reactants s) = num_reactions s" "length (products s) = num_reactions s"
    "length (rate_coefficient s) = num_reactions s"
    "length (rate_equation_string s) = num_reactions s"
    using len n by simp_all
  have "rate_type s = rate_type s2" using w3 by (rule without_split_rate_type)
  then show "length (rate_type s) = num_reactions s"
    using sized n by (simp add: rates_sized_def)
  have "lumped_reaction s2 = lumped_reaction s1"
    using f2 [where f = lumped_reaction] by (simp add: without_rates_def)
  also have "\<dots> = lumped_reaction (without_lines s1)" by (simp add: without_lines_def)
  finally have l2: "lumped_reaction s2 = []" by (simp add: w1 crb_init_def)
  show "\<forall>x\<in>set (lumped_reaction s). x < num_reactions s"
    using split_reactions_lumped(1) [OF s l2] n sz(3) by simp
  show "lumped_reaction s = []" if "\<not> p_lumped_species P"
    using split_reactions_lumped(2) [OF s l2 that] .
  show "length (reaction_lines (p_reactions P)) = num_reactions s"
    using arg_cong [OF lfs, of length] n by simp
qed


lemma parse_reactions_slots:
  assumes "parse_reactions ops P = Inr s"
  shows "slots_sized (num_reactions s) s"
  using parse_reactions_network [OF assms] by (simp add: slots_sized_def)

lemma slot_frame:
  fixes w :: "'r crb \<Rightarrow> 'r crb"
  assumes "w s' = w s"
    and "\<And>t. rate_coefficient (w t) = rate_coefficient t" "\<And>t. rate_type (w t) = rate_type t"
    and "\<And>t. rate_equation_string (w t) = rate_equation_string t"
    and "\<And>t. reactants (w t) = reactants t" "\<And>t. products (w t) = products t"
    and "\<And>t. reaction (w t) = reaction t"
  shows "slot s' = slot s"
proof -
  note f = frame_field [where w = w, OF assms(1)]
  have "rate_coefficient s' = rate_coefficient s" "rate_type s' = rate_type s"
    "rate_equation_string s' = rate_equation_string s" "reactants s' = reactants s"
    "products s' = products s" "reaction s' = reaction s"
    by (rule f, rule assms)+
  then show ?thesis by (simp add: slot_def fun_eq_iff)
qed

lemma build_network_stages:
  assumes "build_network ops P = Inr s"
  obtains s3 s5 where "parse_reactions ops P = Inr s3"
    and "superelastic_synthesis ops P (lumped_expansion ops P s3) = Inr s5"
    and "stoichiometry P s5 = Inr s"
  using assms by (auto simp: build_network_def expand_reactions_def then_do_Inr)

text \<open>
  The network the constructor builds, before its last checks. \<open>s3\<close> is the state after
  the text is read: its reactions keep their slots, each lumped copy has the slot of its
  template with the placeholder replaced, and the vectors of reactants and products
  have one element for each of the \<^verbatim>\<open>_num_reactions\<close> reactions.
\<close>

lemma build_network_slots:
  assumes "build_network ops P = Inr s"
  obtains s3 where "parse_reactions ops P = Inr s3"
    and "lumped_reaction s = lumped_reaction s3"
    and "\<forall>j<num_reactions s3. slot s j = slot s3 j"
    and "\<forall>a<length (lumped_reaction s3). \<forall>c<length (p_lumped P).
           slot s (num_reactions s3 + a * length (p_lumped P) + c) =
             lumped_slot P c (slot s3 (lumped_reaction s3 ! a))"
    and "length (rate_type s) =
           num_reactions s3 + length (lumped_reaction s3) * length (p_lumped P)"
    and "length (reactants s) = num_reactions s" and "length (products s) = num_reactions s"
    and "\<forall>j<num_reactions s. length (reaction s) \<le> j \<longrightarrow>
           reactants s ! j = [] \<and> products s ! j = []"
    and "is_identified s = is_identified s3"
    and "reaction_identifier s = reaction_identifier s3"
proof -
  from assms obtain s3 s5 where s3: "parse_reactions ops P = Inr s3"
    and s5: "superelastic_synthesis ops P (lumped_expansion ops P s3) = Inr s5"
    and s: "stoichiometry P s5 = Inr s"
    by (rule build_network_stages)
  define s4 where "s4 = lumped_expansion ops P s3"
  define n0 where "n0 = num_reactions s3"
  define n1 where "n1 = n0 + length (lumped_reaction s3) * length (p_lumped P)"
  note net = parse_reactions_network [OF s3]
  have none: "\<not> p_lumped_species P \<longrightarrow> lumped_reaction s3 = []"
    using net(9) by simp
  have sz3: "slots_sized n0 s3" using parse_reactions_slots [OF s3] by (simp add: n0_def)
  have nr3: "num_reactions s3 = n0" by (simp add: n0_def)
  have b3: "\<forall>x\<in>set (lumped_reaction s3). x < n0" using net(8) by (simp add: n0_def)
  note l = lumped_expansion_slots [where ops = ops and P = P, OF sz3 nr3 b3 none,
      folded s4_def, folded n1_def]
  note e = superelastic_synthesis_network [OF s5 [folded s4_def] l(1) l(2)]
  note w4 = lumped_expansion_frame [of ops P s3, folded s4_def]
  note w5 = superelastic_synthesis_energy(1) [OF s5 [folded s4_def]]
  note w6 = stoichiometry_frame [OF s]
  note f4 = frame_field [where w = without_lumped, OF w4]
  note f5 = frame_field [where w = without_superelastic, OF w5]
  note f6 = frame_field [where w = without_stoichiometry, OF w6]
  have slot6: "slot s = slot s5"
    by (rule slot_frame [where w = without_stoichiometry, OF w6])
      (simp_all add: without_stoichiometry_def)
  have n6: "num_reactions s = num_reactions s5"
    using f6 [where f = num_reactions] by (simp add: without_stoichiometry_def)
  have r6: "reactants s = reactants s5" "products s = products s5" "reaction s = reaction s5"
    "rate_type s = rate_type s5"
    using f6 [where f = reactants] f6 [where f = products] f6 [where f = reaction]
      f6 [where f = rate_type]
    by (simp_all add: without_stoichiometry_def)
  have le: "n0 \<le> n1" by (simp add: n1_def)
  show ?thesis
  proof (rule that [OF s3])
    show "lumped_reaction s = lumped_reaction s3"
      using f6 [where f = lumped_reaction] f5 [where f = lumped_reaction] l(3)
      by (simp add: without_stoichiometry_def without_superelastic_def)
    have "slot s j = slot s3 j" if "j < num_reactions s3" for j
      using that le e(4) [of j] l(4) [of j] by (simp add: slot6 n0_def)
    then show "\<forall>j<num_reactions s3. slot s j = slot s3 j" by simp
    have "slot s (num_reactions s3 + a * length (p_lumped P) + c) =
            lumped_slot P c (slot s3 (lumped_reaction s3 ! a))"
      if a: "a < length (lumped_reaction s3)" and c: "c < length (p_lumped P)" for a c
    proof -
      have "Suc a * length (p_lumped P) \<le> length (lumped_reaction s3) * length (p_lumped P)"
        using a by (intro mult_le_mono1) simp
      then have "n0 + a * length (p_lumped P) + c < n1" using c by (simp add: n1_def)
      from e(4) [OF this] l(5) [OF a c] show ?thesis by (simp add: slot6 n0_def)
    qed
    then show "\<forall>a<length (lumped_reaction s3). \<forall>c<length (p_lumped P).
           slot s (num_reactions s3 + a * length (p_lumped P) + c) =
             lumped_slot P c (slot s3 (lumped_reaction s3 ! a))" by simp
    show "length (rate_type s) =
           num_reactions s3 + length (lumped_reaction s3) * length (p_lumped P)"
      using e(5) by (simp add: r6 n1_def n0_def)
    show "length (reactants s) = num_reactions s" "length (products s) = num_reactions s"
      using e(2,3) by (simp_all add: r6 n6)
    show "\<forall>j<num_reactions s. length (reaction s) \<le> j \<longrightarrow>
           reactants s ! j = [] \<and> products s ! j = []"
      using e(6) by (simp add: r6 n6)
    show "is_identified s = is_identified s3"
      using f6 [where f = is_identified] f5 [where f = is_identified]
        f4 [where f = is_identified]
      by (simp add: without_stoichiometry_def without_superelastic_def without_lumped_def
          s4_def)
    show "reaction_identifier s = reaction_identifier s3"
      using f6 [where f = reaction_identifier] f5 [where f = reaction_identifier]
        f4 [where f = reaction_identifier]
      by (simp add: without_stoichiometry_def without_superelastic_def without_lumped_def
          s4_def)
  qed
qed

lemma constructor_build:
  assumes "constructor ops fs P = Inr s"
  obtains s6 where "check_parameters P = Inr ()" and "build_network ops P = Inr s6"
    and "balance_check P s6 = Inr ()" and "check_files fs P s6 = Inr s"
  using assms by (auto simp: constructor_def then_do_Inr)

lemma parsed_identifier:
  assumes "parse_reactions ops P = Inr s" and "i < length (reaction_lines (p_reactions P))"
  shows "length (is_identified s) = length (reaction_lines (p_reactions P))"
    and "length (reaction_identifier s) = length (reaction_lines (p_reactions P))"
    and "find_char (reaction_lines (p_reactions P) ! i) CHR ''{'' \<noteq> npos \<or>
         rate_type s ! i = ''Equation'' \<Longrightarrow>
         \<not> is_identified s ! i \<and> reaction_identifier s ! i = ''NONE''"
proof -
  from parse_reactions_stages [OF assms(1)] obtain lfs s1 s2 where
    lfs: "map parse_line (reaction_lines (p_reactions P)) = map Inr lfs"
    and lr: "lines_read lfs s1"
    and w2: "without_rates s2 = without_rates s1"
    and cl: "\<forall>i<length lfs. classified_at ops s2 i"
    and w3: "without_split s = without_split s2"
    by blast
  note f2 = frame_field [where w = without_rates, OF w2]
  note f3 = frame_field [where w = without_split, OF w3]
  have len: "length (reaction_lines (p_reactions P)) = length lfs"
    using arg_cong [OF lfs, of length] by simp
  have i: "i < length lfs" using assms(2) len by simp
  have lf: "parse_line (reaction_lines (p_reactions P) ! i) = Inr (lfs ! i)"
    using arg_cong [OF lfs, of "\<lambda>xs. xs ! i"] i len by simp
  have id: "is_identified s = map lf_is_identified lfs"
    using f3 [where f = is_identified] f2 [where f = is_identified] lr
    by (simp add: without_split_def without_rates_def lines_read_def)
  have ri: "reaction_identifier s = map lf_reaction_identifier lfs"
    using f3 [where f = reaction_identifier] f2 [where f = reaction_identifier] lr
    by (simp add: without_split_def without_rates_def lines_read_def)
  have re: "rate_equation s2 = map lf_rate_equation lfs"
    using f2 [where f = rate_equation] lr by (simp add: without_rates_def lines_read_def)
  have rt: "rate_type s = rate_type s2" using w3 by (rule without_split_rate_type)
  show "length (is_identified s) = length (reaction_lines (p_reactions P))"
    and "length (reaction_identifier s) = length (reaction_lines (p_reactions P))"
    by (simp_all add: id ri len)
  show "\<not> is_identified s ! i \<and> reaction_identifier s ! i = ''NONE''"
    if h: "find_char (reaction_lines (p_reactions P) ! i) CHR ''{'' \<noteq> npos \<or>
           rate_type s ! i = ''Equation''"
  proof -
    have "lf_rate_equation (lfs ! i)"
    proof (cases "find_char (reaction_lines (p_reactions P) ! i) CHR ''{'' \<noteq> npos")
      case True
      then show ?thesis using parse_line_braces(1) [OF lf] by simp
    next
      case False
      with h have "rate_type s2 ! i = ''Equation''" by (simp add: rt)
      moreover from cl i have "classified_at ops s2 i" by simp
      ultimately have "rate_equation s2 ! i"
        by (auto simp: classified_at_def split: if_splits)
      then show ?thesis using i by (simp add: re)
    qed
    from parse_line_braces(2) [OF lf this] show ?thesis using i by (simp add: id ri)
  qed
qed

text \<open>
  The rate types are those of the reactions read from the text and of the lumped copies:
  \<^verbatim>\<open>_rate_type\<close> is not resized when the reverse reactions are added.
\<close>

lemma rate_type_length:
  assumes "constructor ops fs P = Inr s"
  shows "length (rate_type s) =
           length (reaction_lines (p_reactions P)) +
           length (lumped_reaction s) * length (p_lumped P)"
proof -
  from assms obtain s6 where s6: "build_network ops P = Inr s6"
    and s: "check_files fs P s6 = Inr s"
    by (rule constructor_build)
  from s6 obtain s3 where s3: "parse_reactions ops P = Inr s3"
    and lr6: "lumped_reaction s6 = lumped_reaction s3"
    and len6: "length (rate_type s6) =
           num_reactions s3 + length (lumped_reaction s3) * length (p_lumped P)"
    by (rule build_network_slots)
  note f7 = frame_field [where w = without_identifier, OF check_files_frame [OF s]]
  have "lumped_reaction s = lumped_reaction s6" "rate_type s = rate_type s6"
    using f7 [where f = lumped_reaction] f7 [where f = rate_type]
    by (simp_all add: without_identifier_def)
  then show ?thesis
    using len6 lr6 parse_reactions_network(10) [OF s3] by simp
qed

section \<open>Rate expressions and identifiers\<close>

text \<open>
  Claim C10. Whenever the constructor succeeds, a reaction read from a line with an
  opening brace, and every reaction read from the text whose rate type is \<^verbatim>\<open>Equation\<close>, is
  marked not identified in \<^verbatim>\<open>_is_identified\<close> and has the identifier \<^verbatim>\<open>NONE\<close> in
  \<^verbatim>\<open>_reaction_identifier\<close> when the constructor ends: whatever stands between parentheses
  on its line is dropped, and the search for a file of tabulated rates has not touched it.
\<close>

theorem C10_equation_discards_identifier:
  assumes "constructor ops fs P = Inr s"
    and "i < length (reaction_lines (p_reactions P))"
    and "find_char (reaction_lines (p_reactions P) ! i) CHR ''{'' \<noteq> npos \<or>
         rate_type s ! i = ''Equation''"
  shows "i < length (is_identified s) \<and> i < length (reaction_identifier s) \<and>
         \<not> is_identified s ! i \<and> reaction_identifier s ! i = ''NONE''"
proof -
  from assms(1) obtain s6 where s6: "build_network ops P = Inr s6"
    and s: "check_files fs P s6 = Inr s"
    by (rule constructor_build)
  from s6 obtain s3 where s3: "parse_reactions ops P = Inr s3"
    and lr6: "lumped_reaction s6 = lumped_reaction s3"
    and slot3: "\<forall>j<num_reactions s3. slot s6 j = slot s3 j"
    and copy: "\<forall>a<length (lumped_reaction s3). \<forall>c<length (p_lumped P).
           slot s6 (num_reactions s3 + a * length (p_lumped P) + c) =
             lumped_slot P c (slot s3 (lumped_reaction s3 ! a))"
    and len6: "length (rate_type s6) =
           num_reactions s3 + length (lumped_reaction s3) * length (p_lumped P)"
    and sz6: "length (reactants s6) = num_reactions s6" "length (products s6) = num_reactions s6"
    and emp6: "\<forall>j<num_reactions s6. length (reaction s6) \<le> j \<longrightarrow>
           reactants s6 ! j = [] \<and> products s6 ! j = []"
    and id6: "is_identified s6 = is_identified s3"
    and ri6: "reaction_identifier s6 = reaction_identifier s3"
    by (rule build_network_slots)
  note c = check_files_identifier [OF s]
  note p = parsed_identifier [OF s3 assms(2)]
  have i: "i < num_reactions s3" using parse_reactions_network(10) [OF s3] assms(2) by simp
  have "rate_type s = rate_type s6"
    using frame_field [where w = without_identifier and f = rate_type, OF check_files_frame [OF s]]
    by (simp add: without_identifier_def)
  then have rt: "rate_type s ! i = rate_type s3 ! i"
    using slot3 i by (simp add: slot_def)
  from p(3) assms(3) have n3: "\<not> is_identified s3 ! i \<and> reaction_identifier s3 ! i = ''NONE''"
    by (simp add: rt)
  then have "reaction_identifier s ! i = ''NONE''" using c(3) [of i] by (simp add: id6 ri6)
  with n3 show ?thesis using assms(2) p(1,2) c(1,2) by (simp add: id6 ri6)
qed

text \<open>
  Witness of C10: a line with a rate expression and a parenthesized name. The reaction
  has the rate type \<^verbatim>\<open>Equation\<close>, it is not identified, and no file is looked for.
\<close>

theorem C10_equation_discards_identifier_witness:
  "\<exists>s. constructor x_ops (\<lambda>path. False)
          (default_params\<lparr> p_species := [''A'', ''B'', ''C''],
             p_reactions := ''A + B -> C : {2.0*Te} (ident)'' \<rparr>) = Inr s \<and>
       reaction_lines ''A + B -> C : {2.0*Te} (ident)'' = [''A + B -> C : {2.0*Te} (ident)''] \<and>
       find_char ''A + B -> C : {2.0*Te} (ident)'' CHR ''{'' \<noteq> npos \<and>
       rate_type s = [''Equation''] \<and> 0 < length (is_identified s) \<and>
       \<not> is_identified s ! 0 \<and> reaction_identifier s ! 0 = ''NONE''"
proof -
  define P where "P = default_params\<lparr> p_species := [''A'', ''B'', ''C''],
             p_reactions := ''A + B -> C : {2.0*Te} (ident)'' \<rparr>"
  have "\<exists>s. constructor x_ops (\<lambda>path. False) P = Inr s \<and> rate_type s = [''Equation'']"
    unfolding P_def by (simp add: model_defs)
  then obtain s where s: "constructor x_ops (\<lambda>path. False) P = Inr s"
      "rate_type s = [''Equation'']"
    by blast
  have lines: "reaction_lines ''A + B -> C : {2.0*Te} (ident)'' =
                 [''A + B -> C : {2.0*Te} (ident)'']"
    by (simp add: reaction_lines_def getline_tokens.simps is_space_def find_char_def npos_def
          Let_def)
  have P: "p_reactions P = ''A + B -> C : {2.0*Te} (ident)''"
    by (simp add: P_def default_params_def)
  have brace: "find_char ''A + B -> C : {2.0*Te} (ident)'' CHR ''{'' \<noteq> npos"
    by (simp add: find_char_def npos_def)
  have "0 < length (is_identified s) \<and> \<not> is_identified s ! 0 \<and>
        reaction_identifier s ! 0 = ''NONE''"
    using C10_equation_discards_identifier [of x_ops "\<lambda>path. False" P s 0, OF s(1)]
      brace by (simp add: P lines)
  with s lines brace show ?thesis unfolding P_def by blast
qed

section \<open>The conversion of the rates in the network\<close>

text \<open>
  Claim C7. Whenever the constructor succeeds, for every reaction read from the text and
  every copy made for a lumped species, with at least one reactant, where \<open>r\<close> is the
  number of its reactants: when its rate type is \<^verbatim>\<open>Constant\<close>, its rate coefficient is
  the number \<^verbatim>\<open>std::stod\<close> reads from the rate field of its line, multiplied by
  \<open>N_A^(r-1) * convert_to_meters^(3*(r-1))\<close>; when its rate type is \<^verbatim>\<open>Equation\<close>, its rate
  expression is the text between the braces of its line, followed by \<open>*\<close> and that same
  factor written out. \<open>N_A\<close> is \<^verbatim>\<open>6.022e23\<close> under \<open>convert_to_moles\<close> and \<open>1\<close> otherwise; the
  line of a copy is the line of its template.
\<close>

theorem C7_rate_conversion:
  assumes "constructor ops fs P = Inr s"
    and "i < length (reaction_lines (p_reactions P)) +
             length (lumped_reaction s) * length (p_lumped P)"
    and "reactants s ! i \<noteq> []"
  shows "i < length (rate_type s) \<and>
         (\<exists>lf. parse_line (reaction_lines (p_reactions P) ! source_line P s i) = Inr lf \<and>
           (rate_type s ! i = ''Constant'' \<longrightarrow>
              (\<exists>v. r_stod ops (lf_rate_coefficient_string lf) = Stod_value v \<and>
                   rate_coefficient s ! i =
                     r_mul ops v (unit_factor ops P (length (reactants s ! i))))) \<and>
           (rate_type s ! i = ''Equation'' \<longrightarrow>
              rate_equation_string s ! i =
                lf_rate_equation_string lf @ ''*'' @
                r_stringify ops (unit_factor ops P (length (reactants s ! i)))))"
proof -
  define L where "L = length (p_lumped P)"
  define n0 where "n0 = length (reaction_lines (p_reactions P))"
  from assms(1) obtain s6 where s6: "build_network ops P = Inr s6"
    and s: "check_files fs P s6 = Inr s"
    by (rule constructor_build)
  from s6 obtain s3 where s3: "parse_reactions ops P = Inr s3"
    and lr6: "lumped_reaction s6 = lumped_reaction s3"
    and slot3: "\<forall>j<num_reactions s3. slot s6 j = slot s3 j"
    and copy: "\<forall>a<length (lumped_reaction s3). \<forall>c<length (p_lumped P).
           slot s6 (num_reactions s3 + a * length (p_lumped P) + c) =
             lumped_slot P c (slot s3 (lumped_reaction s3 ! a))"
    and len6: "length (rate_type s6) =
           num_reactions s3 + length (lumped_reaction s3) * length (p_lumped P)"
    and sz6: "length (reactants s6) = num_reactions s6" "length (products s6) = num_reactions s6"
    and emp6: "\<forall>j<num_reactions s6. length (reaction s6) \<le> j \<longrightarrow>
           reactants s6 ! j = [] \<and> products s6 ! j = []"
    and id6: "is_identified s6 = is_identified s3"
    and ri6: "reaction_identifier s6 = reaction_identifier s3"
    by (rule build_network_slots)
  note w = check_files_frame [OF s]
  have slot7: "slot s = slot s6"
    by (rule slot_frame [where w = without_identifier, OF w]) (simp_all add: without_identifier_def)
  note f7 = frame_field [where w = without_identifier, OF w]
  have lr: "lumped_reaction s = lumped_reaction s3"
    using f7 [where f = lumped_reaction] lr6 by (simp add: without_identifier_def)
  have rt7: "rate_type s = rate_type s6"
    using f7 [where f = rate_type] by (simp add: without_identifier_def)
  note net = parse_reactions_network [OF s3]
  have n0: "num_reactions s3 = n0" using net(10) by (simp add: n0_def)
  define t where "t = source_line P s i"
  have t: "t < n0 \<and> rate_coefficient s ! i = rate_coefficient s3 ! t \<and>
           rate_type s ! i = rate_type s3 ! t \<and>
           rate_equation_string s ! i = rate_equation_string s3 ! t \<and>
           length (reactants s ! i) = length (reactants s3 ! t)"
  proof (cases "i < n0")
    case True
    then have "t = i" by (simp add: t_def source_line_def n0_def)
    moreover have "slot s i = slot s3 i" using True slot3 by (simp add: slot7 n0)
    ultimately show ?thesis using True by (simp add: slot_def)
  next
    case False
    define a where "a = (i - n0) div L"
    define c where "c = (i - n0) mod L"
    from False assms(2) have lt: "i - n0 < length (lumped_reaction s3) * L"
      by (simp add: n0_def L_def lr)
    then have L: "0 < L" by (cases L) simp_all
    have a: "a < length (lumped_reaction s3)"
      unfolding a_def using lt by (rule less_mult_imp_div_less)
    have c: "c < L" unfolding c_def using L by simp
    have i: "i = n0 + a * L + c" using False by (simp add: a_def c_def)
    have "t = lumped_reaction s3 ! a"
      using False by (simp add: t_def source_line_def n0_def [symmetric] a_def L_def lr)
    moreover have "lumped_reaction s3 ! a < n0" using net(8) a n0 by simp
    moreover have "slot s i = lumped_slot P c (slot s3 (lumped_reaction s3 ! a))"
      using copy a c by (simp add: slot7 i n0 L_def)
    ultimately show ?thesis by (simp add: slot_def lumped_slot_def)
  qed
  have "t < num_reactions s3" "reactants s3 ! t \<noteq> []"
    using t assms(3) n0 by auto
  from parsed_rate_conversion [OF s3 this] t
  have "\<exists>lf. parse_line (reaction_lines (p_reactions P) ! t) = Inr lf \<and>
           (rate_type s ! i = ''Constant'' \<longrightarrow>
              (\<exists>v. r_stod ops (lf_rate_coefficient_string lf) = Stod_value v \<and>
                   rate_coefficient s ! i =
                     r_mul ops v (unit_factor ops P (length (reactants s ! i))))) \<and>
           (rate_type s ! i = ''Equation'' \<longrightarrow>
              rate_equation_string s ! i =
                lf_rate_equation_string lf @ ''*'' @
                r_stringify ops (unit_factor ops P (length (reactants s ! i))))"
    by simp
  moreover have "i < length (rate_type s)"
    using assms(2) by (simp add: rt7 len6 n0 n0_def lr)
  ultimately show ?thesis by (simp add: t_def)
qed

text \<open>
  Witness of C7: the copy of \<^verbatim>\<open>A + M -> B : 5\<close> for the second lumped species, in moles
  and with a length factor \<open>2\<close>: its two reactants make the rate \<open>5 * (N_A * 2^3)\<close>.
\<close>

theorem C7_rate_conversion_witness:
  "\<exists>s. constructor x_ops (\<lambda>path. False)
          (default_params\<lparr> p_species := [''A'', ''B''], p_lumped_species := True,
             p_lumped_valid := True, p_lumped := [''X'', ''Y''], p_lumped_name := ''M'',
             p_convert_to_moles := True, p_convert_to_meters := Val 2,
             p_reactions := ''A + M -> B : 5'' \<rparr>) = Inr s \<and>
       lumped_reaction s = [0] \<and>
       reactants s = [[''A'', ''M''], [''A'', ''X''], [''A'', ''Y'']] \<and>
       rate_type s = [''Constant'', ''Constant'', ''Constant''] \<and>
       rate_coefficient s ! 2 = Val (5 * (602200000000000000000000 * 8))"
proof -
  define P where "P = default_params\<lparr> p_species := [''A'', ''B''], p_lumped_species := True,
             p_lumped_valid := True, p_lumped := [''X'', ''Y''], p_lumped_name := ''M'',
             p_convert_to_moles := True, p_convert_to_meters := Val 2,
             p_reactions := ''A + M -> B : 5'' \<rparr>"
  have "\<exists>s. constructor x_ops (\<lambda>path. False) P = Inr s \<and> lumped_reaction s = [0] \<and>
          reactants s = [[''A'', ''M''], [''A'', ''X''], [''A'', ''Y'']] \<and>
          rate_type s = [''Constant'', ''Constant'', ''Constant'']"
    unfolding P_def by (simp add: model_defs)
  then obtain s where s: "constructor x_ops (\<lambda>path. False) P = Inr s"
      "lumped_reaction s = [0]"
      "reactants s = [[''A'', ''M''], [''A'', ''X''], [''A'', ''Y'']]"
      "rate_type s = [''Constant'', ''Constant'', ''Constant'']"
    by blast
  have lines: "reaction_lines (p_reactions P) = [''A + M -> B : 5'']"
    by (simp add: P_def default_params_def reaction_lines_def getline_tokens.simps
          is_space_def find_char_def npos_def Let_def)
  have L: "length (p_lumped P) = 2" by (simp add: P_def default_params_def)
  have src: "source_line P s 2 = 0" by (simp add: source_line_def lines s(2) L)
  have h: "2 < length (reaction_lines (p_reactions P)) +
                 length (lumped_reaction s) * length (p_lumped P)"
    "reactants s ! 2 \<noteq> []"
    by (simp_all add: lines s L)
  from C7_rate_conversion [OF s(1) h] obtain lf v where
    lf: "parse_line (reaction_lines (p_reactions P) ! source_line P s 2) = Inr lf"
    and v: "r_stod x_ops (lf_rate_coefficient_string lf) = Stod_value v"
    and rc: "rate_coefficient s ! 2 =
               r_mul x_ops v (unit_factor x_ops P (length (reactants s ! 2)))"
    using s(4) by auto
  have "lf_rate_coefficient_string lf = ''5''"
    using lf unfolding src lines
    by (auto simp: parse_line_def rate_coefficient_raw_def substr_def find_char_def npos_def
          sz_add_def sz_sub_def trim_def is_space_def Let_def)
  with v have "v = Val 5"
    by (simp add: x_ops_def x_stod_def is_digit_def digit_value_def)
  with rc have "rate_coefficient s ! 2 = Val (5 * (602200000000000000000000 * 8))"
    by (simp add: s(3) unit_factor_def x_ops_def P_def default_params_def)
  with s show ?thesis unfolding P_def by auto
qed

text \<open>
  Claim C7 fails for a reaction with no reactant. For \<^verbatim>\<open>-> B : 5\<close> the number of reactants
  is \<open>0\<close> and \<open>r - 1\<close> is \<open>-1\<close>, but \<^verbatim>\<open>_reactants[i].size() - 1\<close> is computed in \<^verbatim>\<open>size_t\<close>
  and is \<open>2^64 - 1\<close>: with a length factor \<open>2\<close> the rate is \<open>5 * 2^(3 * (2^64 - 1))\<close>.
\<close>

theorem C7_no_reactant_counterexample:
  "\<exists>s. constructor x_ops (\<lambda>path. False)
          (default_params\<lparr> p_species := [''B''], p_convert_to_meters := Val 2,
             p_reactions := ''-> B : 5'' \<rparr>) = Inr s \<and>
       reactants s ! 0 = [] \<and> rate_type s ! 0 = ''Constant'' \<and>
       exp_factor x_ops (length (reactants s ! 0)) = Val 18446744073709551615 \<and>
       rate_coefficient s ! 0 = Val (5 * 2 ^ 55340232221128654845) \<and>
       rate_coefficient s ! 0 \<noteq>
         r_mul x_ops (Val 5)
           (unit_factor x_ops
              (default_params\<lparr> p_species := [''B''], p_convert_to_meters := Val 2,
                 p_reactions := ''-> B : 5'' \<rparr>) (length (reactants s ! 0)))"
proof -
  define P where "P = default_params\<lparr> p_species := [''B''], p_convert_to_meters := Val 2,
             p_reactions := ''-> B : 5'' \<rparr>"
  have "\<exists>s. constructor x_ops (\<lambda>path. False) P = Inr s \<and> reactants s = [[]] \<and>
          rate_type s = [''Constant''] \<and>
          rate_coefficient s = [Val (5 * 2 ^ 55340232221128654845)]"
    unfolding P_def by (simp add: model_defs del: power_numeral)
  then obtain s where s: "constructor x_ops (\<lambda>path. False) P = Inr s" "reactants s = [[]]"
      "rate_type s = [''Constant'']"
      "rate_coefficient s = [Val (5 * 2 ^ 55340232221128654845)]"
    by blast
  have e: "exp_factor x_ops 0 = Val 18446744073709551615"
    by (simp add: exp_factor_def x_ops_def npos_def)
  have u: "r_mul x_ops (Val 5) (unit_factor x_ops P 0) = Val 5"
    by (simp add: unit_factor_def x_ops_def P_def default_params_def)
  have "(1::int) < 2 ^ 55340232221128654845" by (rule one_less_power) simp_all
  then have ne: "(5::int) * 2 ^ 55340232221128654845 \<noteq> 5" by linarith
  show ?thesis
    unfolding P_def [symmetric]
    using s e u ne by (intro exI [of _ s]) (simp del: power_numeral)
qed

section \<open>The balance check in the constructor\<close>




end
